(* ===== verification/Prelude.thy ===== *)
theory Prelude
  imports Main "HOL-Library.Word"
begin

unbundle bit_operations_syntax

text \<open>
  Shared vocabulary of the development.

  \<^item> Machine types: \<open>byte\<close>, \<open>u16\<close>, \<open>u32\<close>, \<open>u64\<close> are the fixed-width unsigned
    integers of \<^verbatim>\<open><stdint.h>\<close>; arithmetic on them wraps as it does in C.
  \<^item> C strings: a NUL-terminated \<open>char *\<close> is the list of its characters before the
    terminator, so \<open>s[0] == 0\<close> reads \<open>s = []\<close>. The functions of \<^verbatim>\<open><string.h>\<close>,
    \<^verbatim>\<open><ctype.h>\<close>, \<^verbatim>\<open><stdlib.h>\<close> and \<^verbatim>\<open><stdio.h>\<close> that the programs call
    (\<open>strcspn\<close>, \<open>isspace\<close>, \<open>strtok_r\<close>, \<open>strtoul\<close>, \<open>strtol\<close>, \<open>sscanf\<close> conversions,
    \<open>fgets\<close>, decimal \<open>printf\<close> conversions) are defined here.
  \<^item> Byte order: little- and big-endian stores and loads with their round trips; reading
    words from and copying bytes into arrays.
  \<^item> The interface \<open>streaming\<close> of an incremental hash, which BLAKE2b and SHA-256 provide.
\<close>

section \<open>Machine types\<close>

type_synonym byte = "8 word"
type_synonym u16 = "16 word"
type_synonym u32 = "32 word"
type_synonym u64 = "64 word"

named_theorems cstr \<open>facts about C strings and characters\<close>
named_theorems bytes \<open>facts about byte encodings\<close>

section \<open>Characters (C locale)\<close>

definition ord :: "char \<Rightarrow> nat" where
  "ord c = of_char c"

definition isspace :: "char \<Rightarrow> bool" where
  "isspace c \<longleftrightarrow> ord c = 32 \<or> (9 \<le> ord c \<and> ord c \<le> 13)"

definition isdigit :: "char \<Rightarrow> bool" where
  "isdigit c \<longleftrightarrow> 48 \<le> ord c \<and> ord c \<le> 57"

definition isalnum :: "char \<Rightarrow> bool" where
  "isalnum c \<longleftrightarrow> isdigit c \<or> (65 \<le> ord c \<and> ord c \<le> 90) \<or> (97 \<le> ord c \<and> ord c \<le> 122)"

definition digit_val :: "char \<Rightarrow> nat" where
  "digit_val c = ord c - 48"

definition digit_char :: "nat \<Rightarrow> char" where
  "digit_char d = char_of (48 + d)"

abbreviation NUL :: char where "NUL \<equiv> CHR 0x00"
abbreviation NL :: char where "NL \<equiv> CHR 0x0A"
abbreviation CR :: char where "CR \<equiv> CHR 0x0D"
abbreviation COLON :: char where "COLON \<equiv> CHR '':''"
abbreviation COMMA :: char where "COMMA \<equiv> CHR '',''"

lemma ord_digit_char [simp]: "d < 10 \<Longrightarrow> ord (digit_char d) = 48 + d"
  by (simp add: ord_def digit_char_def)

lemma isdigit_digit_char [simp]: "d < 10 \<Longrightarrow> isdigit (digit_char d)"
  by (simp add: isdigit_def)

lemma digit_val_digit_char [simp]: "d < 10 \<Longrightarrow> digit_val (digit_char d) = d"
  by (simp add: digit_val_def)

lemma ord_eq_iff: "ord c = ord d \<longleftrightarrow> c = d"
  by (simp add: ord_def of_char_eq_iff)

lemma isdigit_not_special [cstr]:
  assumes "isdigit c"
  shows "c \<noteq> COLON" "c \<noteq> COMMA" "c \<noteq> NL" "c \<noteq> CR" "c \<noteq> NUL" "\<not> isspace c"
    "c \<noteq> CHR ''-''" "c \<noteq> CHR ''+''" "c \<noteq> CHR ''$''"
  using assms by (auto simp: isdigit_def isspace_def ord_def)

lemma isalnum_not_special [cstr]:
  assumes "isalnum c"
  shows "c \<noteq> COLON" "c \<noteq> COMMA" "c \<noteq> NL" "c \<noteq> CR" "c \<noteq> NUL" "\<not> isspace c" "c \<noteq> CHR ''$''"
  using assms by (auto simp: isalnum_def isdigit_def isspace_def ord_def)

section \<open>C strings\<close>

text \<open>The C string stored in a buffer: what precedes the first NUL.\<close>

definition cstr_of :: "string \<Rightarrow> string" where
  "cstr_of s = takeWhile (\<lambda>c. c \<noteq> NUL) s"

definition strcspn :: "string \<Rightarrow> char set \<Rightarrow> nat" where
  "strcspn s R = length (takeWhile (\<lambda>c. c \<notin> R) s)"

text \<open>All tokens that repeated \<open>strtok_r(s, d)\<close> calls return: delimiters never appear in a
  token and empty tokens are skipped.\<close>

fun strtok_run :: "char \<Rightarrow> string \<Rightarrow> string \<Rightarrow> string list" where
  "strtok_run d cur [] = (if cur = [] then [] else [cur])"
| "strtok_run d cur (c # s) =
     (if c = d then (if cur = [] then strtok_run d [] s else cur # strtok_run d [] s)
      else strtok_run d (cur @ [c]) s)"

definition strtok :: "char \<Rightarrow> string \<Rightarrow> string list" where
  "strtok d s = strtok_run d [] s"

text \<open>\<open>fgets(buf, n, f)\<close> on the remaining input: \<open>None\<close> at end of file, otherwise the bytes
  stored (up to \<open>n - 1\<close>, stopping after a newline) and the rest.\<close>

fun fgets_take :: "nat \<Rightarrow> string \<Rightarrow> string \<times> string" where
  "fgets_take 0 s = ([], s)"
| "fgets_take (Suc n) [] = ([], [])"
| "fgets_take (Suc n) (c # s) =
     (if c = NL then ([NL], s)
      else (let (a, b) = fgets_take n s in (c # a, b)))"

definition fgets :: "nat \<Rightarrow> string \<Rightarrow> (string \<times> string) option" where
  "fgets n s = (if s = [] then None else Some (fgets_take (n - 1) s))"

lemma fgets_take_append: "fgets_take n s = (a, b) \<Longrightarrow> s = a @ b"
  by (induction n s arbitrary: a b rule: fgets_take.induct)
     (auto split: if_splits prod.splits)

lemma fgets_take_shorter: "s \<noteq> [] \<Longrightarrow> 0 < n \<Longrightarrow> length (snd (fgets_take n s)) < length s"
  by (cases n; cases s) (auto split: prod.splits dest!: fgets_take_append)

text \<open>The successive C strings a \<open>while (fgets(line, n, fp) != NULL)\<close> loop sees.\<close>

function fgets_lines :: "nat \<Rightarrow> string \<Rightarrow> string list" where
  "fgets_lines n s =
     (if s = [] \<or> n < 2 then []
      else (let (a, b) = fgets_take (n - 1) s in cstr_of a # fgets_lines n b))"
  by pat_completeness auto
termination
proof (relation "measure (\<lambda>(n, s). length s)")
  fix n :: nat and s p a b
  assume a: "\<not> (s = [] \<or> n < 2)" and p: "p = fgets_take (n - 1) s" "(a, b) = p"
  from a have "length (snd (fgets_take (n - 1) s)) < length s"
    by (intro fgets_take_shorter) auto
  with p show "((n, b), n, s) \<in> measure (\<lambda>(n, s). length s)"
    by (metis case_prod_conv in_measure snd_conv)
qed simp

declare fgets_lines.simps [simp del]

lemma fgets_lines_Nil [simp]: "fgets_lines n [] = []"
  by (simp add: fgets_lines.simps)

lemma fgets_take_line:
  "NL \<notin> set l \<Longrightarrow> length l < n \<Longrightarrow> fgets_take n (l @ NL # rest) = (l @ [NL], rest)"
  by (induction l arbitrary: n) (case_tac n; auto)+

lemma cstr_of_id [simp]: "NUL \<notin> set s \<Longrightarrow> cstr_of s = s"
  by (auto simp: cstr_of_def takeWhile_eq_all_conv)

lemma fgets_lines_line:
  assumes "NL \<notin> set l" "NUL \<notin> set l" "length l + 1 < n"
  shows "fgets_lines n (l @ NL # rest) = (l @ [NL]) # fgets_lines n rest"
  using assms fgets_take_line [of l "n - 1" rest]
  by (subst fgets_lines.simps) auto


text \<open>Splitting at the first occurrence of a separator.\<close>

lemma takeWhile_sep [cstr]: "d \<notin> set p \<Longrightarrow> takeWhile (\<lambda>c. c \<noteq> d) (p @ d # r) = p"
  by (induction p) auto

lemma dropWhile_sep [cstr]: "d \<notin> set p \<Longrightarrow> dropWhile (\<lambda>c. c \<noteq> d) (p @ d # r) = d # r"
  by (induction p) auto

lemma takeWhile_no_sep [cstr]: "d \<notin> set p \<Longrightarrow> takeWhile (\<lambda>c. c \<noteq> d) p = p"
  by (induction p) auto

lemma dropWhile_no_sep [cstr]: "d \<notin> set p \<Longrightarrow> dropWhile (\<lambda>c. c \<noteq> d) p = []"
  by (induction p) auto

section \<open>Decimal numbers\<close>

fun show_nat :: "nat \<Rightarrow> string" where
  "show_nat n = (if n < 10 then [digit_char n] else show_nat (n div 10) @ [digit_char (n mod 10)])"

declare show_nat.simps [simp del]

definition show_int :: "int \<Rightarrow> string" where
  "show_int i = (if i < 0 then CHR ''-'' # show_nat (nat (- i)) else show_nat (nat i))"

definition dec_val :: "string \<Rightarrow> nat" where
  "dec_val s = foldl (\<lambda>a c. 10 * a + digit_val c) 0 s"

definition skip_ws :: "string \<Rightarrow> string" where
  "skip_ws s = dropWhile isspace s"

fun scan_sign :: "string \<Rightarrow> bool \<times> string" where
  "scan_sign [] = (False, [])"
| "scan_sign (c # s) =
     (if c = CHR ''-'' then (True, s) else if c = CHR ''+'' then (False, s) else (False, c # s))"

text \<open>The unsigned 64-bit conversion shared by \<open>strtoul(_, _, 10)\<close> and the \<open>%u\<close> conversion of
  \<open>sscanf\<close>: white space, an optional sign, digits; an overflow saturates at \<open>ULONG_MAX\<close>.
  \<open>None\<close> means that no digit was found.\<close>

definition scan_u :: "string \<Rightarrow> (u64 \<times> string) option" where
  "scan_u s =
     (let (neg, r) = scan_sign (skip_ws s); ds = takeWhile isdigit r; v = dec_val ds
      in if ds = [] then None
         else Some (if v \<ge> 2 ^ 64 then - 1 else if neg then - of_nat v else of_nat v,
                    dropWhile isdigit r))"

definition strtoul :: "string \<Rightarrow> u64" where
  "strtoul s = (case scan_u s of None \<Rightarrow> 0 | Some (v, _) \<Rightarrow> v)"

text \<open>\<open>strtol(s, &end, 10)\<close> with a 64-bit \<open>long\<close>: the value, clamped, and \<open>end\<close>.\<close>

definition strtol_end :: "string \<Rightarrow> int \<times> string" where
  "strtol_end s =
     (let (neg, r) = scan_sign (skip_ws s); ds = takeWhile isdigit r;
          v = (if neg then - int (dec_val ds) else int (dec_val ds))
      in if ds = [] then (0, s)
         else (max (- (2 ^ 63)) (min (2 ^ 63 - 1) v), dropWhile isdigit r))"

definition strtol :: "string \<Rightarrow> int" where
  "strtol s = fst (strtol_end s)"

text \<open>A \<open>%wd\<close> conversion of \<open>sscanf\<close> with field width \<open>w\<close>.\<close>

definition scan_d :: "nat \<Rightarrow> string \<Rightarrow> (int \<times> string) option" where
  "scan_d w s =
     (let s1 = skip_ws s; s2 = take w s1; (neg, r) = scan_sign s2; ds = takeWhile isdigit r;
          used = (length s2 - length r) + length ds
      in if ds = [] then None
         else Some (if neg then - int (dec_val ds) else int (dec_val ds), drop used s1))"

text \<open>A literal character in a \<open>sscanf\<close> format.\<close>

fun scan_lit :: "char \<Rightarrow> string \<Rightarrow> string option" where
  "scan_lit c [] = None"
| "scan_lit c (x # s) = (if x = c then Some s else None)"

lemma show_nat_digits: "c \<in> set (show_nat n) \<Longrightarrow> isdigit c"
  by (induction n rule: show_nat.induct) (subst (asm) (2) show_nat.simps, auto split: if_splits)

lemma show_nat_nonempty [simp]: "show_nat n \<noteq> []"
  by (subst show_nat.simps) simp

lemma dec_val_snoc [simp]: "dec_val (s @ [c]) = 10 * dec_val s + digit_val c"
  by (simp add: dec_val_def)

lemma dec_val_show_nat [simp]: "dec_val (show_nat n) = n"
proof (induction n rule: show_nat.induct)
  case (1 n)
  show ?case
  proof (cases "n < 10")
    case True
    then show ?thesis by (subst show_nat.simps) (simp add: dec_val_def)
  next
    case False
    with 1 show ?thesis by (subst show_nat.simps) simp
  qed
qed

lemma show_nat_length: "n < 10 ^ k \<Longrightarrow> 0 < k \<Longrightarrow> length (show_nat n) \<le> k"
proof (induction n arbitrary: k rule: show_nat.induct)
  case (1 n)
  show ?case
  proof (cases "n < 10")
    case True
    with 1 show ?thesis by (subst show_nat.simps) simp
  next
    case False
    with "1.prems" obtain m where m: "k = Suc m" "0 < m"
      by (cases k; cases "k - 1") auto
    with "1.prems" False have "n div 10 < 10 ^ m"
      by (simp add: div_less_iff_less_mult mult.commute)
    with 1 False m have "length (show_nat (n div 10)) \<le> m" by simp
    with False m show ?thesis by (subst show_nat.simps) simp
  qed
qed

lemma takeWhile_digits_show_nat [simp]:
  "rest = [] \<or> \<not> isdigit (hd rest) \<Longrightarrow> takeWhile isdigit (show_nat n @ rest) = show_nat n"
  by (cases rest) (auto simp: takeWhile_append2 show_nat_digits takeWhile_eq_all_conv)

lemma dropWhile_digits_show_nat [simp]:
  "rest = [] \<or> \<not> isdigit (hd rest) \<Longrightarrow> dropWhile isdigit (show_nat n @ rest) = rest"
  by (cases rest) (auto simp: dropWhile_append2 show_nat_digits)

lemma span_digits_show_nat [simp]:
  "takeWhile isdigit (show_nat n) = show_nat n" "dropWhile isdigit (show_nat n) = []"
  using takeWhile_digits_show_nat [of "[]" n] dropWhile_digits_show_nat [of "[]" n] by simp_all

lemma show_nat_hd: "isdigit (hd (show_nat n))"
  by (meson hd_in_set show_nat_digits show_nat_nonempty)

lemma skip_ws_show_nat [simp]: "skip_ws (show_nat n @ rest) = show_nat n @ rest"
proof -
  obtain c t where ct: "show_nat n = c # t"
    by (cases "show_nat n") auto
  then have "isdigit c" using show_nat_hd [of n] by simp
  then show ?thesis by (simp add: ct skip_ws_def isdigit_not_special)
qed

lemma scan_sign_show_nat [simp]: "scan_sign (show_nat n @ rest) = (False, show_nat n @ rest)"
proof -
  obtain c t where ct: "show_nat n = c # t"
    by (cases "show_nat n") auto
  then have "isdigit c" using show_nat_hd [of n] by simp
  then show ?thesis by (simp add: ct isdigit_not_special)
qed

lemma scan_u_show_nat:
  "n < 2 ^ 64 \<Longrightarrow> rest = [] \<or> \<not> isdigit (hd rest) \<Longrightarrow> scan_u (show_nat n @ rest) = Some (of_nat n, rest)"
  by (simp add: scan_u_def)

lemma strtoul_show_nat: "n < 2 ^ 64 \<Longrightarrow> strtoul (show_nat n) = of_nat n"
  using scan_u_show_nat [of n "[]"] by (simp add: strtoul_def)

lemma strtol_show_int:
  assumes "- (2 ^ 63) \<le> i" "i < 2 ^ 63"
  shows "strtol (show_int i) = i"
proof (cases "i < 0")
  case True
  have "skip_ws (CHR ''-'' # show_nat (nat (- i))) = CHR ''-'' # show_nat (nat (- i))"
    by (simp add: skip_ws_def isspace_def ord_def)
  with True assms show ?thesis
    by (simp add: strtol_def strtol_end_def show_int_def)
next
  case False
  with assms show ?thesis
    using skip_ws_show_nat [of "nat i" "[]"] scan_sign_show_nat [of "nat i" "[]"]
    by (simp add: strtol_def strtol_end_def show_int_def)
qed

lemma show_int_chars: "c \<in> set (show_int i) \<Longrightarrow> isdigit c \<or> c = CHR ''-''"
  by (auto simp: show_int_def dest: show_nat_digits split: if_splits)

section \<open>Byte order\<close>

fun le_load :: "byte list \<Rightarrow> 'a::len word" where
  "le_load [] = 0"
| "le_load (b # bs) = ucast b OR push_bit 8 (le_load bs)"

fun le_store :: "nat \<Rightarrow> 'a::len word \<Rightarrow> byte list" where
  "le_store 0 w = []"
| "le_store (Suc n) w = ucast w # le_store n (drop_bit 8 w)"

definition be_load :: "byte list \<Rightarrow> 'a::len word" where
  "be_load bs = le_load (rev bs)"

definition be_store :: "nat \<Rightarrow> 'a::len word \<Rightarrow> byte list" where
  "be_store n w = rev (le_store n w)"

text \<open>Equality of bytes bit by bit, and the absent high bits.\<close>

lemma byte_high_bits [simp]: "8 \<le> n \<Longrightarrow> \<not> bit (b :: byte) n"
  using bit_imp_le_length [of b n] by auto

lemma byte_eqI:
  fixes a b :: byte
  assumes "bit a 0 = bit b 0" "bit a 1 = bit b 1" "bit a 2 = bit b 2" "bit a 3 = bit b 3"
    "bit a 4 = bit b 4" "bit a 5 = bit b 5" "bit a 6 = bit b 6" "bit a 7 = bit b 7"
  shows "a = b"
proof (rule bit_word_eqI)
  fix n assume "n < LENGTH(8)"
  then have "n = 0 \<or> n = 1 \<or> n = 2 \<or> n = 3 \<or> n = 4 \<or> n = 5 \<or> n = 6 \<or> n = 7" by auto
  with assms show "bit a n = bit b n" by (elim disjE) simp_all
qed

lemma ucast_u64_u32 [simp]: "ucast (ucast (w :: u32) :: u64) = w"
  by (rule bit_word_eqI) (simp add: bit_simps)

lemma unat_drop_bit_div: "unat (drop_bit n (w :: 'a::len word)) = unat w div 2 ^ n"
  by (simp only: unat_drop_bit_eq drop_bit_nat_def)

lemma unat_of_nat_eq: "n < 2 ^ LENGTH('a) \<Longrightarrow> unat (of_nat n :: 'a::len word) = n"
  by (simp add: unat_of_nat)

lemma length_le_store [simp]: "length (le_store n w) = n"
  by (induction n arbitrary: w) auto

lemma le_store_numeral [simp]:
  "le_store (numeral k) w = ucast w # le_store (pred_numeral k) (drop_bit 8 w)"
  by (simp add: numeral_eq_Suc)

lemma length_be_store [simp]: "length (be_store n w) = n"
  by (simp add: be_store_def)

lemma le_load_store [bytes]: "le_load (le_store n w) = take_bit (8 * n) (w :: 'a::len word)"
proof (induction n arbitrary: w)
  case (Suc n)
  show ?case
    by (simp add: Suc, rule bit_word_eqI) (auto simp: bit_simps)
qed simp

lemma le_load_store_id [simp]:
  "LENGTH('a) = 8 * n \<Longrightarrow> le_load (le_store n w) = (w :: 'a::len word)"
  by (simp add: le_load_store take_bit_word_eq_self)

lemma be_load_store_id [simp]:
  "LENGTH('a) = 8 * n \<Longrightarrow> be_load (be_store n w) = (w :: 'a::len word)"
  by (simp add: be_load_def be_store_def)

lemma le_store_load [bytes]: "le_store (length bs) (le_load bs :: 'a::len word) = bs"
  if "8 * length bs \<le> LENGTH('a)"
  using that
proof (induction bs)
  case (Cons b bs)
  have hd: "ucast (ucast b OR push_bit 8 (le_load bs :: 'a word)) = b"
    by (rule bit_word_eqI) (use Cons.prems in \<open>auto simp: bit_simps\<close>)
  have tl: "drop_bit 8 (ucast b OR push_bit 8 (le_load bs :: 'a word)) = take_bit (LENGTH('a) - 8) (le_load bs)"
    by (rule bit_word_eqI) (auto simp: bit_simps)
  have small: "take_bit (LENGTH('a) - 8) (le_load bs :: 'a word) = le_load bs"
  proof -
    have "le_load bs = (take_bit (8 * length bs) (le_load bs) :: 'a word)"
      using le_load_store [of "length bs" "le_load bs :: 'a word"] Cons by simp
    then show ?thesis
      using Cons.prems by (metis (no_types, lifting) add_le_imp_le_diff length_Cons min.absorb2 mult_Suc_right
        add.commute take_bit_take_bit)
  qed
  show ?case
    unfolding le_load.simps list.size add_Suc_right add_0_right le_store.simps hd tl small using Cons by simp
qed simp

lemma be_store_load [bytes]: "8 * length bs \<le> LENGTH('a) \<Longrightarrow> be_store (length bs) (be_load bs :: 'a::len word) = bs"
  using le_store_load [of "rev bs", where 'a = 'a] by (simp add: be_store_def be_load_def)

section \<open>Memory\<close>

text \<open>\<open>get32 off p\<close> and \<open>get16 off p\<close> read the native word at byte offset \<open>off\<close>; \<open>poke\<close> copies
  bytes into an array.\<close>

definition get32 :: "nat \<Rightarrow> byte list \<Rightarrow> u32" where
  "get32 off p = le_load (take 4 (drop off p))"

definition get16 :: "nat \<Rightarrow> byte list \<Rightarrow> u16" where
  "get16 off p = le_load (take 2 (drop off p))"

definition poke :: "byte list \<Rightarrow> nat \<Rightarrow> byte list \<Rightarrow> byte list" where
  "poke a off bs = take off a @ bs @ drop (off + length bs) a"

lemma get32_header: "p = a @ le_store 4 w @ b \<Longrightarrow> off = length a \<Longrightarrow> get32 off p = w"
  by (simp add: get32_def del: le_store_numeral)

lemma get16_at: "p = a @ le_store 2 w @ b \<Longrightarrow> off = length a \<Longrightarrow> get16 off p = w"
  by (simp add: get16_def del: le_store_numeral)

section \<open>Incremental hashing\<close>

text \<open>What the callers of an incremental hash rely on: feeding the empty chunk changes
  nothing, and feeding two chunks one after the other is feeding their concatenation. The
  invariant \<open>inv\<close> is the one the state keeps between calls.\<close>

locale streaming =
  fixes update :: "'s \<Rightarrow> 'b list \<Rightarrow> 's"
    and inv :: "'s \<Rightarrow> bool"
  assumes update_Nil: "inv s \<Longrightarrow> update s [] = s"
    and update_append: "inv s \<Longrightarrow> update s (xs @ ys) = update (update s xs) ys"
    and update_inv: "inv s \<Longrightarrow> inv (update s xs)"
begin

lemma feed_concat: "inv s \<Longrightarrow> foldl update s chunks = update s (concat chunks)"
proof (induction chunks arbitrary: s)
  case Nil
  then show ?case by (simp add: update_Nil)
next
  case (Cons c cs)
  then show ?case by (simp add: update_inv update_append)
qed

lemma feed_inv: "inv s \<Longrightarrow> inv (foldl update s chunks)"
  by (induction chunks arbitrary: s) (auto simp: update_inv)

lemma feed_rechunk: "inv s \<Longrightarrow> concat cs = concat ds \<Longrightarrow> foldl update s cs = foldl update s ds"
  by (simp add: feed_concat)

end

end
