(* ===== verification/UA_Strings.thy ===== *)
theory UA_Strings
  imports Prelude
begin

text \<open>
  The string layer of \<^verbatim>\<open>tools/eclipse-useradd/eclipse-useradd.c\<close>: trimming and bounded copies,
  the validators of user names, full names and birth dates, and the comma-separated group lists
  that the three database files store.

  A fixed-size destination buffer shows up as the capacity argument of the C code: \<open>string_copy\<close>
  and \<open>csv_add\<close> return \<open>None\<close> exactly where the source returns \<open>-1\<close>. The group lists implement a
  bounded finite set; that contract is the locale \<open>bounded_set\<close>, interpreted at the end of the
  theory on \<open>csv_add\<close>, \<open>csv_remove\<close> and \<open>csv_contains\<close>.
\<close>

abbreviation (input) MAX_USERNAME :: nat where "MAX_USERNAME \<equiv> 32"
abbreviation (input) MAX_FULLNAME :: nat where "MAX_FULLNAME \<equiv> 64"
abbreviation (input) MAX_BIRTHDATE :: nat where "MAX_BIRTHDATE \<equiv> 10"
abbreviation (input) MAX_GROUP_CSV :: nat where "MAX_GROUP_CSV \<equiv> 512"
abbreviation (input) MAX_HOME :: nat where "MAX_HOME \<equiv> 256"
abbreviation (input) MAX_SHELL :: nat where "MAX_SHELL \<equiv> 128"
abbreviation (input) MAX_HASH :: nat where "MAX_HASH \<equiv> 256"

section \<open>Trimming and copying\<close>

definition trim_newline :: "string \<Rightarrow> string" where
  "trim_newline s = take (strcspn s {CR, NL}) s"

definition trim_whitespace :: "string \<Rightarrow> string" where
  "trim_whitespace s = rev (dropWhile isspace (rev (dropWhile isspace s)))"

text \<open>The string stored in a destination of \<open>dstsz\<close> bytes.\<close>

definition string_copy :: "nat \<Rightarrow> string \<Rightarrow> string option" where
  "string_copy dstsz src = (if length src \<ge> dstsz then None else Some src)"

section \<open>Validators\<close>

definition name_char :: "char \<Rightarrow> bool" where
  "name_char ch \<longleftrightarrow> isalnum ch \<or> ch = CHR ''_'' \<or> ch = CHR ''-''"

definition validate_username :: "string \<Rightarrow> bool" where
  "validate_username username \<longleftrightarrow>
     (let len = min (length username) (MAX_USERNAME + 2)
      in \<not> (len = 0 \<or> len > MAX_USERNAME) \<and> (\<forall>i\<in>{0..<len}. name_char (username ! i)))"

definition validate_fullname :: "string \<Rightarrow> bool" where
  "validate_fullname fullname \<longleftrightarrow>
     (let len = min (length fullname) (MAX_FULLNAME + 1) in len > 0 \<and> len \<le> MAX_FULLNAME)"

text \<open>C's \<open>%\<close> truncates towards zero; tested against zero it agrees with \<open>mod\<close>.\<close>

definition is_leap_year :: "int \<Rightarrow> bool" where
  "is_leap_year year \<longleftrightarrow> (year mod 4 = 0 \<and> year mod 100 \<noteq> 0) \<or> year mod 400 = 0"

definition mdays :: "int list" where
  "mdays = [31, 28, 31, 30, 31, 30, 31, 31, 30, 31, 30, 31]"

text \<open>\<open>sscanf(s, "%4d-%2d-%2d", &year, &month, &day)\<close> when all three conversions succeed.\<close>

definition scan_date :: "string \<Rightarrow> (int \<times> int \<times> int) option" where
  "scan_date s =
     Option.bind (scan_d 4 s) (\<lambda>(year, r1).
     Option.bind (scan_lit CHR ''-'' r1) (\<lambda>r2.
     Option.bind (scan_d 2 r2) (\<lambda>(month, r3).
     Option.bind (scan_lit CHR ''-'' r3) (\<lambda>r4.
     Option.bind (scan_d 2 r4) (\<lambda>(day, r5). Some (year, month, day))))))"

definition validate_birthdate :: "string \<Rightarrow> bool" where
  "validate_birthdate birthdate =
     (if length birthdate \<noteq> 10 then False
      else if birthdate = ''0000-00-00'' then True
      else case scan_date birthdate of
             None \<Rightarrow> False
           | Some (year, month, day) \<Rightarrow>
               (if month < 1 \<or> month > 12 \<or> day < 1 then False
                else if month = 2 \<and> is_leap_year year then day \<le> 29
                else day \<le> mdays ! nat (month - 1)))"

text \<open>The clock is an argument: \<open>now\<close> is the value of \<open>time(NULL)\<close>.\<close>

definition days_since_epoch :: "int \<Rightarrow> int" where
  "days_since_epoch now = (if now < 0 then 0 else now div 86400)"

section \<open>Comma-separated lists\<close>

fun csv_contains_loop :: "string list \<Rightarrow> string \<Rightarrow> bool" where
  "csv_contains_loop [] item = False"
| "csv_contains_loop (tok # toks) item =
     (if trim_whitespace tok = item then True else csv_contains_loop toks item)"

definition csv_contains :: "string \<Rightarrow> string \<Rightarrow> bool" where
  "csv_contains csv item =
     (if item = [] then False
      else case string_copy MAX_GROUP_CSV csv of
             None \<Rightarrow> False
           | Some copy \<Rightarrow> csv_contains_loop (strtok COMMA copy) item)"

definition csv_add :: "nat \<Rightarrow> string \<Rightarrow> string \<Rightarrow> string option" where
  "csv_add csvlen csv item =
     (if item = [] then None
      else if csv_contains csv item then Some csv
      else if csv = [] then string_copy csvlen item
      else if length csv + 1 + length item + 1 > csvlen then None
      else Some (csv @ [COMMA] @ item))"

text \<open>A failing \<open>(void)csv_add(result, ...)\<close> leaves \<open>result\<close> as it was.\<close>

fun csv_remove_loop :: "string list \<Rightarrow> string \<Rightarrow> string \<Rightarrow> string" where
  "csv_remove_loop [] item result = result"
| "csv_remove_loop (tok # toks) item result =
     (let t = trim_whitespace tok
      in if t \<noteq> [] \<and> t \<noteq> item
         then csv_remove_loop toks item
                (case csv_add MAX_GROUP_CSV result t of None \<Rightarrow> result | Some r \<Rightarrow> r)
         else csv_remove_loop toks item result)"

definition csv_remove :: "string \<Rightarrow> string \<Rightarrow> string" where
  "csv_remove csv item =
     (case string_copy MAX_GROUP_CSV csv of
        None \<Rightarrow> csv
      | Some copy \<Rightarrow>
          (case string_copy MAX_GROUP_CSV (csv_remove_loop (strtok COMMA copy) item []) of
             None \<Rightarrow> csv
           | Some r \<Rightarrow> r))"

fun csv_normalize_loop :: "string list \<Rightarrow> string \<Rightarrow> string option" where
  "csv_normalize_loop [] result = Some result"
| "csv_normalize_loop (tok # toks) result =
     (let t = trim_whitespace tok
      in if t \<noteq> []
         then if \<not> validate_username t then None
              else (case csv_add MAX_GROUP_CSV result t of
                      None \<Rightarrow> None
                    | Some r \<Rightarrow> csv_normalize_loop toks r)
         else csv_normalize_loop toks result)"

definition csv_normalize :: "nat \<Rightarrow> string \<Rightarrow> string option" where
  "csv_normalize dstlen src =
     (if dstlen = 0 then None
      else if src = [] then Some []
      else case string_copy MAX_GROUP_CSV src of
             None \<Rightarrow> None
           | Some copy \<Rightarrow>
               (case csv_normalize_loop (strtok COMMA copy) [] of
                  None \<Rightarrow> None
                | Some result \<Rightarrow> string_copy dstlen result))"

section \<open>Facts about trimming, copying and names\<close>

lemma string_copy_Some [simp]: "string_copy n s = Some t \<longleftrightarrow> t = s \<and> length s < n"
  by (auto simp: string_copy_def)

lemma string_copy_None [simp]: "string_copy n s = None \<longleftrightarrow> n \<le> length s"
  by (simp add: string_copy_def)

lemma trim_whitespace_id:
  "(\<forall>c\<in>set s. \<not> isspace c) \<Longrightarrow> trim_whitespace s = s"
proof -
  assume a: "\<forall>c\<in>set s. \<not> isspace c"
  have d: "dropWhile isspace t = t" if "\<forall>c\<in>set t. \<not> isspace c" for t
    using that by (cases t) auto
  show "trim_whitespace s = s"
    using d [of s] d [of "rev s"] a by (simp add: trim_whitespace_def)
qed

lemma trim_newline_line: "NL \<notin> set s \<Longrightarrow> CR \<notin> set s \<Longrightarrow> trim_newline (s @ [NL]) = s"
proof -
  assume "NL \<notin> set s" "CR \<notin> set s"
  then have "takeWhile (\<lambda>c. c \<notin> {CR, NL}) (s @ [NL]) = s"
    by (subst takeWhile_append2) auto
  then show ?thesis by (simp add: trim_newline_def strcspn_def)
qed

lemma name_char_not_special [cstr]:
  assumes "name_char c"
  shows "c \<noteq> COLON" "c \<noteq> COMMA" "c \<noteq> NL" "c \<noteq> CR" "c \<noteq> NUL" "\<not> isspace c"
  using assms by (auto simp: name_char_def isalnum_def isdigit_def isspace_def ord_def)

lemma validate_username_iff:
  "validate_username u \<longleftrightarrow> u \<noteq> [] \<and> length u \<le> 32 \<and> (\<forall>c\<in>set u. name_char c)"
proof -
  have "(\<forall>i\<in>{0..<length u}. name_char (u ! i)) \<longleftrightarrow> (\<forall>c\<in>set u. name_char c)"
    by (metis atLeastLessThan_iff in_set_conv_nth nth_mem zero_le)
  then show ?thesis
    by (cases "length u \<le> 32") (auto simp: validate_username_def Let_def min_def)
qed

lemma validate_fullname_iff: "validate_fullname f \<longleftrightarrow> f \<noteq> [] \<and> length f \<le> 64"
  by (auto simp: validate_fullname_def Let_def)

section \<open>The items of a list\<close>

definition csv_items :: "string \<Rightarrow> string list" where
  "csv_items s = filter (\<lambda>t. t \<noteq> []) (map trim_whitespace (strtok COMMA s))"

text \<open>What the list stores without change: a trimmed, non-empty string with no comma.\<close>

definition csv_item :: "string \<Rightarrow> bool" where
  "csv_item t \<longleftrightarrow> t \<noteq> [] \<and> COMMA \<notin> set t \<and> trim_whitespace t = t"

lemma csv_item_name: "validate_username u \<Longrightarrow> csv_item u"
  by (auto simp: csv_item_def validate_username_iff intro!: trim_whitespace_id
      dest: name_char_not_special)

lemma strtok_run_append: "strtok_run d cur (s @ d # t) = strtok_run d cur s @ strtok_run d [] t"
  by (induction d cur s rule: strtok_run.induct) auto

lemma strtok_run_single: "d \<notin> set s \<Longrightarrow> strtok_run d cur s = (if cur @ s = [] then [] else [cur @ s])"
  by (induction d cur s rule: strtok_run.induct) auto

lemma strtok_run_tokens:
  "t \<in> set (strtok_run d cur s) \<Longrightarrow> d \<notin> set cur \<Longrightarrow> t \<noteq> [] \<and> d \<notin> set t"
  by (induction d cur s rule: strtok_run.induct) (auto split: if_splits)

lemma strtok_tokens: "t \<in> set (strtok d s) \<Longrightarrow> t \<noteq> [] \<and> d \<notin> set t"
  using strtok_run_tokens [of t d "[]" s] by (simp add: strtok_def)

lemma strtok_run_weight:
  "(\<Sum>t\<leftarrow>strtok_run d cur s. length t + 1) \<le> length cur + length s + 1"
  by (induction d cur s rule: strtok_run.induct) auto

lemma csv_items_snoc:
  "csv_item t \<Longrightarrow> csv_items (s @ COMMA # t) = csv_items s @ [t]"
  by (simp add: csv_items_def strtok_def strtok_run_append strtok_run_single csv_item_def)

lemma csv_items_single: "csv_item t \<Longrightarrow> csv_items t = [t]"
  by (simp add: csv_items_def strtok_def strtok_run_single csv_item_def)

lemma csv_items_Nil [simp]: "csv_items [] = []"
  by (simp add: csv_items_def strtok_def)

lemma set_trim_whitespace: "set (trim_whitespace s) \<subseteq> set s"
proof
  fix c assume "c \<in> set (trim_whitespace s)"
  then have "c \<in> set (dropWhile isspace (rev (dropWhile isspace s)))"
    by (simp add: trim_whitespace_def)
  then have "c \<in> set (dropWhile isspace s)" by (metis set_dropWhileD set_rev)
  then show "c \<in> set s" by (rule set_dropWhileD)
qed

lemma trim_whitespace_idem [simp]: "trim_whitespace (trim_whitespace s) = trim_whitespace s"
proof -
  define a where "a = dropWhile isspace s"
  define b where "b = dropWhile isspace (rev a)"
  have b: "trim_whitespace s = rev b" by (simp add: trim_whitespace_def a_def b_def)
  have "dropWhile isspace (rev b) = rev b"
  proof (cases "rev b")
    case (Cons x xs)
    obtain p where "rev a = p @ b" unfolding b_def by (metis takeWhile_dropWhile_id)
    then have "a = rev b @ rev p" by (metis rev_append rev_rev_ident)
    with Cons have "a = x # xs @ rev p" by simp
    then have "\<not> isspace x" unfolding a_def by (metis dropWhile_eq_Cons_conv)
    with Cons show ?thesis by simp
  qed simp
  moreover have "dropWhile isspace b = b" by (simp add: b_def)
  ultimately show ?thesis unfolding b by (simp add: trim_whitespace_def)
qed

lemma length_trim_whitespace: "length (trim_whitespace s) \<le> length s"
  unfolding trim_whitespace_def by (metis length_dropWhile_le length_rev le_trans)

lemma trimmed_token_item:
  "tok \<in> set (strtok COMMA s) \<Longrightarrow> trim_whitespace tok \<noteq> [] \<Longrightarrow> csv_item (trim_whitespace tok)"
  using strtok_tokens [of tok COMMA s] set_trim_whitespace [of tok] by (auto simp: csv_item_def)

lemma csv_items_item: "t \<in> set (csv_items s) \<Longrightarrow> csv_item t"
  by (auto simp: csv_items_def intro: trimmed_token_item)

lemma csv_contains_loop_iff: "csv_contains_loop toks item \<longleftrightarrow> item \<in> trim_whitespace ` set toks"
  by (induction toks) auto

lemma csv_contains_iff:
  "length csv < 512 \<Longrightarrow> csv_contains csv item \<longleftrightarrow> item \<in> set (csv_items csv)"
  by (auto simp: csv_contains_def string_copy_def csv_contains_loop_iff csv_items_def)

section \<open>Adding and removing\<close>

text \<open>Insertion at the end unless present: what the lists do, without buffers.\<close>

definition csv_ins :: "string list \<Rightarrow> string \<Rightarrow> string list" where
  "csv_ins xs t = (if t \<in> set xs then xs else xs @ [t])"

lemma csv_add_Some:
  assumes "csv_add n csv item = Some csv'" "csv_item item" "length csv < n" "n \<le> 512"
  shows "csv_items csv' = csv_ins (csv_items csv) item" "length csv' < n"
  using assms
  by (auto simp: csv_add_def csv_contains_iff csv_ins_def csv_items_snoc csv_items_single
      split: if_splits)

lemma csv_add_total:
  assumes "csv_item item" "length csv < n" "n \<le> 512"
    "item \<in> set (csv_items csv) \<or> (if csv = [] then 0 else length csv + 1) + length item < n"
  shows "\<exists>csv'. csv_add n csv item = Some csv'"
  using assms by (auto simp: csv_add_def csv_contains_iff csv_item_def split: if_splits)

lemma length_csv_add: "csv_add n csv item = Some csv' \<Longrightarrow>
    length csv' \<le> (if csv = [] then 0 else length csv + 1) + length item \<or> csv' = csv"
  by (auto simp: csv_add_def split: if_splits)

lemma foldl_csv_ins_set [simp]: "set (foldl csv_ins xs ys) = set xs \<union> set ys"
  by (induction ys arbitrary: xs) (auto simp: csv_ins_def)

lemma foldl_csv_ins_distinct: "distinct xs \<Longrightarrow> distinct (foldl csv_ins xs ys)"
  by (induction ys arbitrary: xs) (auto simp: csv_ins_def)

lemma foldl_csv_ins_id: "distinct (xs @ ys) \<Longrightarrow> foldl csv_ins xs ys = xs @ ys"
  by (induction ys arbitrary: xs) (auto simp: csv_ins_def)

text \<open>Dropping items never needs more room than the list had, so no item is lost on the way.\<close>

lemma csv_remove_loop_items:
  assumes "\<forall>tok\<in>set toks. COMMA \<notin> set tok"
    "(if result = [] then 0 else length result + 1) + (\<Sum>t\<leftarrow>toks. length t + 1) \<le> 512"
    "length result < 512"
  shows "csv_items (csv_remove_loop toks item result) =
      foldl csv_ins (csv_items result)
        (filter (\<lambda>t. t \<noteq> item) (filter (\<lambda>t. t \<noteq> []) (map trim_whitespace toks))) \<and>
    length (csv_remove_loop toks item result) < 512"
  using assms
proof (induction toks item result rule: csv_remove_loop.induct)
  case (2 tok toks item result)
  define t where "t = trim_whitespace tok"
  have len: "length t \<le> length tok" by (simp add: t_def length_trim_whitespace)
  show ?case
  proof (cases "t \<noteq> [] \<and> t \<noteq> item")
    case True
    have t: "csv_item t"
      using True "2.prems"(1) set_trim_whitespace [of tok] by (auto simp: csv_item_def t_def)
    from "2.prems"(2) len
    have room: "(if result = [] then 0 else length result + 1) + length t < 512" by simp
    obtain r where r: "csv_add 512 result t = Some r"
      using csv_add_total [OF t "2.prems"(3)] room by auto
    have "(if r = [] then 0 else length r + 1) + (\<Sum>t\<leftarrow>toks. length t + 1) \<le> 512"
      using "2.prems"(2) len length_csv_add [OF r] by (auto split: if_splits)
    moreover have "length r < 512" and items: "csv_items r = csv_ins (csv_items result) t"
      using csv_add_Some [OF r t "2.prems"(3)] by simp_all
    ultimately show ?thesis
      using "2.IH"(1) [OF t_def True, unfolded r option.case] "2.prems"(1) True r
      by (simp add: t_def [symmetric] Let_def)
  next
    case False
    with "2.IH"(2) [OF t_def False] "2.prems" show ?thesis
      by (auto simp: t_def [symmetric] Let_def)
  qed
qed simp

lemma csv_remove_items:
  assumes "length csv < 512"
  shows "csv_items (csv_remove csv item) = foldl csv_ins [] (filter (\<lambda>t. t \<noteq> item) (csv_items csv))"
    "length (csv_remove csv item) < 512"
proof -
  have "\<forall>tok\<in>set (strtok COMMA csv). COMMA \<notin> set tok" using strtok_tokens by blast
  moreover have "(\<Sum>t\<leftarrow>strtok COMMA csv. length t + 1) \<le> 512"
    using strtok_run_weight [of COMMA "[]" csv] assms by (simp add: strtok_def)
  ultimately have "csv_items (csv_remove_loop (strtok COMMA csv) item []) =
      foldl csv_ins [] (filter (\<lambda>t. t \<noteq> item) (csv_items csv)) \<and>
    length (csv_remove_loop (strtok COMMA csv) item []) < 512"
    using csv_remove_loop_items [of "strtok COMMA csv" "[]" item]
    by (simp add: csv_items_def [of csv])
  with assms show "csv_items (csv_remove csv item) = foldl csv_ins [] (filter (\<lambda>t. t \<noteq> item) (csv_items csv))"
    "length (csv_remove csv item) < 512"
    by (simp_all add: csv_remove_def string_copy_def)
qed

section \<open>Normalising\<close>

lemma csv_normalize_loop_items:
  assumes "csv_normalize_loop toks result = Some r" "length result < 512"
    "\<forall>t\<in>set (csv_items result). validate_username t"
  shows "csv_items r = foldl csv_ins (csv_items result) (filter (\<lambda>t. t \<noteq> []) (map trim_whitespace toks))"
    "length r < 512" "\<forall>t\<in>set (csv_items r). validate_username t"
proof -
  have "csv_items r = foldl csv_ins (csv_items result) (filter (\<lambda>t. t \<noteq> []) (map trim_whitespace toks)) \<and>
    length r < 512 \<and> (\<forall>t\<in>set (csv_items r). validate_username t)"
    using assms
  proof (induction toks result rule: csv_normalize_loop.induct)
    case (2 tok toks result)
    show ?case
    proof (cases "trim_whitespace tok = []")
      case True
      with 2 show ?thesis by (simp add: Let_def)
    next
      case False
      with "2.prems"(1) obtain a where a: "validate_username (trim_whitespace tok)"
        "csv_add 512 result (trim_whitespace tok) = Some a" "csv_normalize_loop toks a = Some r"
        by (auto simp: Let_def split: if_splits option.splits)
      note add = csv_add_Some [OF a(2) csv_item_name [OF a(1)] "2.prems"(2)]
      have "\<forall>t\<in>set (csv_items a). validate_username t"
        using add(1) "2.prems"(3) a(1) by (auto simp: csv_ins_def split: if_splits)
      with "2.IH"(1) [OF refl False] a add False show ?thesis by simp
    qed
  qed simp
  then show "csv_items r = foldl csv_ins (csv_items result) (filter (\<lambda>t. t \<noteq> []) (map trim_whitespace toks))"
    "length r < 512" "\<forall>t\<in>set (csv_items r). validate_username t" by simp_all
qed

lemma csv_normalize_Some:
  assumes "csv_normalize n src = Some r"
  shows "csv_items r = foldl csv_ins [] (csv_items src)" "length r < n"
    "\<forall>t\<in>set (csv_items r). validate_username t"
proof -
  have "csv_items r = foldl csv_ins [] (csv_items src) \<and> length r < n \<and>
    (\<forall>t\<in>set (csv_items r). validate_username t)"
  proof (cases "src = []")
    case True
    with assms show ?thesis by (simp add: csv_normalize_def split: if_splits)
  next
    case False
    with assms have "csv_normalize_loop (strtok COMMA src) [] = Some r" "length r < n"
      by (auto simp: csv_normalize_def split: if_splits option.splits)
    moreover have "foldl csv_ins [] (csv_items src) =
        foldl csv_ins (csv_items []) (filter (\<lambda>t. t \<noteq> []) (map trim_whitespace (strtok COMMA src)))"
      by (simp add: csv_items_def [of src])
    ultimately show ?thesis
      using csv_normalize_loop_items [of "strtok COMMA src" "[]" r] by (metis csv_items_Nil
          empty_iff list.set(1) list.size(3) zero_less_numeral)
  qed
  then show "csv_items r = foldl csv_ins [] (csv_items src)" "length r < n"
    "\<forall>t\<in>set (csv_items r). validate_username t" by simp_all
qed

text \<open>The characters of a list built by \<open>csv_add\<close> are those of its items and commas.\<close>

lemma csv_add_chars: "csv_add n csv t = Some r \<Longrightarrow> set r \<subseteq> set csv \<union> set t \<union> {COMMA}"
  by (auto simp: csv_add_def split: if_splits)

lemma csv_normalize_loop_chars:
  "csv_normalize_loop toks result = Some r \<Longrightarrow> set result \<subseteq> S \<Longrightarrow> COMMA \<in> S \<Longrightarrow>
   (\<And>c. name_char c \<Longrightarrow> c \<in> S) \<Longrightarrow> set r \<subseteq> S"
proof (induction toks result rule: csv_normalize_loop.induct)
  case (2 tok toks result)
  show ?case
  proof (cases "trim_whitespace tok = []")
    case True
    with 2 show ?thesis by (simp add: Let_def)
  next
    case False
    with "2.prems"(1) obtain a where a: "validate_username (trim_whitespace tok)"
      "csv_add 512 result (trim_whitespace tok) = Some a" "csv_normalize_loop toks a = Some r"
      by (auto simp: Let_def split: if_splits option.splits)
    have "set a \<subseteq> S"
      using csv_add_chars [OF a(2)] a(1) "2.prems" by (auto simp: validate_username_iff)
    with "2.IH"(1) [OF refl False] a "2.prems" show ?thesis by simp
  qed
qed simp

lemma csv_normalize_chars:
  "csv_normalize n src = Some r \<Longrightarrow> c \<in> set r \<Longrightarrow> name_char c \<or> c = COMMA"
  using csv_normalize_loop_chars [of "strtok COMMA src" "[]" r "{c. name_char c \<or> c = COMMA}"]
  by (auto simp: csv_normalize_def split: if_splits option.splits)

section \<open>The contract of the group lists\<close>

text \<open>A finite set of bounded capacity: insertion may fail, membership and deletion do not.\<close>

locale bounded_set =
  fixes ins :: "'s \<Rightarrow> 'a \<Rightarrow> 's option"
    and del :: "'s \<Rightarrow> 'a \<Rightarrow> 's"
    and isin :: "'s \<Rightarrow> 'a \<Rightarrow> bool"
    and abs :: "'s \<Rightarrow> 'a set"
    and invar :: "'s \<Rightarrow> bool"
    and elem :: "'a \<Rightarrow> bool"
  assumes isin_abs: "invar s \<Longrightarrow> isin s x \<longleftrightarrow> x \<in> abs s"
    and ins_abs: "invar s \<Longrightarrow> elem x \<Longrightarrow> ins s x = Some t \<Longrightarrow> abs t = insert x (abs s)"
    and ins_invar: "invar s \<Longrightarrow> elem x \<Longrightarrow> ins s x = Some t \<Longrightarrow> invar t"
    and ins_present: "invar s \<Longrightarrow> elem x \<Longrightarrow> x \<in> abs s \<Longrightarrow> ins s x = Some s"
    and del_abs: "invar s \<Longrightarrow> abs (del s x) = abs s - {x}"
    and del_invar: "invar s \<Longrightarrow> invar (del s x)"
begin

lemma isin_ins: "invar s \<Longrightarrow> elem x \<Longrightarrow> ins s x = Some t \<Longrightarrow> isin t y \<longleftrightarrow> isin s y \<or> y = x"
  using isin_abs ins_abs ins_invar by auto

lemma isin_del: "invar s \<Longrightarrow> isin (del s x) y \<longleftrightarrow> isin s y \<and> y \<noteq> x"
  using isin_abs del_abs del_invar by auto

text \<open>Adding the elements of a list one after the other, keeping the old value on a failure.\<close>

definition try_ins :: "'s \<Rightarrow> 'a \<Rightarrow> 's" where
  "try_ins s x = (case ins s x of None \<Rightarrow> s | Some t \<Rightarrow> t)"

lemma foldl_try_ins:
  assumes "invar s" "\<forall>x\<in>set xs. elem x"
  shows "invar (foldl try_ins s xs) \<and> abs s \<subseteq> abs (foldl try_ins s xs) \<and>
    abs (foldl try_ins s xs) \<subseteq> abs s \<union> set xs"
  using assms
proof (induction xs arbitrary: s)
  case (Cons x xs)
  have step: "invar (try_ins s x) \<and> abs s \<subseteq> abs (try_ins s x) \<and> abs (try_ins s x) \<subseteq> insert x (abs s)"
    using Cons.prems ins_abs ins_invar by (auto simp: try_ins_def split: option.split)
  have "\<forall>x\<in>set xs. elem x" using Cons.prems by simp
  from Cons.IH [OF conjunct1 [OF step] this] step show ?case
    by (simp del: Un_iff, blast)
qed simp

end

definition csv_inv :: "string \<Rightarrow> bool" where
  "csv_inv csv \<longleftrightarrow> length csv < 512"

interpretation csv: bounded_set "csv_add 512" csv_remove csv_contains "set \<circ> csv_items" csv_inv csv_item
proof
  fix s t x
  assume s: "csv_inv s"
  then have len: "length s < 512" by (simp add: csv_inv_def)
  show "csv_contains s x \<longleftrightarrow> x \<in> (set \<circ> csv_items) s"
    using len by (simp add: csv_contains_iff)
  show "csv_inv (csv_remove s x)" "(set \<circ> csv_items) (csv_remove s x) = (set \<circ> csv_items) s - {x}"
    using csv_remove_items [OF len, of x] by (auto simp: csv_inv_def)
  assume x: "csv_item x"
  show "csv_add 512 s x = Some s" if "x \<in> (set \<circ> csv_items) s"
    using that len x by (auto simp: csv_add_def csv_contains_iff csv_item_def)
  assume "csv_add 512 s x = Some t"
  from csv_add_Some [OF this x len]
  show "(set \<circ> csv_items) t = insert x ((set \<circ> csv_items) s)" "csv_inv t"
    by (auto simp: csv_ins_def csv_inv_def)
qed

section \<open>Birth dates\<close>

text \<open>The day of the proleptic Gregorian calendar that the program means.\<close>

definition valid_date :: "int \<Rightarrow> int \<Rightarrow> int \<Rightarrow> bool" where
  "valid_date y m d \<longleftrightarrow> 1 \<le> m \<and> m \<le> 12 \<and> 1 \<le> d \<and>
     d \<le> (if m = 2 then (if is_leap_year y then 29 else 28) else if m \<in> {4, 6, 9, 11} then 30 else 31)"

definition pad2 :: "nat \<Rightarrow> string" where
  "pad2 n = [digit_char (n div 10 mod 10), digit_char (n mod 10)]"

definition iso_date :: "nat \<Rightarrow> nat \<Rightarrow> nat \<Rightarrow> string" where
  "iso_date y m d = pad2 (y div 100) @ pad2 (y mod 100) @ ''-'' @ pad2 m @ ''-'' @ pad2 d"

lemma scan_d_digits:
  assumes "ds \<noteq> []" "\<forall>c\<in>set ds. isdigit c"
  shows "scan_d (length ds) (ds @ rest) = Some (int (dec_val ds), rest)"
proof -
  obtain c t where ct: "ds = c # t" using assms(1) by (cases ds) auto
  with assms have c: "isdigit c" by simp
  have "skip_ws (ds @ rest) = ds @ rest"
    using c by (simp add: ct skip_ws_def isdigit_not_special)
  moreover have "scan_sign ds = (False, ds)"
    using c by (simp add: ct isdigit_not_special)
  moreover have "takeWhile isdigit ds = ds"
    using assms(2) by simp
  ultimately show ?thesis
    using assms(1) by (simp add: scan_d_def Let_def del: takeWhile_eq_all_conv)
qed

lemma pad2_digits: "\<forall>c\<in>set (pad2 n). isdigit c" "length (pad2 n) = 2" "pad2 n \<noteq> []"
  by (auto simp: pad2_def)

lemma dec_val_pad2: "n < 100 \<Longrightarrow> dec_val (pad2 n) = n"
  by (simp add: pad2_def dec_val_def)

lemma dec_val_pad4: "y < 10000 \<Longrightarrow> dec_val (pad2 (y div 100) @ pad2 (y mod 100)) = y"
proof -
  assume y: "y < 10000"
  define a b where "a = y div 100" and "b = y mod 100"
  have ab: "y = 100 * a + b" "b < 100" "a < 100" using y by (auto simp: a_def b_def)
  have "dec_val (pad2 a @ pad2 b) = 100 * dec_val (pad2 a) + dec_val (pad2 b)"
    by (simp add: pad2_def dec_val_def)
  with ab show ?thesis by (simp add: dec_val_pad2 a_def [symmetric] b_def [symmetric])
qed

lemma scan_date_iso:
  assumes "y < 10000" "m < 100" "d < 100"
  shows "scan_date (iso_date y m d) = Some (int y, int m, int d)"
proof -
  have 4: "scan_d 4 ((pad2 (y div 100) @ pad2 (y mod 100)) @ rest) = Some (int y, rest)" for rest
    using scan_d_digits [of "pad2 (y div 100) @ pad2 (y mod 100)" rest] assms(1)
    by (simp add: pad2_digits dec_val_pad4 ball_Un)
  have 2: "scan_d 2 (pad2 n @ rest) = Some (int n, rest)" if "n < 100" for n rest
    using scan_d_digits [of "pad2 n" rest] that by (auto simp: pad2_digits dec_val_pad2)
  show ?thesis
    using 4 [of "''-'' @ pad2 m @ ''-'' @ pad2 d"] 2 [of m "''-'' @ pad2 d"] 2 [of d "[]"] assms
    by (simp add: scan_date_def iso_date_def)
qed

lemma digit_char_inj: "a < 10 \<Longrightarrow> b < 10 \<Longrightarrow> digit_char a = digit_char b \<longleftrightarrow> a = b"
  by (metis digit_val_digit_char)

lemma iso_date_zero: "''0000-00-00'' = iso_date 0 0 0"
  by (simp add: iso_date_def pad2_def digit_char_def char_of_def bit_0)

lemma iso_date_inj:
  assumes "y < 10000" "m < 100" "d < 100" "iso_date y m d = iso_date 0 0 0"
  shows "y = 0 \<and> m = 0 \<and> d = 0"
  using scan_date_iso [OF assms(1-3)] scan_date_iso [of 0 0 0] assms(4) by simp

lemma mdays_valid_date:
  assumes "1 \<le> m" "m \<le> 12" "\<not> (m = 2 \<and> is_leap_year y)"
  shows "mdays ! nat (m - 1) = (if m = 2 then (if is_leap_year y then 29 else 28)
      else if m \<in> {4, 6, 9, 11} then 30 else 31)"
proof -
  have "m \<in> {1, 2, 3, 4, 5, 6, 7, 8, 9, 10, 11, 12}" using assms(1,2) by (simp, presburger)
  with assms(3) show ?thesis by (auto simp: mdays_def)
qed

lemma validate_birthdate_iso:
  assumes "y < 10000" "m < 100" "d < 100"
  shows "validate_birthdate (iso_date y m d) \<longleftrightarrow>
    valid_date (int y) (int m) (int d) \<or> (y = 0 \<and> m = 0 \<and> d = 0)"
proof (cases "y = 0 \<and> m = 0 \<and> d = 0")
  case True
  then show ?thesis by (simp add: validate_birthdate_def iso_date_zero [symmetric])
next
  case False
  then have "iso_date y m d \<noteq> ''0000-00-00''"
    using iso_date_inj [OF assms] iso_date_zero by metis
  moreover have "length (iso_date y m d) = 10" by (simp add: iso_date_def pad2_def)
  ultimately have v: "validate_birthdate (iso_date y m d) \<longleftrightarrow>
      (if int m < 1 \<or> int m > 12 \<or> int d < 1 then False
       else if int m = 2 \<and> is_leap_year (int y) then int d \<le> 29
       else int d \<le> mdays ! nat (int m - 1))"
    by (simp add: validate_birthdate_def scan_date_iso [OF assms])
  show ?thesis
  proof (cases "int m < 1 \<or> int m > 12 \<or> int d < 1")
    case True
    with False v show ?thesis by (auto simp: valid_date_def)
  next
    case range: False
    show ?thesis
    proof (cases "int m = 2 \<and> is_leap_year (int y)")
      case True
      with v False range show ?thesis by (auto simp: valid_date_def)
    next
      case leap: False
      with v False range mdays_valid_date [of "int m" "int y"] show ?thesis
        by (simp add: valid_date_def)
    qed
  qed
qed

end
