(* ===== verification/UA_System.thy ===== *)
theory UA_System
  imports UA_Strings
begin

text \<open>
  The operating system as \<^verbatim>\<open>tools/eclipse-useradd/eclipse-useradd.c\<close> sees it, and the functions
  of the program that call it directly: \<open>write_atomic_text_file\<close>, the locks on the three database
  files, the home directories and the console.

  The state \<open>os\<close> is threaded explicitly. Every system call that may fail asks the oracle \<open>sched\<close>
  for its outcome, so a theorem that holds for all \<open>sched\<close> covers every combination of failures
  and short writes. Files carry their content and their permission bits.
\<close>

section \<open>State\<close>

datatype sysret = Succeed | Fail | Short nat

record ufile =
  content :: string
  fmode :: nat

text \<open>The tree below a home directory.\<close>

datatype fsnode = Leaf | Dir "(string \<times> fsnode) list"

record os =
  files :: "string \<Rightarrow> ufile option"
  dirs :: "string \<Rightarrow> bool"
  homes :: "string \<Rightarrow> fsnode option"
  home_meta :: "string \<Rightarrow> (nat \<times> u32 \<times> u32) option"
  locked :: "string \<Rightarrow> bool"
  sched :: "nat \<Rightarrow> sysret"
  tick :: nat
  stdin :: string
  tty :: "string option"
  euid :: nat
  ruid :: u32
  clock :: int
  pid :: nat
  urandom :: "byte list option"
  stdin_is_tty :: bool
  calloc_ok :: "u32 \<Rightarrow> bool"

text \<open>The outcome of the next fallible call.\<close>

definition sys :: "os \<Rightarrow> sysret \<times> os" where
  "sys w = (sched w (tick w), w\<lparr>tick := Suc (tick w)\<rparr>)"

definition sys_ok :: "os \<Rightarrow> bool \<times> os" where
  "sys_ok w = (let (r, w) = sys w in (r = Succeed, w))"

abbreviation (input) PATH_MAX :: nat where "PATH_MAX \<equiv> 4096"

definition octal :: "nat \<Rightarrow> nat \<Rightarrow> nat \<Rightarrow> nat" where
  "octal a b c = 64 * a + 8 * b + c"

definition USERS_FILE :: string where "USERS_FILE = ''/etc/eclipse-users''"
definition SHADOW_FILE :: string where "SHADOW_FILE = ''/etc/eclipse-shadow''"
definition GROUPS_FILE :: string where "GROUPS_FILE = ''/etc/eclipse-groups''"

section \<open>Files\<close>

text \<open>The part of a path before its last \<open>/\<close>; \<open>None\<close> when there is no slash.\<close>

definition dirname :: "string \<Rightarrow> string option" where
  "dirname path =
     (if CHR ''/'' \<notin> set path then None
      else Some (rev (tl (dropWhile (\<lambda>c. c \<noteq> CHR ''/'') (rev path)))))"

definition ensure_parent_directory :: "string \<Rightarrow> os \<Rightarrow> bool \<times> os" where
  "ensure_parent_directory path w =
     (case string_copy PATH_MAX path of
        None \<Rightarrow> (False, w)
      | Some copy \<Rightarrow>
          (case dirname copy of
             None \<Rightarrow> (True, w)
           | Some dir \<Rightarrow>
               if dir = [] then (True, w)
               else if dirs w dir then (True, w)
               else (let (ok, w) = sys_ok w
                     in if ok then (True, w\<lparr>dirs := (dirs w)(dir := True)\<rparr>) else (False, w))))"

text \<open>\<open>unlink\<close> is called for cleaning up and its own failure is ignored.\<close>

definition unlink :: "string \<Rightarrow> os \<Rightarrow> os" where
  "unlink path w =
     (let (ok, w) = sys_ok w in if ok then w\<lparr>files := (files w)(path := None)\<rparr> else w)"

definition set_content :: "string \<Rightarrow> string \<Rightarrow> os \<Rightarrow> os" where
  "set_content path s w =
     w\<lparr>files := (files w)(path := map_option (\<lambda>f. f\<lparr>content := s\<rparr>) (files w path))\<rparr>"

definition set_mode :: "string \<Rightarrow> nat \<Rightarrow> os \<Rightarrow> os" where
  "set_mode path m w =
     w\<lparr>files := (files w)(path := map_option (\<lambda>f. f\<lparr>fmode := m\<rparr>) (files w path))\<rparr>"

text \<open>\<open>open(path, O_WRONLY | O_CREAT | O_TRUNC, mode)\<close>: an existing file keeps its mode.\<close>

definition open_trunc :: "string \<Rightarrow> nat \<Rightarrow> os \<Rightarrow> bool \<times> os" where
  "open_trunc path m w =
     (let (ok, w) = sys_ok w
      in if ok
         then (True, w\<lparr>files := (files w)(path := Some (case files w path of
                  None \<Rightarrow> \<lparr>content = [], fmode = m\<rparr> | Some f \<Rightarrow> f\<lparr>content := []\<rparr>))\<rparr>)
         else (False, w))"

text \<open>\<open>write(fd, content, len)\<close>: a short write leaves a prefix in the file.\<close>

definition sys_write :: "string \<Rightarrow> string \<Rightarrow> os \<Rightarrow> bool \<times> os" where
  "sys_write path s w =
     (let (r, w) = sys w
      in case r of
           Succeed \<Rightarrow> (True, set_content path s w)
         | Fail \<Rightarrow> (False, w)
         | Short k \<Rightarrow> (length s \<le> k, set_content path (take k s) w))"

definition sys_rename :: "string \<Rightarrow> string \<Rightarrow> os \<Rightarrow> bool \<times> os" where
  "sys_rename from_path to_path w =
     (let (ok, w) = sys_ok w
      in if ok then (True, w\<lparr>files := (files w)(to_path := files w from_path, from_path := None)\<rparr>)
         else (False, w))"

definition tmp_path :: "string \<Rightarrow> os \<Rightarrow> string" where
  "tmp_path path w = path @ ''.tmp.'' @ show_nat (pid w)"

definition write_atomic_text_file :: "string \<Rightarrow> string \<Rightarrow> nat \<Rightarrow> os \<Rightarrow> bool \<times> os" where
  "write_atomic_text_file path cont m w =
     (let tmp = tmp_path path w
      in if length tmp \<ge> PATH_MAX then (False, w)
         else let (ok, w) = ensure_parent_directory path w
         in if \<not> ok then (False, w)
         else let (ok, w) = open_trunc tmp m w
         in if \<not> ok then (False, w)
         else let (ok, w) = sys_ok w
         in if \<not> ok then (False, unlink tmp w)
         else let w = set_mode tmp m w; (ok, w) = sys_write tmp cont w
         in if \<not> ok then (False, unlink tmp w)
         else let (ok, w) = sys_ok w
         in if \<not> ok then (False, unlink tmp w)
         else let (ok, w) = sys_ok w
         in if \<not> ok then (False, unlink tmp w)
         else let (ok, w) = sys_rename tmp path w
         in if \<not> ok then (False, unlink tmp w)
         else (True, w))"

section \<open>Locks\<close>

text \<open>A descriptor is the path it was opened for; \<open>None\<close> is \<open>-1\<close>.\<close>

record db_locks =
  users_fd :: "string option"
  shadow_fd :: "string option"
  groups_fd :: "string option"

definition open_and_lock_file :: "string \<Rightarrow> nat \<Rightarrow> os \<Rightarrow> string option \<times> os" where
  "open_and_lock_file path m w =
     (let (ok, w) = ensure_parent_directory path w
      in if \<not> ok then (None, w)
         else let (ok, w) = sys_ok w
         in if \<not> ok then (None, w)
         else let w = (case files w path of
                         None \<Rightarrow> w\<lparr>files := (files w)(path := Some \<lparr>content = [], fmode = m\<rparr>)\<rparr>
                       | Some f \<Rightarrow> w);
                  (ok, w) = sys_ok w
         in if \<not> ok then (None, w)
         else (Some path, w\<lparr>locked := (locked w)(path := True)\<rparr>))"

definition release :: "string option \<Rightarrow> os \<Rightarrow> os" where
  "release fd w = (case fd of None \<Rightarrow> w | Some path \<Rightarrow> w\<lparr>locked := (locked w)(path := False)\<rparr>)"

definition unlock_db_files :: "db_locks \<Rightarrow> os \<Rightarrow> os" where
  "unlock_db_files locks w =
     release (users_fd locks) (release (shadow_fd locks) (release (groups_fd locks) w))"

definition lock_db_files :: "os \<Rightarrow> db_locks option \<times> os" where
  "lock_db_files w =
     (let locks = \<lparr>users_fd = None, shadow_fd = None, groups_fd = None\<rparr>;
          (fd, w) = open_and_lock_file USERS_FILE (octal 6 0 0) w;
          locks = locks\<lparr>users_fd := fd\<rparr>
      in if fd = None then (None, w)
         else let (fd, w) = open_and_lock_file SHADOW_FILE (octal 4 0 0) w;
                  locks = locks\<lparr>shadow_fd := fd\<rparr>
         in if fd = None then (None, unlock_db_files locks w)
         else let (fd, w) = open_and_lock_file GROUPS_FILE (octal 6 4 4) w;
                  locks = locks\<lparr>groups_fd := fd\<rparr>
         in if fd = None then (None, unlock_db_files locks w)
         else (Some locks, w))"

section \<open>Home directories\<close>

definition create_home_directory :: "string \<Rightarrow> u32 \<Rightarrow> u32 \<Rightarrow> os \<Rightarrow> bool \<times> os" where
  "create_home_directory path uid gid w =
     (let (ok, w) = (case homes w path of
                       Some t \<Rightarrow> (True, w)
                     | None \<Rightarrow> (let (ok, w) = sys_ok w
                               in if ok then (True, w\<lparr>homes := (homes w)(path := Some (Dir [])),
                                                      home_meta := (home_meta w)(path := Some (octal 7 0 0, 0, 0))\<rparr>)
                                  else (False, w)))
      in if \<not> ok then (False, w)
         else let (ok, w) = sys_ok w
         in if \<not> ok then (False, w)
         else let w = w\<lparr>home_meta := (home_meta w)(path := map_option (\<lambda>(m, o'). (octal 7 0 0, o')) (home_meta w path))\<rparr>;
                  (ok, w) = sys_ok w
         in if \<not> ok then (False, w)
         else (True, w\<lparr>home_meta := (home_meta w)(path := map_option (\<lambda>(m, o'). (m, uid, gid)) (home_meta w path))\<rparr>))"

text \<open>
  \<open>delete_node path t w\<close> is \<open>recursive_delete_path(path)\<close> where \<open>t\<close> is the node at \<open>path\<close>: the
  result says whether it returned zero, and what is left of the node. \<open>delete_entries\<close> is the
  \<open>readdir\<close> loop, in the order of the entries; it stops at the first entry that fails.
\<close>

fun delete_node :: "string \<Rightarrow> fsnode \<Rightarrow> os \<Rightarrow> bool \<times> fsnode option \<times> os"
and delete_entries :: "string \<Rightarrow> (string \<times> fsnode) list \<Rightarrow> os \<Rightarrow> bool \<times> (string \<times> fsnode) list \<times> os" where
  "delete_node path Leaf w =
     (let (ok, w) = sys_ok w
      in if \<not> ok then (False, Some Leaf, w)
         else let (ok, w) = sys_ok w in if ok then (True, None, w) else (False, Some Leaf, w))"
| "delete_node path (Dir es) w =
     (let (ok, w) = sys_ok w
      in if \<not> ok then (False, Some (Dir es), w)
         else let (ok, w) = sys_ok w
         in if \<not> ok then (False, Some (Dir es), w)
         else let (ok, es', w) = delete_entries path es w
         in if \<not> ok then (False, Some (Dir es'), w)
         else let (ok, w) = sys_ok w in if ok then (True, None, w) else (False, Some (Dir es'), w))"
| "delete_entries path [] w = (True, [], w)"
| "delete_entries path ((nm, t) # es) w =
     (let child = path @ ''/'' @ nm
      in if length child \<ge> PATH_MAX then (False, (nm, t) # es, w)
         else let (ok, t', w) = delete_node child t w
         in case t' of
              None \<Rightarrow> (let (ok2, es', w) = delete_entries path es w in (ok2, es', w))
            | Some u \<Rightarrow> (False, (nm, u) # es, w))"

definition recursive_delete_path :: "string \<Rightarrow> os \<Rightarrow> bool \<times> os" where
  "recursive_delete_path path w =
     (case homes w path of
        None \<Rightarrow> (let (ok, w) = sys_ok w in (False, w))
      | Some t \<Rightarrow>
          (let (ok, t', w) = delete_node path t w in (ok, w\<lparr>homes := (homes w)(path := t')\<rparr>)))"

section \<open>Console\<close>

definition prompt_input :: "nat \<Rightarrow> string option \<Rightarrow> os \<Rightarrow> string option \<times> os" where
  "prompt_input buflen default_value w =
     (if buflen = 0 then (None, w)
      else case fgets buflen (stdin w) of
             None \<Rightarrow> (None, w)
           | Some (line, rest) \<Rightarrow>
               (let w = w\<lparr>stdin := rest\<rparr>; buf = trim_whitespace (trim_newline (cstr_of line))
                in case default_value of
                     None \<Rightarrow> (Some buf, w)
                   | Some d \<Rightarrow> if buf = [] then (string_copy buflen d, w) else (Some buf, w)))"

text \<open>
  \<open>read_hidden_line\<close>: the terminal if \<open>/dev/tty\<close> opens, standard input otherwise. When the input
  is a terminal, its attributes must be read and set first; both calls may fail.
\<close>

definition tty_setup :: "bool \<Rightarrow> os \<Rightarrow> bool \<times> os" where
  "tty_setup is_tty w =
     (if \<not> is_tty then (True, w)
      else let (ok, w) = sys_ok w in if \<not> ok then (False, w) else sys_ok w)"

definition read_hidden_line :: "nat \<Rightarrow> os \<Rightarrow> string option \<times> os" where
  "read_hidden_line buflen w =
     (if buflen = 0 then (None, w)
      else let (ok, w) = tty_setup (tty w \<noteq> None \<or> stdin_is_tty w) w
      in if \<not> ok then (None, w)
         else case tty w of
                Some inp \<Rightarrow>
                  (case fgets buflen inp of
                     None \<Rightarrow> (None, w)
                   | Some (line, rest) \<Rightarrow> (Some (trim_newline (cstr_of line)), w\<lparr>tty := Some rest\<rparr>))
              | None \<Rightarrow>
                  (case fgets buflen (stdin w) of
                     None \<Rightarrow> (None, w)
                   | Some (line, rest) \<Rightarrow> (Some (trim_newline (cstr_of line)), w\<lparr>stdin := rest\<rparr>)))"

definition prompt_password_twice :: "nat \<Rightarrow> os \<Rightarrow> string option \<times> os" where
  "prompt_password_twice password_len w =
     (let (first, w) = read_hidden_line 256 w
      in case first of
           None \<Rightarrow> (None, w)
         | Some first \<Rightarrow>
             (let (second, w) = read_hidden_line 256 w
              in case second of
                   None \<Rightarrow> (None, w)
                 | Some second \<Rightarrow>
                     if first \<noteq> second then (None, w)
                     else if first = [] then (None, w)
                     else (string_copy password_len first, w)))"

section \<open>Writing is all or nothing\<close>

lemma tmp_path_neq: "tmp_path path w \<noteq> path"
  by (simp add: tmp_path_def)

lemma sys_simps [simp]:
  "files (snd (sys w)) = files w" "locked (snd (sys w)) = locked w" "homes (snd (sys w)) = homes w"
  "pid (snd (sys w)) = pid w"
  by (simp_all add: sys_def)

text \<open>The call outcomes, one case each: the lemmas below are all a program proof needs of the oracle.\<close>

lemma sys_ok_cases:
  obtains "sys_ok w = (True, w\<lparr>tick := Suc (tick w)\<rparr>)" | "sys_ok w = (False, w\<lparr>tick := Suc (tick w)\<rparr>)"
  by (cases "sched w (tick w) = Succeed") (auto simp: sys_ok_def sys_def)

text \<open>What a file operation may touch: the files, the directories and the clock of the oracle.\<close>

definition only_files :: "os \<Rightarrow> os \<Rightarrow> bool" where
  "only_files w w' \<longleftrightarrow> (\<exists>f d t. w' = w\<lparr>files := f, dirs := d, tick := t\<rparr>)"

text \<open>\<dots> and, of the files, only the one at \<open>p\<close>.\<close>

definition touches :: "string set \<Rightarrow> os \<Rightarrow> os \<Rightarrow> bool" where
  "touches P w w' \<longleftrightarrow> only_files w w' \<and> (\<forall>q. q \<notin> P \<longrightarrow> files w' q = files w q)"

lemma only_files_refl: "only_files w w"
  unfolding only_files_def
  by (intro exI [of _ "files w"] exI [of _ "dirs w"] exI [of _ "tick w"]) simp

lemma only_files_trans: "only_files a b \<Longrightarrow> only_files b c \<Longrightarrow> only_files a c"
  unfolding only_files_def by (elim exE) (simp, blast)

lemma touches_refl [intro]: "touches P w w"
  by (simp add: touches_def only_files_refl)

lemma touches_trans [trans]: "touches P a b \<Longrightarrow> touches P b c \<Longrightarrow> touches P a c"
  using only_files_trans by (auto simp: touches_def)

lemma touches_mono: "touches P a b \<Longrightarrow> P \<subseteq> Q \<Longrightarrow> touches Q a b"
  by (auto simp: touches_def)

lemma touches_tick [simp, intro]: "touches P w (w\<lparr>tick := t\<rparr>)"
  unfolding touches_def only_files_def
  by (intro conjI exI [of _ "files w"] exI [of _ "dirs w"] exI [of _ t]) simp_all

lemma touches_files [intro]: "p \<in> P \<Longrightarrow> touches P w (w\<lparr>files := (files w)(p := x)\<rparr>)"
  unfolding touches_def only_files_def
  by (intro conjI exI [of _ "(files w)(p := x)"] exI [of _ "dirs w"] exI [of _ "tick w"]) auto

lemma touches_upd: "(\<And>q. q \<notin> P \<Longrightarrow> f q = files w q) \<Longrightarrow> touches P w (w\<lparr>tick := t, files := f\<rparr>)"
  unfolding touches_def only_files_def
  by (intro conjI exI [of _ f] exI [of _ "dirs w"] exI [of _ t]) auto

lemma touches_dirs [intro]: "touches P w (w\<lparr>dirs := d\<rparr>)"
  unfolding touches_def only_files_def
  by (intro conjI exI [of _ "files w"] exI [of _ d] exI [of _ "tick w"]) simp_all

lemma sys_ok_touches: "sys_ok w = (ok, w') \<Longrightarrow> touches P w w'"
  by (auto simp: sys_ok_def sys_def)

lemma ensure_parent_touches: "ensure_parent_directory path w = (ok, w') \<Longrightarrow> touches P w w'"
  unfolding ensure_parent_directory_def
  by (auto split: option.splits if_splits prod.splits
      intro: sys_ok_touches touches_trans [OF sys_ok_touches touches_dirs])

lemma unlink_touches: "touches {path} w (unlink path w)"
proof -
  obtain ok w1 where 1: "sys_ok w = (ok, w1)" by fastforce
  have "touches {path} w1 (unlink path w)"
    using 1 by (auto simp: unlink_def)
  with sys_ok_touches [OF 1] show ?thesis by (rule touches_trans)
qed

lemma open_trunc_touches:
  assumes "open_trunc path m w = (ok, w')"
  shows "touches {path} w w'"
proof -
  obtain ok1 w1 where 1: "sys_ok w = (ok1, w1)" by fastforce
  have "touches {path} w1 w'"
    using 1 assms by (auto simp: open_trunc_def split: if_splits)
  with sys_ok_touches [OF 1] show ?thesis by (rule touches_trans)
qed

lemma set_content_touches: "touches {path} w (set_content path s w)"
  by (auto simp: set_content_def)

lemma set_mode_touches: "touches {path} w (set_mode path m w)"
  by (auto simp: set_mode_def)

lemma sys_write_touches: "sys_write path s w = (ok, w') \<Longrightarrow> touches {path} w w'"
  by (auto simp: sys_write_def sys_def split: sysret.splits
      intro: touches_trans [OF touches_tick set_content_touches])

lemma sys_rename_fail: "sys_rename a b w = (False, w') \<Longrightarrow> touches P w w'"
  using sys_ok_touches by (auto simp: sys_rename_def split: if_splits prod.splits)

text \<open>The calls of \<open>write_atomic_text_file\<close> one after the other, up to the first that fails.\<close>

lemma write_atomic_steps:
  fixes path cont m w
  defines "tmp \<equiv> tmp_path path w"
  obtains (failed) w' where "write_atomic_text_file path cont m w = (False, w')" "touches {tmp} w w'"
  | (complete) w1 w2 w3 w4 w5 w6 w7 where
    "ensure_parent_directory path w = (True, w1)" "open_trunc tmp m w1 = (True, w2)"
    "sys_ok w2 = (True, w3)" "sys_write tmp cont (set_mode tmp m w3) = (True, w4)"
    "sys_ok w4 = (True, w5)" "sys_ok w5 = (True, w6)" "sys_rename tmp path w6 = (True, w7)"
    "write_atomic_text_file path cont m w = (True, w7)"
proof -
  obtain k1 w1 where e1: "ensure_parent_directory path w = (k1, w1)" by fastforce
  obtain k2 w2 where e2: "open_trunc tmp m w1 = (k2, w2)" by fastforce
  obtain k3 w3 where e3: "sys_ok w2 = (k3, w3)" by fastforce
  obtain k4 w4 where e4: "sys_write tmp cont (set_mode tmp m w3) = (k4, w4)" by fastforce
  obtain k5 w5 where e5: "sys_ok w4 = (k5, w5)" by fastforce
  obtain k6 w6 where e6: "sys_ok w5 = (k6, w6)" by fastforce
  obtain k7 w7 where e7: "sys_rename tmp path w6 = (k7, w7)" by fastforce
  note eqs = e1 e2 e3 e4 e5 e6 e7
  have t1: "touches {tmp} w w1" by (rule ensure_parent_touches [OF e1])
  have t2: "touches {tmp} w w2" by (rule touches_trans [OF t1 open_trunc_touches [OF e2]])
  have t3: "touches {tmp} w w3" by (rule touches_trans [OF t2 sys_ok_touches [OF e3]])
  have t4: "touches {tmp} w w4"
    by (rule touches_trans [OF t3 touches_trans [OF set_mode_touches sys_write_touches [OF e4]]])
  have t5: "touches {tmp} w w5" by (rule touches_trans [OF t4 sys_ok_touches [OF e5]])
  have t6: "touches {tmp} w w6" by (rule touches_trans [OF t5 sys_ok_touches [OF e6]])
  have un: "touches {tmp} w x \<Longrightarrow> touches {tmp} w (unlink tmp x)" for x
    by (rule touches_trans [OF _ unlink_touches])
  note W = write_atomic_text_file_def [of path cont m w, folded tmp_def]
  show ?thesis
  proof (cases "length tmp < 4096 \<and> k1 \<and> k2 \<and> k3 \<and> k4 \<and> k5 \<and> k6 \<and> k7")
    case True
    with eqs show ?thesis by (intro complete [of w1 w2 w3 w4 w5 w6 w7]) (simp_all add: W)
  next
    case False
    have t7: "\<not> k7 \<Longrightarrow> touches {tmp} w w7"
      using e7 by (intro touches_trans [OF t6 sys_rename_fail]) simp
    have "\<exists>w'. write_atomic_text_file path cont m w = (False, w') \<and> touches {tmp} w w'"
      using False t1 t2 un [OF t3] un [OF t4] un [OF t5] un [OF t6] t7 un [of w7]
      by (auto simp: W eqs Let_def)
    then show ?thesis using failed by blast
  qed
qed

lemma write_atomic_fail:
  "write_atomic_text_file path cont m w = (False, w') \<Longrightarrow> touches {tmp_path path w} w w'"
  by (cases rule: write_atomic_steps [of path cont m w]) auto

lemma write_atomic_ok:
  assumes "write_atomic_text_file path cont m w = (True, w')"
  shows "files w' = (files w)(path := Some \<lparr>content = cont, fmode = m\<rparr>, tmp_path path w := None)"
    "touches {path, tmp_path path w} w w'"
proof -
  let ?tmp = "tmp_path path w"
  from assms obtain w1 w2 w3 w4 w5 w6 where s:
    "ensure_parent_directory path w = (True, w1)" "open_trunc ?tmp m w1 = (True, w2)"
    "sys_ok w2 = (True, w3)" "sys_write ?tmp cont (set_mode ?tmp m w3) = (True, w4)"
    "sys_ok w4 = (True, w5)" "sys_ok w5 = (True, w6)" "sys_rename ?tmp path w6 = (True, w')"
    by (cases rule: write_atomic_steps [of path cont m w]) auto
  have f1: "files w1 = files w"
    using ensure_parent_touches [OF s(1), of "{}"] by (auto simp: touches_def)
  obtain f where f2: "files w2 = (files w1)(?tmp := Some f)"
    using s(2) by (auto simp: open_trunc_def sys_ok_def sys_def split: if_splits)
  have f3: "files (set_mode ?tmp m w3) = (files w1)(?tmp := Some (f\<lparr>fmode := m\<rparr>))"
    using s(3) f2 by (auto simp: set_mode_def sys_ok_def sys_def)
  have f4: "files w4 = (files w1)(?tmp := Some \<lparr>content = cont, fmode = m\<rparr>)"
    using s(4) f3 by (cases f) (auto simp: sys_write_def sys_def set_content_def Let_def split: sysret.splits)
  have f6: "files w6 = files w4" using s(5,6) by (auto simp: sys_ok_def sys_def)
  show "files w' = (files w)(path := Some \<lparr>content = cont, fmode = m\<rparr>, ?tmp := None)"
    using s(7) f6 f4 f1 tmp_path_neq [of path w]
    by (auto simp: sys_rename_def sys_ok_def sys_def fun_eq_iff split: if_splits)
  have "touches {path, ?tmp} w w6"
    using ensure_parent_touches [OF s(1)] open_trunc_touches [OF s(2)] sys_ok_touches [OF s(3)]
      set_mode_touches [of ?tmp w3 m] sys_write_touches [OF s(4)] sys_ok_touches [OF s(5)] sys_ok_touches [OF s(6)]
    by (meson insert_subset subset_insertI touches_mono touches_trans)
  moreover have "touches {path, ?tmp} w6 w'"
    using s(7) by (auto simp: sys_rename_def sys_ok_def sys_def split: if_splits intro!: touches_upd)
  ultimately show "touches {path, ?tmp} w w'" by (rule touches_trans)
qed

section \<open>Locks are released\<close>

lemma only_files_locked: "only_files w w' \<Longrightarrow> locked w' = locked w"
  by (auto simp: only_files_def)

lemma open_and_lock_file_locked:
  assumes "open_and_lock_file path m w = (fd, w')"
  shows "fd = None \<Longrightarrow> locked w' = locked w"
    "fd \<noteq> None \<Longrightarrow> fd = Some path \<and> locked w' = (locked w)(path := True)"
proof -
  obtain k1 w1 where e1: "ensure_parent_directory path w = (k1, w1)" by fastforce
  have "locked w1 = locked w"
    using ensure_parent_touches [OF e1, of "{}"] by (simp add: touches_def only_files_locked)
  with assms e1 show "fd = None \<Longrightarrow> locked w' = locked w"
    "fd \<noteq> None \<Longrightarrow> fd = Some path \<and> locked w' = (locked w)(path := True)"
    by (auto simp: open_and_lock_file_def sys_ok_def sys_def Let_def split: if_splits option.splits)
qed

text \<open>No lock of ours is held before: taking them fails without keeping any, or takes all three,
  and then \<open>unlock_db_files\<close> gives all three back.\<close>

definition unlocked :: "os \<Rightarrow> bool" where
  "unlocked w \<longleftrightarrow> (\<forall>p\<in>{USERS_FILE, SHADOW_FILE, GROUPS_FILE}. \<not> locked w p)"

lemma lock_db_files_locked:
  assumes "lock_db_files w = (r, w')" "unlocked w"
  shows "r = None \<Longrightarrow> unlocked w'"
    "r = Some locks \<Longrightarrow> \<forall>p\<in>{USERS_FILE, SHADOW_FILE, GROUPS_FILE}. locked w' p"
    "r = Some locks \<Longrightarrow> locks = \<lparr>users_fd = Some USERS_FILE, shadow_fd = Some SHADOW_FILE, groups_fd = Some GROUPS_FILE\<rparr>"
proof -
  obtain a wa where a: "open_and_lock_file USERS_FILE (octal 6 0 0) w = (a, wa)" by fastforce
  obtain b wb where b: "open_and_lock_file SHADOW_FILE (octal 4 0 0) wa = (b, wb)" by fastforce
  obtain c wc where c: "open_and_lock_file GROUPS_FILE (octal 6 4 4) wb = (c, wc)" by fastforce
  note L = open_and_lock_file_locked [OF a] open_and_lock_file_locked [OF b] open_and_lock_file_locked [OF c]
  show "r = None \<Longrightarrow> unlocked w'"
    "r = Some locks \<Longrightarrow> \<forall>p\<in>{USERS_FILE, SHADOW_FILE, GROUPS_FILE}. locked w' p"
    "r = Some locks \<Longrightarrow> locks = \<lparr>users_fd = Some USERS_FILE, shadow_fd = Some SHADOW_FILE, groups_fd = Some GROUPS_FILE\<rparr>"
    using assms L
    by (auto simp: lock_db_files_def a b c Let_def unlocked_def unlock_db_files_def release_def
        split: if_splits option.splits)
qed

lemma unlock_db_files_unlocked:
  "unlocked (unlock_db_files \<lparr>users_fd = Some USERS_FILE, shadow_fd = Some SHADOW_FILE, groups_fd = Some GROUPS_FILE\<rparr> w)"
  by (simp add: unlocked_def unlock_db_files_def release_def)

lemma unlock_db_files_frame [simp]:
  "files (unlock_db_files l w) = files w" "homes (unlock_db_files l w) = homes w"
  by (simp_all add: unlock_db_files_def release_def split: option.split)

section \<open>Progress\<close>

text \<open>A calm machine is one on which every call succeeds.\<close>

definition calm :: "os \<Rightarrow> bool" where "calm w \<longleftrightarrow> sched w = (\<lambda>_. Succeed)"

lemma calm_sys: "calm w \<Longrightarrow> sys_ok w = (True, w\<lparr>tick := Suc (tick w)\<rparr>)" "calm w \<Longrightarrow> sys w = (Succeed, w\<lparr>tick := Suc (tick w)\<rparr>)"
  by (simp_all add: calm_def sys_ok_def sys_def)

lemma calm_frame: "calm (w\<lparr>tick := t\<rparr>) = calm w" "calm (w\<lparr>dirs := d\<rparr>) = calm w" "calm (w\<lparr>files := f\<rparr>) = calm w" "calm (set_mode p m w) = calm w" "calm (set_content p s w) = calm w"
   "calm (w\<lparr>locked := l\<rparr>) = calm w"
  by (simp_all add: calm_def set_mode_def set_content_def)

lemma write_atomic_progress:
  assumes "calm w" "length (tmp_path path w) < 4096"
  shows "\<exists>w'. write_atomic_text_file path cont m w = (True, w') \<and> calm w' \<and> pid w' = pid w"
proof -
  have len: "length path < 4096" using assms(2) by (simp add: tmp_path_def)
  have "\<exists>w1. ensure_parent_directory path w = (True, w1) \<and> calm w1 \<and> pid w1 = pid w"
    using assms(1) len
    by (auto simp: ensure_parent_directory_def string_copy_def calm_sys calm_frame split: option.split)
  then obtain w1 where 1: "ensure_parent_directory path w = (True, w1)" "calm w1" "pid w1 = pid w" by blast
  show ?thesis
    using assms(2) 1 by (simp add: write_atomic_text_file_def Let_def open_trunc_def calm_sys calm_frame sys_write_def sys_rename_def)
       (simp add: set_mode_def set_content_def calm_def)
qed

end
