(* ===== verification/UA_Database.thy ===== *)
theory UA_Database
  imports UA_System
begin

text \<open>
  The three databases of \<^verbatim>\<open>tools/eclipse-useradd/eclipse-useradd.c\<close>: users, shadow entries and
  groups, one record per line and colon-separated. The theory has the records, the field splitter,
  loading and saving, the look-ups, and the computation of the group members.

  Two interfaces structure it. \<open>line_codec\<close> is what a file format promises (a printed record is one
  line, and parsing gives the record back); the round trip of whole files is proved from it once and
  interpreted on the three formats. \<open>keyed_table\<close> is what a look-up by key promises; it is
  interpreted on the four \<open>find_*\<close> functions.
\<close>

section \<open>Records\<close>

record user_entry =
  username :: string
  uid :: u32
  primary_gid :: u32
  fullname :: string
  birthdate :: string
  homedir :: string
  shell :: string
  resource_groups :: string

record shadow_entry =
  sh_username :: string
  sh_hash :: string
  last_change_days :: int
  min_days :: int
  max_days :: int
  warn_days :: int

record group_entry =
  gname :: string
  gid :: u32
  description :: string
  members :: string

abbreviation (input) MAX_USERS :: nat where "MAX_USERS \<equiv> 1024"
abbreviation (input) MAX_SHADOWS :: nat where "MAX_SHADOWS \<equiv> 1024"
abbreviation (input) MAX_GROUPS :: nat where "MAX_GROUPS \<equiv> 256"
abbreviation (input) MAX_LINE :: nat where "MAX_LINE \<equiv> 4096"

section \<open>Splitting a line\<close>

text \<open>When the line ends early, the remaining fields are filled: the first with the last field once
  more, the others with the empty string at its end.\<close>

fun pad_fields :: "nat \<Rightarrow> string \<Rightarrow> string list" where
  "pad_fields 0 start = []"
| "pad_fields (Suc n) start = start # pad_fields n []"

fun split_fields :: "nat \<Rightarrow> string \<Rightarrow> string list" where
  "split_fields 0 s = []"
| "split_fields (Suc n) s =
     (let f = takeWhile (\<lambda>c. c \<noteq> COLON) s
      in case dropWhile (\<lambda>c. c \<noteq> COLON) s of
           [] \<Rightarrow> f # pad_fields n f
         | c # rest \<Rightarrow> f # split_fields n rest)"

definition split_fields_preserve_empty :: "string \<Rightarrow> nat \<Rightarrow> string list" where
  "split_fields_preserve_empty line expected = split_fields expected line"

section \<open>Loading\<close>

text \<open>The loop shared by the three loaders: \<open>dec\<close> parses one line, \<open>mx\<close> is the size of the array.\<close>

fun load_lines :: "nat \<Rightarrow> (string \<Rightarrow> 'a option) \<Rightarrow> string list \<Rightarrow> 'a list \<Rightarrow> 'a list option" where
  "load_lines mx dec [] used = Some used"
| "load_lines mx dec (l # ls) used =
     (let line = trim_newline l
      in if line = [] \<or> hd line = CHR ''#'' then load_lines mx dec ls used
         else if length used \<ge> mx then None
         else case dec line of
                None \<Rightarrow> None
              | Some r \<Rightarrow> load_lines mx dec ls (used @ [r]))"

definition parse_user :: "string \<Rightarrow> user_entry option" where
  "parse_user line =
     (let fields = split_fields_preserve_empty line 8
      in if length fields \<noteq> 8 then None
         else case (string_copy (MAX_USERNAME + 1) (fields ! 0), string_copy (MAX_FULLNAME + 1) (fields ! 3),
                    string_copy (MAX_BIRTHDATE + 1) (fields ! 4), string_copy MAX_HOME (fields ! 5),
                    string_copy MAX_SHELL (fields ! 6), string_copy MAX_GROUP_CSV (fields ! 7)) of
                (Some a, Some b, Some c, Some d, Some e, Some f) \<Rightarrow>
                  Some \<lparr>username = a, uid = ucast (strtoul (fields ! 1)),
                        primary_gid = ucast (strtoul (fields ! 2)), fullname = b, birthdate = c,
                        homedir = d, shell = e, resource_groups = f\<rparr>
              | _ \<Rightarrow> None)"

definition parse_shadow :: "string \<Rightarrow> shadow_entry option" where
  "parse_shadow line =
     (let fields = split_fields_preserve_empty line 6
      in if length fields \<noteq> 6 then None
         else case (string_copy (MAX_USERNAME + 1) (fields ! 0), string_copy MAX_HASH (fields ! 1)) of
                (Some a, Some b) \<Rightarrow>
                  Some \<lparr>sh_username = a, sh_hash = b, last_change_days = strtol (fields ! 2),
                        min_days = strtol (fields ! 3), max_days = strtol (fields ! 4),
                        warn_days = strtol (fields ! 5)\<rparr>
              | _ \<Rightarrow> None)"

definition parse_group :: "string \<Rightarrow> group_entry option" where
  "parse_group line =
     (let fields = split_fields_preserve_empty line 4
      in if length fields < 3 then None
         else case (string_copy (MAX_USERNAME + 1) (fields ! 0), string_copy 160 (fields ! 2),
                    string_copy MAX_GROUP_CSV (fields ! 3)) of
                (Some a, Some b, Some c) \<Rightarrow>
                  Some \<lparr>gname = a, gid = ucast (strtoul (fields ! 1)), description = b, members = c\<rparr>
              | _ \<Rightarrow> None)"

text \<open>\<open>fopen(path, "r")\<close>: a missing file is an empty database, any other failure an error.\<close>

definition load_file :: "nat \<Rightarrow> (string \<Rightarrow> 'a option) \<Rightarrow> string \<Rightarrow> os \<Rightarrow> 'a list option \<times> os" where
  "load_file mx dec path w =
     (case files w path of
        None \<Rightarrow> (Some [], w)
      | Some f \<Rightarrow>
          (let (ok, w) = sys_ok w
           in if \<not> ok then (None, w)
              else (load_lines mx dec (fgets_lines MAX_LINE (content f)) [], w)))"

definition load_users :: "os \<Rightarrow> user_entry list option \<times> os" where
  "load_users w = load_file MAX_USERS parse_user USERS_FILE w"

definition load_shadows :: "os \<Rightarrow> shadow_entry list option \<times> os" where
  "load_shadows w = load_file MAX_SHADOWS parse_shadow SHADOW_FILE w"

definition load_groups :: "os \<Rightarrow> group_entry list option \<times> os" where
  "load_groups w = load_file MAX_GROUPS parse_group GROUPS_FILE w"

section \<open>Saving\<close>

definition user_line :: "user_entry \<Rightarrow> string" where
  "user_line u = username u @ '':'' @ show_nat (unat (uid u)) @ '':'' @ show_nat (unat (primary_gid u)) @
     '':'' @ fullname u @ '':'' @ birthdate u @ '':'' @ homedir u @ '':'' @ shell u @ '':'' @ resource_groups u"

definition shadow_line :: "shadow_entry \<Rightarrow> string" where
  "shadow_line s = sh_username s @ '':'' @ sh_hash s @ '':'' @ show_int (last_change_days s) @ '':'' @
     show_int (min_days s) @ '':'' @ show_int (max_days s) @ '':'' @ show_int (warn_days s)"

definition group_line :: "group_entry \<Rightarrow> string" where
  "group_line g = gname g @ '':'' @ show_nat (unat (gid g)) @ '':'' @ description g @ '':'' @ members g"

text \<open>The \<open>snprintf\<close> loop: \<open>cap\<close> is the size of \<open>buffer\<close>, its content so far has length \<open>offset\<close>.\<close>

fun fill_buffer :: "nat \<Rightarrow> ('a \<Rightarrow> string) \<Rightarrow> 'a list \<Rightarrow> string \<Rightarrow> string option" where
  "fill_buffer cap enc [] buffer = Some buffer"
| "fill_buffer cap enc (r # rs) buffer =
     (let line = enc r @ [NL]
      in if length line \<ge> cap - length buffer then None
         else fill_buffer cap enc rs (buffer @ line))"

definition save_file :: "('a \<Rightarrow> string) \<Rightarrow> string \<Rightarrow> nat \<Rightarrow> 'a list \<Rightarrow> os \<Rightarrow> bool \<times> os" where
  "save_file enc path m rs w =
     (let (ok, w) = sys_ok w
      in if \<not> ok then (False, w)
         else case fill_buffer ((length rs + 4) * 512) enc rs [] of
                None \<Rightarrow> (False, w)
              | Some buffer \<Rightarrow> write_atomic_text_file path buffer m w)"

definition save_users :: "user_entry list \<Rightarrow> os \<Rightarrow> bool \<times> os" where
  "save_users users w = save_file user_line USERS_FILE (octal 6 0 0) users w"

definition save_shadows :: "shadow_entry list \<Rightarrow> os \<Rightarrow> bool \<times> os" where
  "save_shadows shadows w = save_file shadow_line SHADOW_FILE (octal 4 0 0) shadows w"

definition save_groups :: "group_entry list \<Rightarrow> os \<Rightarrow> bool \<times> os" where
  "save_groups groups w = save_file group_line GROUPS_FILE (octal 6 4 4) groups w"

section \<open>Look-ups\<close>

fun find_first :: "('a \<Rightarrow> bool) \<Rightarrow> 'a list \<Rightarrow> nat \<Rightarrow> nat option" where
  "find_first P [] i = None"
| "find_first P (x # xs) i = (if P x then Some i else find_first P xs (Suc i))"

definition find_user_by_name :: "user_entry list \<Rightarrow> string \<Rightarrow> nat option" where
  "find_user_by_name users nm = find_first (\<lambda>u. username u = nm) users 0"

definition find_user_by_uid :: "user_entry list \<Rightarrow> u32 \<Rightarrow> nat option" where
  "find_user_by_uid users n = find_first (\<lambda>u. uid u = n) users 0"

definition find_shadow_by_name :: "shadow_entry list \<Rightarrow> string \<Rightarrow> nat option" where
  "find_shadow_by_name shadows nm = find_first (\<lambda>s. sh_username s = nm) shadows 0"

definition find_group_by_name :: "group_entry list \<Rightarrow> string \<Rightarrow> nat option" where
  "find_group_by_name groups nm = find_first (\<lambda>g. gname g = nm) groups 0"

section \<open>User ids and memberships\<close>

fun next_uid_loop :: "user_entry list \<Rightarrow> u32 \<Rightarrow> u32" where
  "next_uid_loop [] next_uid = next_uid"
| "next_uid_loop (u # us) next_uid = next_uid_loop us (if uid u \<ge> next_uid then uid u + 1 else next_uid)"

definition next_available_uid :: "user_entry list \<Rightarrow> u32" where
  "next_available_uid users = (let n = next_uid_loop users 1000 in if n < 1000 then 1000 else n)"

text \<open>\<open>(void)csv_add(groups[i].members, ...)\<close>.\<close>

definition add_member :: "group_entry list \<Rightarrow> string \<Rightarrow> string \<Rightarrow> group_entry list" where
  "add_member groups grp user =
     (case find_group_by_name groups grp of
        None \<Rightarrow> groups
      | Some i \<Rightarrow>
          (case csv_add MAX_GROUP_CSV (members (groups ! i)) user of
             None \<Rightarrow> groups
           | Some m \<Rightarrow> groups[i := (groups ! i)\<lparr>members := m\<rparr>]))"

fun member_loop :: "string list \<Rightarrow> string \<Rightarrow> group_entry list \<Rightarrow> group_entry list" where
  "member_loop [] user groups = groups"
| "member_loop (tok # toks) user groups =
     member_loop toks user (add_member groups (trim_whitespace tok) user)"

definition apply_user :: "group_entry list \<Rightarrow> user_entry \<Rightarrow> group_entry list" where
  "apply_user groups u =
     (let groups = (if username u = ''root'' then add_member groups ''root'' (username u) else groups)
      in case string_copy MAX_GROUP_CSV (resource_groups u) of
           None \<Rightarrow> groups
         | Some copy \<Rightarrow> member_loop (strtok COMMA copy) (username u) groups)"

definition apply_memberships_from_users :: "group_entry list \<Rightarrow> user_entry list \<Rightarrow> group_entry list" where
  "apply_memberships_from_users groups users =
     (let groups = map (\<lambda>g. g\<lparr>members := []\<rparr>) groups;
          groups = foldl apply_user groups users
      in add_member groups ''root'' ''root'')"

fun groups_exist_loop :: "string list \<Rightarrow> group_entry list \<Rightarrow> bool" where
  "groups_exist_loop [] groups = True"
| "groups_exist_loop (tok # toks) groups =
     (let t = trim_whitespace tok
      in if t \<noteq> [] \<and> find_group_by_name groups t = None then False else groups_exist_loop toks groups)"

definition validate_group_csv_exists :: "string \<Rightarrow> group_entry list \<Rightarrow> bool" where
  "validate_group_csv_exists csv groups =
     (if csv = [] then True
      else case string_copy MAX_GROUP_CSV csv of
             None \<Rightarrow> False
           | Some copy \<Rightarrow> groups_exist_loop (strtok COMMA copy) groups)"

section \<open>The file round trip\<close>

text \<open>What a record format promises: a record prints as one non-empty line that is no comment, and
  parsing the line gives the record back.\<close>

locale line_codec =
  fixes enc :: "'a \<Rightarrow> string"
    and dec :: "string \<Rightarrow> 'a option"
    and ok :: "'a \<Rightarrow> bool"
  assumes dec_enc: "ok r \<Longrightarrow> dec (enc r) = Some r"
    and enc_chars: "ok r \<Longrightarrow> NL \<notin> set (enc r) \<and> CR \<notin> set (enc r) \<and> NUL \<notin> set (enc r)"
    and enc_start: "ok r \<Longrightarrow> enc r \<noteq> [] \<and> hd (enc r) \<noteq> CHR ''#''"
    and enc_short: "ok r \<Longrightarrow> length (enc r) < 4095"
begin

lemma load_printed:
  "\<forall>r\<in>set rs. ok r \<Longrightarrow> length used + length rs \<le> mx \<Longrightarrow>
   load_lines mx dec (fgets_lines 4096 (concat (map (\<lambda>r. enc r @ [NL]) rs))) used = Some (used @ rs)"
proof (induction rs arbitrary: used)
  case (Cons r rs)
  then have r: "ok r" by simp
  have line: "fgets_lines 4096 (enc r @ NL # rest) = (enc r @ [NL]) # fgets_lines 4096 rest" for rest
    using enc_chars [OF r] enc_short [OF r] by (intro fgets_lines_line) auto
  have trim: "trim_newline (enc r @ [NL]) = enc r"
    using enc_chars [OF r] by (intro trim_newline_line) auto
  have "load_lines mx dec (fgets_lines 4096 (concat (map (\<lambda>r. enc r @ [NL]) (r # rs)))) used =
    load_lines mx dec (fgets_lines 4096 (concat (map (\<lambda>r. enc r @ [NL]) rs))) (used @ [r])"
    using enc_start [OF r] dec_enc [OF r] Cons.prems(2) by (simp add: line trim Let_def)
  also have "\<dots> = Some ((used @ [r]) @ rs)"
    using Cons.prems by (intro Cons.IH) auto
  finally show ?case by simp
qed simp

lemma fill_buffer_Some:
  "fill_buffer cap enc rs b = Some c \<Longrightarrow> c = b @ concat (map (\<lambda>r. enc r @ [NL]) rs)"
  by (induction cap enc rs b rule: fill_buffer.induct) (auto simp: Let_def split: if_splits)

lemma save_file_ok:
  assumes "save_file enc path m rs w = (True, w')"
  shows "files w' path = Some \<lparr>content = concat (map (\<lambda>r. enc r @ [NL]) rs), fmode = m\<rparr>"
    "touches {path, tmp_path path w} w w'"
proof -
  from assms obtain w1 b where 1: "sys_ok w = (True, w1)" and b: "fill_buffer ((length rs + 4) * 512) enc rs [] = Some b"
    and wr: "write_atomic_text_file path b m w1 = (True, w')"
    by (auto simp: save_file_def split: prod.splits if_splits option.splits)
  have tmp: "tmp_path path w1 = tmp_path path w"
    using 1 by (auto simp: sys_ok_def sys_def tmp_path_def)
  show "files w' path = Some \<lparr>content = concat (map (\<lambda>r. enc r @ [NL]) rs), fmode = m\<rparr>"
    using write_atomic_ok(1) [OF wr] fill_buffer_Some [OF b] tmp_path_neq [of path w1] by simp
  show "touches {path, tmp_path path w} w w'"
    using touches_trans [OF sys_ok_touches [OF 1] write_atomic_ok(2) [OF wr]] tmp by simp
qed

lemma save_load:
  assumes "\<forall>r\<in>set rs. ok r" "length rs \<le> mx" "save_file enc path m rs w = (True, w')" "fst (sys_ok w')"
  shows "fst (load_file mx dec path w') = Some rs"
  using save_file_ok(1) [OF assms(3)] load_printed [OF assms(1), of "[]" mx] assms(2,4)
  by (cases "sys_ok w'") (simp add: load_file_def)

end

lemma save_file_fail:
  assumes "save_file enc path m rs w = (False, w')"
  shows "touches {tmp_path path w} w w'"
proof -
  obtain k w1 where 1: "sys_ok w = (k, w1)" by fastforce
  have tmp: "tmp_path path w1 = tmp_path path w"
    using 1 by (auto simp: sys_ok_def sys_def tmp_path_def)
  have "touches {tmp_path path w} w1 w'"
    using assms write_atomic_fail [of path _ m w1 w']
    by (auto simp: save_file_def 1 tmp split: if_splits option.splits)
  with sys_ok_touches [OF 1] show ?thesis by (rule touches_trans)
qed

text \<open>Records whose lines are shorter than 512 bytes always fit the buffer, so saving them succeeds on
  a calm machine.\<close>

lemma fill_buffer_fits:
  "length b + length rs * 512 < cap \<Longrightarrow> \<forall>r\<in>set rs. length (enc r) < 512 \<Longrightarrow> \<exists>c. fill_buffer cap enc rs b = Some c"
  by (induction cap enc rs b rule: fill_buffer.induct) (auto simp: Let_def)

lemma save_file_progress:
  assumes "calm w" "length (tmp_path path w) < 4096" "\<forall>r\<in>set rs. length (enc r) < 512"
  shows "\<exists>w'. save_file enc path m rs w = (True, w') \<and> calm w' \<and> pid w' = pid w"
proof -
  obtain b where "fill_buffer ((length rs + 4) * 512) enc rs [] = Some b"
    using fill_buffer_fits [of "[]" rs "(length rs + 4) * 512" enc] assms(3) by auto
  then show ?thesis
    using assms(1,2) write_atomic_progress [of "w\<lparr>tick := Suc (tick w)\<rparr>" path b m]
    by (simp add: save_file_def calm_sys calm_frame tmp_path_def)
qed

subsection \<open>The three formats\<close>

lemma split_fields_Cons: "COLON \<notin> set f \<Longrightarrow> split_fields (Suc n) (f @ COLON # rest) = f # split_fields n rest"
  by (simp add: Let_def takeWhile_sep dropWhile_sep)

lemma split_fields_last: "COLON \<notin> set f \<Longrightarrow> split_fields (Suc 0) f = [f]"
  by (simp add: Let_def takeWhile_no_sep dropWhile_no_sep)

text \<open>A field that may be stored: no separator, no line end, no terminator.\<close>

definition clean :: "string \<Rightarrow> bool" where
  "clean s \<longleftrightarrow> COLON \<notin> set s \<and> NL \<notin> set s \<and> CR \<notin> set s \<and> NUL \<notin> set s"

lemma clean_show_nat [simp]: "clean (show_nat n)"
  using show_nat_digits isdigit_not_special by (fastforce simp: clean_def)

lemma clean_show_int [simp]: "clean (show_int i)"
proof -
  have "c \<noteq> COLON \<and> c \<noteq> NL \<and> c \<noteq> CR \<and> c \<noteq> NUL" if "c \<in> set (show_int i)" for c
    using show_int_chars [OF that] isdigit_not_special [of c] by auto
  then show ?thesis by (auto simp: clean_def)
qed

definition user_ok :: "user_entry \<Rightarrow> bool" where
  "user_ok u \<longleftrightarrow> username u \<noteq> [] \<and> hd (username u) \<noteq> CHR ''#'' \<and>
     clean (username u) \<and> clean (fullname u) \<and> clean (birthdate u) \<and> clean (homedir u) \<and> clean (shell u) \<and>
     clean (resource_groups u) \<and>
     length (username u) \<le> 32 \<and> length (fullname u) \<le> 64 \<and> length (birthdate u) \<le> 10 \<and>
     length (homedir u) < 256 \<and> length (shell u) < 128 \<and> length (resource_groups u) < 512"

definition shadow_ok :: "shadow_entry \<Rightarrow> bool" where
  "shadow_ok s \<longleftrightarrow> sh_username s \<noteq> [] \<and> hd (sh_username s) \<noteq> CHR ''#'' \<and>
     clean (sh_username s) \<and> clean (sh_hash s) \<and> length (sh_username s) \<le> 32 \<and> length (sh_hash s) < 256 \<and>
     (\<forall>d\<in>{last_change_days s, min_days s, max_days s, warn_days s}. - (2 ^ 63) \<le> d \<and> d < 2 ^ 63)"

definition group_ok :: "group_entry \<Rightarrow> bool" where
  "group_ok g \<longleftrightarrow> gname g \<noteq> [] \<and> hd (gname g) \<noteq> CHR ''#'' \<and> clean (gname g) \<and> clean (description g) \<and>
     clean (members g) \<and> length (gname g) \<le> 32 \<and> length (description g) < 160 \<and> length (members g) < 512"

lemma show_u32_length: "length (show_nat (unat (w :: u32))) \<le> 10"
  using unsigned_less [of w, where ?'a = nat] by (intro show_nat_length) auto

lemma strtoul_u32: "ucast (strtoul (show_nat (unat w))) = (w :: u32)"
proof -
  have "unat w < 2 ^ 64" using unsigned_less [of w, where ?'a = nat] by (rule less_le_trans) simp
  then show ?thesis by (simp add: strtoul_show_nat)
qed

lemma show_int_length:
  assumes "- (2 ^ 63) \<le> i" "i < 2 ^ 63"
  shows "length (show_int i) \<le> 20"
proof -
  have "nat (- i) < 10 ^ 19" "nat i < 10 ^ 19" using assms by auto
  then have "length (show_nat (nat (- i))) \<le> 19" "length (show_nat (nat i)) \<le> 19"
    by (auto intro!: show_nat_length)
  then show ?thesis by (auto simp: show_int_def)
qed

interpretation users: line_codec user_line parse_user user_ok
proof
  fix u assume u: "user_ok u"
  have "split_fields 8 (user_line u) = [username u, show_nat (unat (uid u)), show_nat (unat (primary_gid u)),
      fullname u, birthdate u, homedir u, shell u, resource_groups u]"
    using u clean_show_nat [of "unat (uid u)"] clean_show_nat [of "unat (primary_gid u)"]
    by (simp add: user_line_def user_ok_def clean_def eval_nat_numeral split_fields_Cons split_fields_last
        del: split_fields.simps clean_show_nat)
  with u show "parse_user (user_line u) = Some u"
    by (simp add: parse_user_def split_fields_preserve_empty_def user_ok_def string_copy_def strtoul_u32)
  show "NL \<notin> set (user_line u) \<and> CR \<notin> set (user_line u) \<and> NUL \<notin> set (user_line u)"
    using u clean_show_nat [of "unat (uid u)"] clean_show_nat [of "unat (primary_gid u)"]
    by (simp add: user_line_def user_ok_def clean_def del: clean_show_nat)
  show "user_line u \<noteq> [] \<and> hd (user_line u) \<noteq> CHR ''#''"
    using u by (simp add: user_line_def user_ok_def)
  show "length (user_line u) < 4095"
    using u show_u32_length [of "uid u"] show_u32_length [of "primary_gid u"]
    by (simp add: user_line_def user_ok_def)
qed

interpretation shadows: line_codec shadow_line parse_shadow shadow_ok
proof
  fix s assume s: "shadow_ok s"
  note cl = clean_show_int [of "last_change_days s"] clean_show_int [of "min_days s"]
    clean_show_int [of "max_days s"] clean_show_int [of "warn_days s"]
  have "split_fields 6 (shadow_line s) = [sh_username s, sh_hash s, show_int (last_change_days s),
      show_int (min_days s), show_int (max_days s), show_int (warn_days s)]"
    using s cl
    by (simp add: shadow_line_def shadow_ok_def clean_def eval_nat_numeral split_fields_Cons split_fields_last
        del: split_fields.simps clean_show_int)
  with s show "parse_shadow (shadow_line s) = Some s"
    by (simp add: parse_shadow_def split_fields_preserve_empty_def shadow_ok_def string_copy_def strtol_show_int)
  show "NL \<notin> set (shadow_line s) \<and> CR \<notin> set (shadow_line s) \<and> NUL \<notin> set (shadow_line s)"
    using s cl by (simp add: shadow_line_def shadow_ok_def clean_def del: clean_show_int)
  show "shadow_line s \<noteq> [] \<and> hd (shadow_line s) \<noteq> CHR ''#''"
    using s by (simp add: shadow_line_def shadow_ok_def)
  show "length (shadow_line s) < 4095"
    using s show_int_length [of "last_change_days s"] show_int_length [of "min_days s"]
      show_int_length [of "max_days s"] show_int_length [of "warn_days s"]
    by (simp add: shadow_line_def shadow_ok_def)
qed

interpretation groups: line_codec group_line parse_group group_ok
proof
  fix g assume g: "group_ok g"
  note cl = clean_show_nat [of "unat (gid g)"]
  have "split_fields 4 (group_line g) = [gname g, show_nat (unat (gid g)), description g, members g]"
    using g cl
    by (simp add: group_line_def group_ok_def clean_def eval_nat_numeral split_fields_Cons split_fields_last
        del: split_fields.simps clean_show_nat)
  with g show "parse_group (group_line g) = Some g"
    by (simp add: parse_group_def split_fields_preserve_empty_def group_ok_def string_copy_def strtoul_u32)
  show "NL \<notin> set (group_line g) \<and> CR \<notin> set (group_line g) \<and> NUL \<notin> set (group_line g)"
    using g cl by (simp add: group_line_def group_ok_def clean_def del: clean_show_nat)
  show "group_line g \<noteq> [] \<and> hd (group_line g) \<noteq> CHR ''#''"
    using g by (simp add: group_line_def group_ok_def)
  show "length (group_line g) < 4095"
    using g show_u32_length [of "gid g"] by (simp add: group_line_def group_ok_def)
qed

section \<open>Tables with a key\<close>

text \<open>What a look-up promises: it finds an entry with the key if there is one.\<close>

locale keyed_table =
  fixes key :: "'a \<Rightarrow> 'k"
    and find_key :: "'a list \<Rightarrow> 'k \<Rightarrow> nat option"
  assumes find_Some: "find_key xs k = Some i \<Longrightarrow> i < length xs \<and> key (xs ! i) = k"
    and find_None: "find_key xs k = None \<longleftrightarrow> k \<notin> key ` set xs"
begin

lemma distinct_snoc:
  "distinct (map key xs) \<Longrightarrow> find_key xs (key x) = None \<Longrightarrow> distinct (map key (xs @ [x]))"
  by (simp add: find_None)

lemma keys_update: "find_key xs k = Some i \<Longrightarrow> key x = k \<Longrightarrow> map key (xs[i := x]) = map key xs"
  using find_Some [of xs k i] by (simp add: map_update list_update_same_conv)

lemma found_unique:
  "distinct (map key xs) \<Longrightarrow> find_key xs k = Some i \<Longrightarrow> j < length xs \<Longrightarrow> key (xs ! j) = k \<Longrightarrow> j = i"
  using find_Some [of xs k i] nth_eq_iff_index_eq [of "map key xs" i j] by simp

lemma removed_keys:
  assumes "distinct (map key xs)" "find_key xs k = Some i"
  shows "distinct (map key (take i xs @ drop (Suc i) xs))"
    "key ` set (take i xs @ drop (Suc i) xs) = key ` set xs - {k}"
    "find_key (take i xs @ drop (Suc i) xs) k = None"
proof -
  from find_Some [OF assms(2)] have i: "i < length xs" "key (xs ! i) = k" by auto
  then have xs: "xs = take i xs @ xs ! i # drop (Suc i) xs" by (simp add: id_take_nth_drop)
  have d: "distinct (map key (take i xs @ xs ! i # drop (Suc i) xs))"
    using assms(1) xs by simp
  then show "distinct (map key (take i xs @ drop (Suc i) xs))" by auto
  have "key ` set xs = insert k (key ` set (take i xs @ drop (Suc i) xs))"
    by (subst xs) (use i in auto)
  moreover have "k \<notin> key ` set (take i xs @ drop (Suc i) xs)"
    using d i(2) by (auto simp: image_iff)
  ultimately show "key ` set (take i xs @ drop (Suc i) xs) = key ` set xs - {k}"
    "find_key (take i xs @ drop (Suc i) xs) k = None"
    by (auto simp: find_None)
qed

lemma removed_filter:
  assumes "distinct (map key xs)" "find_key xs k = Some i"
  shows "take i xs @ drop (Suc i) xs = filter (\<lambda>x. key x \<noteq> k) xs"
proof -
  from find_Some [OF assms(2)] have i: "i < length xs" "key (xs ! i) = k" by auto
  have "k \<notin> key ` set (take i xs @ drop (Suc i) xs)"
    using removed_keys(2) [OF assms] by blast
  then have "filter (\<lambda>x. key x \<noteq> k) (take i xs) = take i xs"
    "filter (\<lambda>x. key x \<noteq> k) (drop (Suc i) xs) = drop (Suc i) xs"
    by (auto simp: filter_id_conv image_iff)
  then have "filter (\<lambda>x. key x \<noteq> k) (take i xs @ xs ! i # drop (Suc i) xs) = take i xs @ drop (Suc i) xs"
    using i(2) by simp
  then show ?thesis using i(1) by (simp add: id_take_nth_drop [symmetric])
qed

lemma find_same_keys:
  assumes "map key xs = map key ys" "distinct (map key xs)"
  shows "find_key xs k = find_key ys k"
proof (cases "find_key xs k")
  case None
  then have "k \<notin> key ` set ys" using assms(1) by (metis find_None list.set_map)
  with None show ?thesis by (metis find_None)
next
  case (Some i)
  from find_Some [OF Some] have i: "i < length xs" "key (xs ! i) = k" by auto
  then have "k \<in> key ` set ys" using assms(1) by (metis image_eqI list.set_map nth_mem)
  then obtain j where j: "find_key ys k = Some j" by (metis find_None not_None_eq)
  have len: "length xs = length ys" using assms(1) by (metis length_map)
  from find_Some [OF j] have "j < length ys" "key (xs ! j) = k"
    using assms(1) len by (auto, metis nth_map)
  with found_unique [OF assms(2) Some] len have "j = i" by simp
  with Some j show ?thesis by simp
qed

end

lemma find_first_Some:
  "find_first P xs i = Some j \<Longrightarrow> i \<le> j \<and> j < i + length xs \<and> P (xs ! (j - i)) \<and> (\<forall>k<j - i. \<not> P (xs ! k))"
proof (induction P xs i rule: find_first.induct)
  case (2 P x xs i)
  show ?case
  proof (cases "P x")
    case False
    with 2 have IH: "Suc i \<le> j" "j < Suc i + length xs" "P (xs ! (j - Suc i))" "\<forall>k<j - Suc i. \<not> P (xs ! k)"
      by auto
    then have s: "j - i = Suc (j - Suc i)" by simp
    have "\<not> P ((x # xs) ! k)" if "k < j - i" for k
      using that False IH(4) s by (cases k) auto
    with IH s show ?thesis by auto
  qed (use 2 in auto)
qed simp

lemma find_first_None: "find_first P xs i = None \<longleftrightarrow> (\<forall>x\<in>set xs. \<not> P x)"
  by (induction P xs i rule: find_first.induct) auto

interpretation user_names: keyed_table username find_user_by_name
  by unfold_locales (auto simp: find_user_by_name_def find_first_None dest: find_first_Some)

interpretation user_ids: keyed_table uid find_user_by_uid
  by unfold_locales (auto simp: find_user_by_uid_def find_first_None dest: find_first_Some)

interpretation shadow_names: keyed_table sh_username find_shadow_by_name
  by unfold_locales (auto simp: find_shadow_by_name_def find_first_None dest: find_first_Some)

interpretation group_names: keyed_table gname find_group_by_name
  by unfold_locales (auto simp: find_group_by_name_def find_first_None dest: find_first_Some)

text \<open>Distinct names are not needed for stability of look-ups: the first match stays the first.\<close>

lemma find_group_same_names:
  "map gname gs = map gname hs \<Longrightarrow> find_group_by_name gs n = find_group_by_name hs n"
proof -
  have "map gname gs = map gname hs \<Longrightarrow> find_first (\<lambda>g. gname g = n) gs i = find_first (\<lambda>g. gname g = n) hs i" for i
  proof (induction gs arbitrary: hs i)
    case (Cons g gs)
    then obtain h t where "hs = h # t" by (cases hs) auto
    with Cons show ?case by simp
  qed simp
  then show "map gname gs = map gname hs \<Longrightarrow> ?thesis" by (simp add: find_group_by_name_def)
qed

section \<open>Fresh user ids\<close>

lemma word_less_plus_one:
  fixes w :: "'a::len word"
  assumes "w \<noteq> - 1"
  shows "w < w + 1"
proof -
  have "1 + w \<noteq> 0" using assms by (metis add.commute add_eq_0_iff)
  then show ?thesis by (simp add: word_less_nat_alt unatSuc add.commute [of w])
qed

lemma next_uid_loop_bound:
  assumes "\<forall>u\<in>set us. uid u \<noteq> - 1" "\<forall>v\<in>set vs. uid v < n"
  shows "n \<le> next_uid_loop us n \<and> (\<forall>u\<in>set (us @ vs). uid u < next_uid_loop us n)"
  using assms
proof (induction us arbitrary: n vs)
  case (Cons u us)
  let ?n = "if uid u \<ge> n then uid u + 1 else n"
  have inc: "uid u < uid u + 1" using Cons.prems(1) by (intro word_less_plus_one) simp
  have n: "n \<le> ?n" using inc by auto
  have "\<forall>v\<in>set (u # vs). uid v < ?n"
    using Cons.prems(2) inc by (auto intro: less_trans)
  moreover have "\<forall>u\<in>set us. uid u \<noteq> - 1" using Cons.prems(1) by simp
  ultimately have "?n \<le> next_uid_loop us ?n \<and> (\<forall>x\<in>set (us @ u # vs). uid x < next_uid_loop us ?n)"
    using Cons.IH by blast
  with n show ?case by auto
qed simp

lemma next_available_uid_fresh:
  assumes "\<forall>u\<in>set users. uid u \<noteq> - 1"
  shows "next_available_uid users \<notin> uid ` set users" "next_available_uid users \<ge> 1000"
proof -
  from next_uid_loop_bound [OF assms, of "[]" 1000]
  have b: "1000 \<le> next_uid_loop users 1000" "\<forall>u\<in>set users. uid u < next_uid_loop users 1000" by simp_all
  then have e: "next_available_uid users = next_uid_loop users 1000"
    by (simp add: next_available_uid_def Let_def leD)
  show "next_available_uid users \<notin> uid ` set users" "next_available_uid users \<ge> 1000"
    using b by (auto simp: e)
qed

end
