(* ===== verification/UA_Memberships.thy ===== *)
theory UA_Memberships
  imports UA_Database
begin

text \<open>
  What \<open>apply_memberships_from_users\<close> of \<^verbatim>\<open>tools/eclipse-useradd/eclipse-useradd.c\<close> computes: the
  \<open>members\<close> field of every group, from the group lists of the users. A full list silently drops a
  name, so the result is bounded from above in general, and exact when all names fit.
\<close>

section \<open>Adding one member\<close>

abbreviation member_set :: "group_entry \<Rightarrow> string set" where
  "member_set g \<equiv> set (csv_items (members g))"

text \<open>The bytes that the names of \<open>N\<close> take in a list, and what a list that only holds such names
  guarantees of its own length.\<close>

definition weight :: "string set \<Rightarrow> nat" where
  "weight N = (\<Sum>n\<in>N. length n + 1)"

definition roomy :: "string set \<Rightarrow> string \<Rightarrow> bool" where
  "roomy N m \<longleftrightarrow> set (csv_items m) \<subseteq> N \<and> (m = [] \<or> length m + 1 \<le> weight (set (csv_items m)))"

definition groups_inv :: "bool \<Rightarrow> string set \<Rightarrow> group_entry list \<Rightarrow> bool" where
  "groups_inv fits N gs \<longleftrightarrow> (\<forall>g\<in>set gs. length (members g) < 512 \<and> (fits \<longrightarrow> roomy N (members g)))"

text \<open>\<open>grown fits A gs hs\<close>: names, ids and descriptions are kept; group \<open>i\<close> gains at most the names
  \<open>A i\<close>, and exactly these when everything fits.\<close>

definition grown :: "bool \<Rightarrow> (nat \<Rightarrow> string set) \<Rightarrow> group_entry list \<Rightarrow> group_entry list \<Rightarrow> bool" where
  "grown fits A gs hs \<longleftrightarrow>
     map (\<lambda>g. g\<lparr>members := []\<rparr>) hs = map (\<lambda>g. g\<lparr>members := []\<rparr>) gs \<and>
     (\<forall>i<length gs. member_set (gs ! i) \<union> (if fits then A i else {}) \<subseteq> member_set (hs ! i) \<and>
        member_set (hs ! i) \<subseteq> member_set (gs ! i) \<union> A i)"

lemma grown_names:
  assumes "grown fits A gs hs"
  shows "map gname hs = map gname gs" "length hs = length gs"
proof -
  have e: "map (\<lambda>g. g\<lparr>members := []\<rparr>) hs = map (\<lambda>g. g\<lparr>members := []\<rparr>) gs"
    using assms by (simp add: grown_def)
  then show "length hs = length gs" by (metis length_map)
  have "map gname (map (\<lambda>g. g\<lparr>members := []\<rparr>) hs) = map gname (map (\<lambda>g. g\<lparr>members := []\<rparr>) gs)"
    by (simp only: e)
  then show "map gname hs = map gname gs" by (simp add: comp_def)
qed

lemma grown_refl: "grown fits (\<lambda>i. {}) gs gs"
  by (simp add: grown_def)

lemma grown_trans:
  assumes 1: "grown fits A gs hs" and 2: "grown fits B hs ks"
  shows "grown fits (\<lambda>i. A i \<union> B i) gs ks"
  using assms grown_names(2) [OF 1] by (auto simp: grown_def split: if_splits) blast+

lemma weight_insert: "finite N \<Longrightarrow> n \<notin> N \<Longrightarrow> weight (insert n N) = weight N + length n + 1"
  by (simp add: weight_def)

lemma weight_mono: "finite N \<Longrightarrow> M \<subseteq> N \<Longrightarrow> weight M \<le> weight N"
  unfolding weight_def by (rule sum_mono2) auto

lemma roomy_add:
  assumes "roomy N m" "length m < 512" "csv_item u" "u \<in> N" "finite N" "weight N \<le> 512"
  shows "\<exists>m'. csv_add 512 m u = Some m' \<and> roomy N m'"
proof (cases "u \<in> set (csv_items m)")
  case True
  with assms show ?thesis
    using csv.ins_present [of m u] by (auto simp: csv_inv_def)
next
  case False
  let ?I = "set (csv_items m)"
  have I: "?I \<subseteq> N" using assms(1) by (simp add: roomy_def)
  have w: "weight (insert u ?I) = weight ?I + length u + 1"
    using False by (simp add: weight_insert)
  have "weight (insert u ?I) \<le> weight N"
    using I assms(4,5) by (intro weight_mono) auto
  with w assms(6) have le: "weight ?I + length u + 1 \<le> 512" by simp
  have len: "m = [] \<or> length m + 1 \<le> weight ?I" using assms(1) by (simp add: roomy_def)
  then have "(if m = [] then 0 else length m + 1) + length u < 512" using le by auto
  then obtain m' where m': "csv_add 512 m u = Some m'"
    using csv_add_total [OF assms(3,2)] by auto
  have items: "csv_items m' = csv_items m @ [u]"
    using csv_add_Some(1) [OF m' assms(3,2)] False by (simp add: csv_ins_def)
  have "length m' \<le> (if m = [] then 0 else length m + 1) + length u"
    using length_csv_add [OF m'] items by auto
  then have "length m' + 1 \<le> weight (set (csv_items m'))"
    using len w items by (auto split: if_splits)
  with m' items I assms(4) show ?thesis by (auto simp: roomy_def)
qed

lemma add_member_grown:
  assumes inv: "groups_inv fits N gs" and u: "csv_item u"
    and fits: "fits \<Longrightarrow> u \<in> N \<and> finite N \<and> weight N \<le> 512"
  shows "grown fits (\<lambda>i. if find_group_by_name gs g = Some i then {u} else {}) gs (add_member gs g u)"
    "groups_inv fits N (add_member gs g u)"
proof -
  have "grown fits (\<lambda>i. if find_group_by_name gs g = Some i then {u} else {}) gs (add_member gs g u) \<and>
    groups_inv fits N (add_member gs g u)"
  proof (cases "find_group_by_name gs g")
    case None
    with inv show ?thesis by (simp add: add_member_def grown_refl)
  next
    case (Some i)
    from group_names.find_Some [OF Some] have i: "i < length gs" by simp
    then have gi: "length (members (gs ! i)) < 512" "fits \<Longrightarrow> roomy N (members (gs ! i))"
      using inv by (auto simp: groups_inv_def)
    show ?thesis
    proof (cases "csv_add 512 (members (gs ! i)) u")
      case None
      then have "\<not> fits" using roomy_add [OF gi(2,1) u] fits by auto
      with inv Some None show ?thesis by (simp add: add_member_def grown_def)
    next
      case m: (Some m)
      note add = csv_add_Some [OF m u gi(1)]
      let ?g = "(gs ! i)\<lparr>members := m\<rparr>"
      have hs: "add_member gs g u = gs[i := ?g]" using Some m by (simp add: add_member_def)
      have "fits \<Longrightarrow> roomy N m" using roomy_add [OF gi(2,1) u] fits m by auto
      then have "groups_inv fits N (gs[i := ?g])"
        using inv add(2) set_update_subset_insert [of gs i ?g] by (auto simp: groups_inv_def)
      moreover have "map (\<lambda>g. g\<lparr>members := []\<rparr>) (gs[i := ?g]) = map (\<lambda>g. g\<lparr>members := []\<rparr>) gs"
        using i by (simp add: map_update list_update_same_conv)
      ultimately show ?thesis
        using Some i add(1) by (auto simp: hs grown_def nth_list_update csv_ins_def)
    qed
  qed
  then show "grown fits (\<lambda>i. if find_group_by_name gs g = Some i then {u} else {}) gs (add_member gs g u)"
    "groups_inv fits N (add_member gs g u)" by blast+
qed

section \<open>All memberships of one user\<close>

lemma grown_eq: "grown fits A gs hs \<Longrightarrow> (\<And>i. i < length gs \<Longrightarrow> A i = B i) \<Longrightarrow> grown fits B gs hs"
  by (cases fits) (simp_all add: grown_def)

lemma grown_find: "grown fits A gs hs \<Longrightarrow> find_group_by_name hs = find_group_by_name gs"
  using find_group_same_names [OF grown_names(1)] by blast

lemma member_loop_grown:
  assumes "groups_inv fits N gs" "csv_item u" "fits \<Longrightarrow> u \<in> N \<and> finite N \<and> weight N \<le> 512"
  shows "grown fits (\<lambda>i. if \<exists>tok\<in>set toks. find_group_by_name gs (trim_whitespace tok) = Some i then {u} else {})
      gs (member_loop toks u gs) \<and> groups_inv fits N (member_loop toks u gs)"
  using assms
proof (induction toks u gs rule: member_loop.induct)
  case (1 u gs)
  then show ?case by (simp add: grown_refl)
next
  case (2 tok toks u gs)
  let ?hs = "add_member gs (trim_whitespace tok) u"
  note add = add_member_grown [OF "2.prems", of "trim_whitespace tok"]
  note IH = "2.IH" [OF add(2) "2.prems"(2,3)]
  from grown_trans [OF add(1) conjunct1 [OF IH]] conjunct2 [OF IH] show ?case
    by (auto simp: grown_find [OF add(1)] elim!: grown_eq split: if_splits)
qed

text \<open>The groups a user belongs to.\<close>

definition belongs :: "user_entry \<Rightarrow> string \<Rightarrow> bool" where
  "belongs u n \<longleftrightarrow> n \<in> set (csv_items (resource_groups u)) \<or> (username u = ''root'' \<and> n = ''root'')"

definition user_inv :: "user_entry \<Rightarrow> bool" where
  "user_inv u \<longleftrightarrow> csv_item (username u) \<and> length (resource_groups u) < 512"

lemma find_group_distinct:
  assumes "distinct (map gname gs)" "i < length gs"
  shows "find_group_by_name gs n = Some i \<longleftrightarrow> gname (gs ! i) = n"
proof
  assume n: "gname (gs ! i) = n"
  then have "find_group_by_name gs n \<noteq> None"
    using group_names.find_None [of gs n] assms(2) by (metis image_eqI nth_mem)
  then obtain j where j: "find_group_by_name gs n = Some j" by auto
  with group_names.found_unique [OF assms(1) j assms(2) n] show "find_group_by_name gs n = Some i" by simp
qed (use group_names.find_Some in blast)

lemma apply_user_grown:
  assumes "groups_inv fits N gs" "user_inv u" "fits \<Longrightarrow> username u \<in> N \<and> finite N \<and> weight N \<le> 512"
    "distinct (map gname gs)" "\<forall>g\<in>set gs. gname g \<noteq> []"
  shows "grown fits (\<lambda>i. if belongs u (gname (gs ! i)) then {username u} else {}) gs (apply_user gs u) \<and>
    groups_inv fits N (apply_user gs u)"
proof -
  let ?toks = "strtok COMMA (resource_groups u)"
  let ?root = "\<lambda>i. if username u = ''root'' \<and> find_group_by_name gs ''root'' = Some i then {username u} else {}"
  define hs where "hs = (if username u = ''root'' then add_member gs ''root'' (username u) else gs)"
  have u: "csv_item (username u)" and len: "length (resource_groups u) < 512"
    using assms(2) by (simp_all add: user_inv_def)
  have hs: "grown fits ?root gs hs \<and> groups_inv fits N hs"
  proof (cases "username u = ''root''")
    case True
    with add_member_grown [OF assms(1) u assms(3), of "''root''"] show ?thesis
      by (auto simp: hs_def elim!: grown_eq)
  next
    case False
    with assms(1) grown_refl [of fits gs] show ?thesis by (auto simp: hs_def)
  qed
  have loop: "grown fits (\<lambda>i. if \<exists>tok\<in>set ?toks. find_group_by_name gs (trim_whitespace tok) = Some i then {username u} else {})
      hs (member_loop ?toks (username u) hs) \<and> groups_inv fits N (member_loop ?toks (username u) hs)"
    using member_loop_grown [OF conjunct2 [OF hs] u assms(3), of ?toks] grown_find [OF conjunct1 [OF hs]] by simp
  have app: "apply_user gs u = member_loop ?toks (username u) hs"
    using len by (simp add: apply_user_def hs_def Let_def string_copy_def)
  have listed: "(\<exists>tok\<in>set ?toks. find_group_by_name gs (trim_whitespace tok) = Some i) \<longleftrightarrow>
      gname (gs ! i) \<in> set (csv_items (resource_groups u))" if i: "i < length gs" for i
  proof -
    have "gname (gs ! i) \<noteq> []" using assms(5) i by simp
    then show ?thesis
      by (auto simp: find_group_distinct [OF assms(4) i] csv_items_def image_iff)
  qed
  show ?thesis
    unfolding app
  proof (rule conjI [OF grown_eq [OF grown_trans [OF conjunct1 [OF hs] conjunct1 [OF loop]]] conjunct2 [OF loop]])
    fix i assume "i < length gs"
    from listed [OF this] find_group_distinct [OF assms(4) this, of "''root''"]
    show "?root i \<union> (if \<exists>tok\<in>set ?toks. find_group_by_name gs (trim_whitespace tok) = Some i then {username u} else {}) =
      (if belongs u (gname (gs ! i)) then {username u} else {})"
      by (simp add: belongs_def)
  qed
qed

section \<open>All users\<close>

lemma foldl_apply_user_grown:
  assumes "groups_inv fits N gs" "\<forall>u\<in>set us. user_inv u"
    "fits \<Longrightarrow> username ` set us \<subseteq> N \<and> finite N \<and> weight N \<le> 512"
    "distinct (map gname gs)" "\<forall>g\<in>set gs. gname g \<noteq> []"
  shows "grown fits (\<lambda>i. {username u |u. u \<in> set us \<and> belongs u (gname (gs ! i))}) gs (foldl apply_user gs us) \<and>
    groups_inv fits N (foldl apply_user gs us)"
  using assms
proof (induction us arbitrary: gs)
  case Nil
  then show ?case using grown_refl [of fits gs] by simp
next
  case (Cons u us)
  have "grown fits (\<lambda>i. if belongs u (gname (gs ! i)) then {username u} else {}) gs (apply_user gs u) \<and>
    groups_inv fits N (apply_user gs u)"
    using Cons.prems by (intro apply_user_grown) auto
  then have g: "grown fits (\<lambda>i. if belongs u (gname (gs ! i)) then {username u} else {}) gs (apply_user gs u)"
    and inv: "groups_inv fits N (apply_user gs u)" by blast+
  note nm = grown_names [OF g]
  have nth: "gname (apply_user gs u ! i) = gname (gs ! i)" if "i < length gs" for i
    using nm that by (metis nth_map)
  have ne: "\<forall>h\<in>set (apply_user gs u). gname h \<noteq> []"
    using Cons.prems(5) nm(1) by (metis (no_types, lifting) imageE image_eqI list.set_map)
  have IH: "grown fits (\<lambda>i. {username v |v. v \<in> set us \<and> belongs v (gname (apply_user gs u ! i))}) (apply_user gs u)
      (foldl apply_user (apply_user gs u) us) \<and> groups_inv fits N (foldl apply_user (apply_user gs u) us)"
    using Cons.prems inv ne nm by (intro Cons.IH) auto
  from grown_trans [OF g conjunct1 [OF IH]] conjunct2 [OF IH] show ?case
    by (auto simp: nth elim!: grown_eq split: if_splits)
qed

text \<open>Names that end up in a group: those of its users, and \<open>root\<close> in the group \<open>root\<close>.\<close>

definition group_users :: "user_entry list \<Rightarrow> string \<Rightarrow> string set" where
  "group_users us n = {username u |u. u \<in> set us \<and> belongs u n} \<union> (if n = ''root'' then {''root''} else {})"

lemma apply_memberships_grown:
  assumes "\<forall>u\<in>set us. user_inv u" "distinct (map gname gs)" "\<forall>g\<in>set gs. gname g \<noteq> []"
    "fits \<Longrightarrow> weight (insert ''root'' (username ` set us)) \<le> 512"
  shows "grown fits (\<lambda>i. group_users us (gname (gs ! i))) (map (\<lambda>g. g\<lparr>members := []\<rparr>) gs)
    (apply_memberships_from_users gs us)"
proof -
  let ?gs = "map (\<lambda>g. g\<lparr>members := []\<rparr>) gs"
  let ?N = "insert ''root'' (username ` set us)"
  have names: "map gname ?gs = map gname gs" by simp
  have inv: "groups_inv fits ?N ?gs" by (auto simp: groups_inv_def roomy_def)
  have users: "grown fits (\<lambda>i. {username u |u. u \<in> set us \<and> belongs u (gname (?gs ! i))}) ?gs (foldl apply_user ?gs us) \<and>
    groups_inv fits ?N (foldl apply_user ?gs us)"
    using assms inv by (intro foldl_apply_user_grown) (auto simp: comp_def)
  have root: "csv_item ''root''"
    by (simp add: csv_item_def trim_whitespace_def isspace_def ord_def)
  note add = add_member_grown(1) [OF conjunct2 [OF users] root, of "''root''"]
  have "grown fits (\<lambda>i. if find_group_by_name ?gs ''root'' = Some i then {''root''} else {})
      (foldl apply_user ?gs us) (apply_memberships_from_users gs us)"
    using add assms(4) by (simp add: apply_memberships_from_users_def Let_def grown_find [OF conjunct1 [OF users]])
  from grown_trans [OF conjunct1 [OF users] this] show ?thesis
    using find_group_distinct [of ?gs] assms(2)
    by (auto simp: group_users_def comp_def elim!: grown_eq split: if_splits)
qed

section \<open>The groups stay well formed\<close>

lemma add_member_ok:
  assumes "\<forall>g\<in>set gs. group_ok g" "csv_item u" "clean u"
  shows "\<forall>g\<in>set (add_member gs n u). group_ok g"
proof (cases "find_group_by_name gs n")
  case (Some i)
  from group_names.find_Some [OF Some] have i: "i < length gs" by simp
  then have gi: "group_ok (gs ! i)" using assms(1) by simp
  then have len: "length (members (gs ! i)) < 512" by (simp add: group_ok_def)
  show ?thesis
  proof (cases "csv_add 512 (members (gs ! i)) u")
    case m: (Some m)
    have "clean m"
      using csv_add_chars [OF m] gi assms(3) by (auto simp: group_ok_def clean_def)
    then have "group_ok ((gs ! i)\<lparr>members := m\<rparr>)"
      using gi csv_add_Some(2) [OF m assms(2) len] by (simp add: group_ok_def)
    then show ?thesis
      using assms(1) Some m set_update_subset_insert [of gs i] by (fastforce simp: add_member_def)
  qed (use assms Some in \<open>simp add: add_member_def\<close>)
qed (use assms in \<open>simp add: add_member_def\<close>)

lemma member_loop_ok:
  "\<forall>g\<in>set gs. group_ok g \<Longrightarrow> csv_item u \<Longrightarrow> clean u \<Longrightarrow> \<forall>g\<in>set (member_loop toks u gs). group_ok g"
  by (induction toks u gs rule: member_loop.induct) (simp_all add: add_member_ok)

lemma apply_user_ok:
  assumes "\<forall>g\<in>set gs. group_ok g" "csv_item (username u)" "clean (username u)"
  shows "\<forall>g\<in>set (apply_user gs u). group_ok g"
proof -
  define hs where "hs = (if username u = ''root'' then add_member gs ''root'' (username u) else gs)"
  have hs: "\<forall>g\<in>set hs. group_ok g" using assms add_member_ok [OF assms] by (simp add: hs_def)
  have "apply_user gs u = (case string_copy 512 (resource_groups u) of None \<Rightarrow> hs
      | Some copy \<Rightarrow> member_loop (strtok COMMA copy) (username u) hs)"
    unfolding apply_user_def hs_def Let_def ..
  with hs member_loop_ok [OF hs assms(2,3)] show ?thesis by (simp split: option.split)
qed

lemma apply_memberships_ok:
  assumes "\<forall>g\<in>set gs. group_ok g" "\<forall>u\<in>set us. csv_item (username u) \<and> clean (username u)"
  shows "\<forall>g\<in>set (apply_memberships_from_users gs us). group_ok g"
proof -
  have fold: "\<forall>g\<in>set (foldl apply_user hs us). group_ok g" if "\<forall>g\<in>set hs. group_ok g" for hs
    using that assms(2)
  proof (induction us arbitrary: hs)
    case (Cons u us)
    then have "\<forall>g\<in>set (apply_user hs u). group_ok g" by (intro apply_user_ok) simp_all
    with Cons show ?case by simp
  qed simp
  have "\<forall>g\<in>set (map (\<lambda>g. g\<lparr>members := []\<rparr>) gs). group_ok g"
    using assms(1) by (simp add: group_ok_def clean_def)
  from fold [OF this] show ?thesis
    unfolding apply_memberships_from_users_def Let_def
    by (rule add_member_ok) (simp_all add: csv_item_def clean_def trim_whitespace_def isspace_def ord_def)
qed

end
