(* ===== verification/UA_Base64.thy ===== *)
theory UA_Base64
  imports Prelude
begin

unbundle bit_operations_syntax

text \<open>
  The unpadded base64 codec of \<^verbatim>\<open>tools/eclipse-useradd/eclipse-useradd.c\<close> in which salts
  and password hashes are stored: \<open>base64_encode\<close>, \<open>b64_rev\<close> and \<open>base64_decode\<close> with
  their output-buffer checks. The main result is the round trip: whatever \<open>base64_encode\<close>
  accepts, \<open>base64_decode\<close> gives back, provided the destination is large enough.
\<close>

section \<open>The codec\<close>

definition b64_table :: string where
  "b64_table = ''ABCDEFGHIJKLMNOPQRSTUVWXYZabcdefghijklmnopqrstuvwxyz0123456789+/''"

text \<open>One output character: \<open>b64_table[(v >> k) & 0x3f]\<close>.\<close>

definition b64_char :: "u32 \<Rightarrow> nat \<Rightarrow> char" where
  "b64_char v k = b64_table ! unat (drop_bit k v AND 0x3f)"

text \<open>The encoding loop: \<open>outlen\<close> is the capacity of \<open>out\<close>, \<open>out\<close> what is written so far
  (so the index \<open>j\<close> is its length). The result is \<open>None\<close> for the return value \<open>-1\<close>.\<close>

fun base64_encode_loop :: "nat \<Rightarrow> byte list \<Rightarrow> string \<Rightarrow> string option" where
  "base64_encode_loop outlen (a # b # c # rest) out =
     (let v = push_bit 16 (ucast a) OR push_bit 8 (ucast b) OR ucast c
      in if length out + 4 \<ge> outlen then None
         else base64_encode_loop outlen rest
                (out @ [b64_char v 18, b64_char v 12, b64_char v 6, b64_char v 0]))"
| "base64_encode_loop outlen [a, b] out =
     (let v = push_bit 16 (ucast a) OR push_bit 8 (ucast b)
      in if length out + 4 \<ge> outlen then None
         else base64_encode_loop outlen [] (out @ [b64_char v 18, b64_char v 12, b64_char v 6]))"
| "base64_encode_loop outlen [a] out =
     (let v = push_bit 16 (ucast a)
      in if length out + 4 \<ge> outlen then None
         else base64_encode_loop outlen [] (out @ [b64_char v 18, b64_char v 12]))"
| "base64_encode_loop outlen [] out = (if length out \<ge> outlen then None else Some out)"

definition base64_encode :: "nat \<Rightarrow> byte list \<Rightarrow> string option" where
  "base64_encode outlen inp = base64_encode_loop outlen inp []"

text \<open>\<open>strchr\<close> also finds the terminator, so \<open>b64_rev(0)\<close> is 64.\<close>

fun index_from :: "nat \<Rightarrow> char \<Rightarrow> string \<Rightarrow> int" where
  "index_from i c [] = (if c = NUL then int i else -1)"
| "index_from i c (x # xs) = (if x = c then int i else index_from (Suc i) c xs)"

definition b64_rev :: "char \<Rightarrow> int" where
  "b64_rev c = index_from 0 c b64_table"

text \<open>The third and fourth character of a group are optional: an absent or invalid
  character gives \<open>-1\<close> and is not consumed.\<close>

definition b64_opt :: "string \<Rightarrow> int \<times> string" where
  "b64_opt r = (case r of [] \<Rightarrow> (-1, []) | z # r' \<Rightarrow> (b64_rev z, if b64_rev z \<ge> 0 then r' else r))"

lemma b64_opt_length: "length (snd (b64_opt r)) \<le> length r"
  by (simp add: b64_opt_def split: list.split)

function base64_decode_loop :: "nat \<Rightarrow> string \<Rightarrow> byte list \<Rightarrow> byte list option" where
  "base64_decode_loop outlen [] out = Some out"
| "base64_decode_loop outlen [x] out = None"
| "base64_decode_loop outlen (x # y # r) out =
     (let c0 = b64_rev x; c1 = b64_rev y
      in if c0 < 0 \<or> c1 < 0 then None
         else let c2 = fst (b64_opt r); r2 = snd (b64_opt r);
                  c3 = fst (b64_opt r2); r3 = snd (b64_opt r2);
                  v = (push_bit 18 (word_of_int c0) OR push_bit 12 (word_of_int c1) :: u32);
                  v = (if c2 \<ge> 0 then v OR push_bit 6 (word_of_int c2) else v);
                  v = (if c3 \<ge> 0 then v OR word_of_int c3 else v)
              in if length out \<ge> outlen then None
                 else let out1 = out @ [ucast (drop_bit 16 v)]
                      in if c2 \<ge> 0
                         then if length out1 \<ge> outlen then None
                              else let out2 = out1 @ [ucast (drop_bit 8 v)]
                                   in if c3 \<ge> 0
                                      then if length out2 \<ge> outlen then None
                                           else base64_decode_loop outlen r3 (out2 @ [ucast v])
                                      else base64_decode_loop outlen r3 out2
                         else base64_decode_loop outlen r3 out1)"
  by pat_completeness auto
termination
proof (relation "measure (\<lambda>(n, s, out). length s)", goal_cases)
  case 1
  show ?case by simp
qed (simp_all, (metis b64_opt_length le_trans less_Suc_eq_le le_SucI)+)

definition base64_decode :: "nat \<Rightarrow> string \<Rightarrow> byte list option" where
  "base64_decode outlen inp = base64_decode_loop outlen inp []"

section \<open>The alphabet\<close>

lemma b64_table_length: "length b64_table = 64"
  by (simp add: b64_table_def)

lemma b64_rev_table: "x < 64 \<Longrightarrow> b64_rev (b64_table ! x) = int x"
proof -
  have "\<forall>x\<in>set [0..<64]. b64_rev (b64_table ! x) = int x"
    by (simp add: b64_rev_def b64_table_def upt_rec)
  then show "x < 64 \<Longrightarrow> ?thesis" by auto
qed

lemma b64_table_alphabet: "c \<in> set b64_table \<Longrightarrow> isalnum c \<or> c = CHR ''+'' \<or> c = CHR ''/''"
proof -
  have "\<forall>c\<in>set b64_table. isalnum c \<or> c = CHR ''+'' \<or> c = CHR ''/''"
    by (simp add: b64_table_def isalnum_def isdigit_def ord_def)
  then show "c \<in> set b64_table \<Longrightarrow> ?thesis" by blast
qed

lemma sextet: "w AND 0x3f = take_bit 6 (w :: u32)"
  by (simp add: take_bit_eq_mask mask_eq_decr_exp)

lemma sextet_less: "unat (w AND 0x3f :: u32) < 64"
  using take_bit_nat_less_exp [of 6 "unat w"] by (simp add: sextet unsigned_take_bit_eq)

lemma b64_char_in_table: "b64_char v k \<in> set b64_table"
  by (simp add: b64_char_def b64_table_length sextet_less)


section \<open>Round trip\<close>

text \<open>Bytes survive the split into sextets and back.\<close>

definition sextet_at :: "u32 \<Rightarrow> nat \<Rightarrow> u32" where
  "sextet_at v k = drop_bit k v AND 0x3f"

lemma bytes3_of_sextets:
  fixes a b c :: byte
  defines "v \<equiv> (push_bit 16 (ucast a) OR push_bit 8 (ucast b) OR ucast c :: u32)"
  defines "v' \<equiv> ((push_bit 18 (sextet_at v 18) OR push_bit 12 (sextet_at v 12))
     OR push_bit 6 (sextet_at v 6)) OR sextet_at v 0"
  shows "ucast (drop_bit 16 v') = a" "ucast (drop_bit 8 v') = b" "ucast v' = c"
  unfolding v_def v'_def sextet sextet_at_def by (rule byte_eqI; simp add: bit_simps)+

lemma bytes2_of_sextets:
  fixes a b :: byte
  defines "v \<equiv> (push_bit 16 (ucast a) OR push_bit 8 (ucast b) :: u32)"
  defines "v' \<equiv> (push_bit 18 (sextet_at v 18) OR push_bit 12 (sextet_at v 12))
     OR push_bit 6 (sextet_at v 6)"
  shows "ucast (drop_bit 16 v') = a" "ucast (drop_bit 8 v') = b"
  unfolding v_def v'_def sextet sextet_at_def by (rule byte_eqI; simp add: bit_simps)+

lemma byte1_of_sextets:
  fixes a :: byte
  defines "v \<equiv> (push_bit 16 (ucast a) :: u32)"
  defines "v' \<equiv> push_bit 18 (sextet_at v 18) OR push_bit 12 (sextet_at v 12)"
  shows "ucast (drop_bit 16 v') = a"
  unfolding v_def v'_def sextet sextet_at_def by (rule byte_eqI; simp add: bit_simps)

lemma b64_rev_char [simp]: "b64_rev (b64_char v k) = uint (sextet_at v k)"
  using sextet_less by (simp add: b64_char_def b64_rev_table sextet_at_def)

lemma b64_opt_char [simp]:
  "b64_opt (b64_char v k # r) = (uint (sextet_at v k), r)"
  "b64_opt [] = (-1, [])"
  by (simp_all add: b64_opt_def)

lemma base64_encode_loop_decodes:
  assumes "base64_encode_loop outlen inp out = Some s"
  shows "\<exists>t. s = out @ t \<and> set t \<subseteq> set b64_table \<and>
    (\<forall>cap acc. length acc + length inp \<le> cap \<longrightarrow> base64_decode_loop cap t acc = Some (acc @ inp))"
  using assms
proof (induction outlen inp out arbitrary: s rule: base64_encode_loop.induct)
  case (1 outlen a b c rest out)
  define v :: u32 where "v = push_bit 16 (ucast a) OR push_bit 8 (ucast b) OR ucast c"
  define q where "q = [b64_char v 18, b64_char v 12, b64_char v 6, b64_char v 0]"
  from "1.prems" have guard: "\<not> length out + 4 \<ge> outlen"
    and enc: "base64_encode_loop outlen rest (out @ q) = Some s"
    by (simp_all add: Let_def v_def q_def split: if_splits)
  from "1.IH" [OF v_def guard enc [unfolded q_def]]
  obtain t where t: "s = out @ q @ t" "set t \<subseteq> set b64_table"
    "\<And>cap acc. length acc + length rest \<le> cap \<Longrightarrow> base64_decode_loop cap t acc = Some (acc @ rest)"
    by (auto simp: q_def)
  have "base64_decode_loop cap (q @ t) acc = Some (acc @ a # b # c # rest)"
    if "length acc + length (a # b # c # rest) \<le> cap" for cap acc
    using that t(3) [of "acc @ [a, b, c]" cap] bytes3_of_sextets [of a b c, folded v_def]
    by (simp add: q_def)
  then show ?case
    using t b64_char_in_table by (intro exI [of _ "q @ t"]) (auto simp: q_def)
next
  case (2 outlen a b out)
  define v :: u32 where "v = push_bit 16 (ucast a) OR push_bit 8 (ucast b)"
  let ?q = "[b64_char v 18, b64_char v 12, b64_char v 6]"
  from "2.prems" have "s = out @ ?q"
    by (simp add: Let_def v_def split: if_splits)
  then show ?case
    using bytes2_of_sextets [of a b, folded v_def] b64_char_in_table
    by (intro exI [of _ ?q]) simp
next
  case (3 outlen a out)
  define v :: u32 where "v = push_bit 16 (ucast a)"
  let ?q = "[b64_char v 18, b64_char v 12]"
  from "3.prems" have "s = out @ ?q"
    by (simp add: Let_def v_def split: if_splits)
  then show ?case
    using byte1_of_sextets [of a, folded v_def] b64_char_in_table
    by (intro exI [of _ ?q]) simp
next
  case (4 outlen out)
  then show ?case by (simp split: if_splits)
qed

lemma base64_encode_alphabet:
  "base64_encode outlen inp = Some s \<Longrightarrow> c \<in> set s \<Longrightarrow> isalnum c \<or> c = CHR ''+'' \<or> c = CHR ''/''"
  unfolding base64_encode_def
  by (drule base64_encode_loop_decodes) (auto dest: b64_table_alphabet)

lemma base64_decode_encode:
  "base64_encode outlen inp = Some s \<Longrightarrow> length inp \<le> cap \<Longrightarrow> base64_decode cap s = Some inp"
  unfolding base64_encode_def base64_decode_def
  by (drule base64_encode_loop_decodes) auto

section \<open>Output length\<close>

text \<open>The number of characters written for \<open>n\<close> bytes, and the capacity that suffices.\<close>

definition b64_len :: "nat \<Rightarrow> nat" where
  "b64_len n = 4 * (n div 3) + (if n mod 3 = 0 then 0 else n mod 3 + 1)"

lemma b64_len_add3 [simp]: "b64_len (Suc (Suc (Suc n))) = 4 + b64_len n"
proof -
  have "Suc (Suc (Suc n)) div 3 = Suc (n div 3)" "Suc (Suc (Suc n)) mod 3 = n mod 3"
    by presburger+
  then show ?thesis by (simp add: b64_len_def)
qed

lemma base64_encode_loop_total:
  assumes "length out + 4 * ((length inp + 2) div 3) < outlen"
  shows "\<exists>s. base64_encode_loop outlen inp out = Some s \<and> length s = length out + b64_len (length inp)"
  using assms
proof (induction outlen inp out rule: base64_encode_loop.induct)
  case (1 outlen a b c rest out)
  have "(length (a # b # c # rest) + 2) div 3 = Suc ((length rest + 2) div 3)" by simp
  with 1 show ?case by (auto simp: Let_def)
qed (auto simp: Let_def b64_len_def)

lemma base64_encode_total:
  "4 * ((length inp + 2) div 3) < outlen \<Longrightarrow>
   \<exists>s. base64_encode outlen inp = Some s \<and> length s = b64_len (length inp)"
  unfolding base64_encode_def using base64_encode_loop_total [of "[]" inp outlen] by simp

end
