(* ===== verification/UA_Blake2b.thy ===== *)
theory UA_Blake2b
  imports Prelude
begin

unbundle bit_operations_syntax

text \<open>
  The BLAKE2b implementation of \<^verbatim>\<open>tools/eclipse-useradd/eclipse-useradd.c\<close>: the byte-order
  helpers, \<open>blake2b_compress\<close>, the incremental \<open>blake2b_init\<close>/\<open>update\<close>/\<open>final\<close>, the one-shot
  \<open>blake2b_hash\<close> and Argon2's variable-length \<open>blake2b_long\<close>. The state record has the fields of
  \<open>struct blake2b_state\<close> that the code uses; \<open>buf\<close> is the part of the 128-byte buffer that is
  filled, so \<open>buflen\<close> is its length (the bytes beyond it are overwritten before they are read).

  The incremental code is proved equal to a reference definition after RFC 7693, which has no
  buffer, reads the whole message and counts bytes with an unbounded natural number.
\<close>

section \<open>Byte order and rotation\<close>

definition load64_le :: "byte list \<Rightarrow> u64" where
  "load64_le p = ucast (p ! 0) OR push_bit 8 (ucast (p ! 1)) OR push_bit 16 (ucast (p ! 2)) OR
     push_bit 24 (ucast (p ! 3)) OR push_bit 32 (ucast (p ! 4)) OR push_bit 40 (ucast (p ! 5)) OR
     push_bit 48 (ucast (p ! 6)) OR push_bit 56 (ucast (p ! 7))"

definition store64_le :: "u64 \<Rightarrow> byte list" where
  "store64_le w = [ucast w, ucast (drop_bit 8 w), ucast (drop_bit 16 w), ucast (drop_bit 24 w),
     ucast (drop_bit 32 w), ucast (drop_bit 40 w), ucast (drop_bit 48 w), ucast (drop_bit 56 w)]"

definition store32_le :: "u32 \<Rightarrow> byte list" where
  "store32_le w = [ucast w, ucast (drop_bit 8 w), ucast (drop_bit 16 w), ucast (drop_bit 24 w)]"

definition rotr64 :: "u64 \<Rightarrow> nat \<Rightarrow> u64" where
  "rotr64 x n = drop_bit n x OR push_bit (64 - n) x"

section \<open>Compression\<close>

definition blake2b_iv :: "u64 list" where
  "blake2b_iv =
    [0x6a09e667f3bcc908, 0xbb67ae8584caa73b, 0x3c6ef372fe94f82b, 0xa54ff53a5f1d36f1,
     0x510e527fade682d1, 0x9b05688c2b3e6c1f, 0x1f83d9abfb41bd6b, 0x5be0cd19137e2179]"

definition blake2b_sigma :: "nat list list" where
  "blake2b_sigma =
    [[ 0, 1, 2, 3, 4, 5, 6, 7, 8, 9,10,11,12,13,14,15],
     [14,10, 4, 8, 9,15,13, 6, 1,12, 0, 2,11, 7, 5, 3],
     [11, 8,12, 0, 5, 2,15,13,10,14, 3, 6, 7, 1, 9, 4],
     [ 7, 9, 3, 1,13,12,11,14, 2, 6, 5,10, 4, 0,15, 8],
     [ 9, 0, 5, 7, 2, 4,10,15,14, 1,11,12, 6, 8, 3,13],
     [ 2,12, 6,10, 0,11, 8, 3, 4,13, 7, 5,15,14, 1, 9],
     [12, 5, 1,15,14,13, 4,10, 0, 7, 6, 3, 9, 2, 8,11],
     [13,11, 7,14,12, 1, 3, 9, 5, 0,15, 4, 8, 6, 2,10],
     [ 6,15,14, 9,11, 3, 0, 8,12, 2,13, 7, 1, 4,10, 5],
     [10, 2, 8, 4, 7, 6, 1, 5,15,11, 9,14, 3,12,13, 0],
     [ 0, 1, 2, 3, 4, 5, 6, 7, 8, 9,10,11,12,13,14,15],
     [14,10, 4, 8, 9,15,13, 6, 1,12, 0, 2,11, 7, 5, 3]]"

text \<open>The macro \<open>B2B_G\<close> on the entries \<open>a\<close>, \<open>b\<close>, \<open>c\<close>, \<open>d\<close> of the work vector.\<close>

definition B2B_G :: "u64 list \<Rightarrow> nat \<Rightarrow> nat \<Rightarrow> nat \<Rightarrow> nat \<Rightarrow> u64 \<Rightarrow> u64 \<Rightarrow> u64 list" where
  "B2B_G v a b c d x y =
     (let v = v[a := v ! a + v ! b + x];
          v = v[d := rotr64 (v ! d XOR v ! a) 32];
          v = v[c := v ! c + v ! d];
          v = v[b := rotr64 (v ! b XOR v ! c) 24];
          v = v[a := v ! a + v ! b + y];
          v = v[d := rotr64 (v ! d XOR v ! a) 16];
          v = v[c := v ! c + v ! d]
      in v[b := rotr64 (v ! b XOR v ! c) 63])"

definition blake2b_round :: "u64 list \<Rightarrow> nat list \<Rightarrow> u64 list \<Rightarrow> u64 list" where
  "blake2b_round m s v =
     (let v = B2B_G v 0 4 8 12 (m ! (s ! 0)) (m ! (s ! 1));
          v = B2B_G v 1 5 9 13 (m ! (s ! 2)) (m ! (s ! 3));
          v = B2B_G v 2 6 10 14 (m ! (s ! 4)) (m ! (s ! 5));
          v = B2B_G v 3 7 11 15 (m ! (s ! 6)) (m ! (s ! 7));
          v = B2B_G v 0 5 10 15 (m ! (s ! 8)) (m ! (s ! 9));
          v = B2B_G v 1 6 11 12 (m ! (s ! 10)) (m ! (s ! 11));
          v = B2B_G v 2 7 8 13 (m ! (s ! 12)) (m ! (s ! 13))
      in B2B_G v 3 4 9 14 (m ! (s ! 14)) (m ! (s ! 15)))"

record blake2b_state =
  h :: "u64 list"
  t0 :: u64
  t1 :: u64
  buf :: "byte list"
  outlen :: nat

text \<open>The chaining value after \<open>blake2b_compress(S, block, last)\<close>; nothing else changes.\<close>

definition compress_h :: "u64 list \<Rightarrow> u64 \<Rightarrow> u64 \<Rightarrow> byte list \<Rightarrow> bool \<Rightarrow> u64 list" where
  "compress_h hh c0 c1 block is_last =
     (let m = map (\<lambda>i. load64_le (drop (i * 8) block)) [0..<16];
          v = hh @ blake2b_iv;
          v = v[12 := v ! 12 XOR c0];
          v = v[13 := v ! 13 XOR c1];
          v = (if is_last then v[14 := NOT (v ! 14)] else v);
          v = foldl (\<lambda>v s. blake2b_round m s v) v blake2b_sigma
      in map (\<lambda>i. hh ! i XOR (v ! i XOR v ! (i + 8))) [0..<8])"

definition blake2b_compress :: "blake2b_state \<Rightarrow> byte list \<Rightarrow> bool \<Rightarrow> blake2b_state" where
  "blake2b_compress S block is_last = S\<lparr>h := compress_h (h S) (t0 S) (t1 S) block is_last\<rparr>"

section \<open>Incremental interface\<close>

definition blake2b_init :: "nat \<Rightarrow> blake2b_state option" where
  "blake2b_init n =
     (if n = 0 \<or> n > 64 then None
      else Some \<lparr>h = blake2b_iv[0 := blake2b_iv ! 0 XOR (0x01010000 XOR of_nat n)],
                 t0 = 0, t1 = 0, buf = [], outlen = n\<rparr>)"

definition blake2b_increment_counter :: "blake2b_state \<Rightarrow> u64 \<Rightarrow> blake2b_state" where
  "blake2b_increment_counter S inc =
     (let S = S\<lparr>t0 := t0 S + inc\<rparr> in if t0 S < inc then S\<lparr>t1 := t1 S + 1\<rparr> else S)"

text \<open>The \<open>while (inlen > 128)\<close> loop of \<open>blake2b_update\<close>.\<close>

function blake2b_update_loop :: "blake2b_state \<Rightarrow> byte list \<Rightarrow> blake2b_state \<times> byte list" where
  "blake2b_update_loop S inp =
     (if length inp > 128
      then blake2b_update_loop
             (blake2b_compress (blake2b_increment_counter S 128) (take 128 inp) False) (drop 128 inp)
      else (S, inp))"
  by pat_completeness auto
termination
  by (relation "measure (\<lambda>(S, inp). length inp)") auto

declare blake2b_update_loop.simps [simp del]

definition blake2b_update :: "blake2b_state \<Rightarrow> byte list \<Rightarrow> blake2b_state" where
  "blake2b_update S inp =
     (let left = length (buf S); fill = 128 - left
      in if length inp > fill
         then let S = blake2b_compress (blake2b_increment_counter S 128) (buf S @ take fill inp) False;
                  (S, rest) = blake2b_update_loop S (drop fill inp)
              in S\<lparr>buf := rest\<rparr>
         else S\<lparr>buf := buf S @ inp\<rparr>)"

definition blake2b_final :: "blake2b_state \<Rightarrow> nat \<Rightarrow> byte list option" where
  "blake2b_final S n =
     (if n \<noteq> outlen S then None
      else let S = blake2b_increment_counter S (of_nat (length (buf S)));
               S = blake2b_compress S (buf S @ replicate (128 - length (buf S)) 0) True
           in Some (take n (concat (map store64_le (h S)))))"

definition blake2b_hash :: "nat \<Rightarrow> byte list \<Rightarrow> byte list option" where
  "blake2b_hash n inp =
     (case blake2b_init n of None \<Rightarrow> None | Some S \<Rightarrow> blake2b_final (blake2b_update S inp) n)"

text \<open>\<open>blake2b_long\<close>: the hash \<open>H'\<close> of Argon2, which chains 64-byte digests for long outputs.
  \<open>produced\<close> counts the bytes written; \<open>out_buffer\<close> is the last digest.\<close>

function blake2b_long_loop :: "nat \<Rightarrow> nat \<Rightarrow> byte list \<Rightarrow> byte list \<Rightarrow> byte list option" where
  "blake2b_long_loop n produced out_buffer out =
     (if n - produced > 64
      then (case blake2b_hash 64 out_buffer of
              None \<Rightarrow> None
            | Some d \<Rightarrow> blake2b_long_loop n (produced + 32) d (out @ take 32 d))
      else (case blake2b_hash (n - produced) out_buffer of
              None \<Rightarrow> None
            | Some d \<Rightarrow> Some (out @ d)))"
  by pat_completeness auto
termination
  by (relation "measure (\<lambda>(n, produced, d, out). n - produced)") auto

declare blake2b_long_loop.simps [simp del]

definition blake2b_long :: "nat \<Rightarrow> byte list \<Rightarrow> byte list option" where
  "blake2b_long n inp =
     (if n = 0 then None
      else if n \<le> 64
      then (case blake2b_init n of None \<Rightarrow> None
            | Some S \<Rightarrow> blake2b_final
                (blake2b_update (blake2b_update S (store32_le (of_nat n))) inp) n)
      else (case blake2b_init 64 of None \<Rightarrow> None
            | Some S \<Rightarrow>
                (case blake2b_final
                    (blake2b_update (blake2b_update S (store32_le (of_nat n))) inp) 64 of
                   None \<Rightarrow> None
                 | Some d \<Rightarrow> blake2b_long_loop n 32 d (take 32 d))))"

section \<open>Reference definition (RFC 7693)\<close>

text \<open>\<open>ref_absorb hh n msg\<close> absorbs the message \<open>msg\<close> after \<open>n\<close> bytes have been counted.\<close>

function ref_absorb :: "u64 list \<Rightarrow> nat \<Rightarrow> byte list \<Rightarrow> u64 list" where
  "ref_absorb hh n msg =
     (if length msg > 128
      then ref_absorb
             (compress_h hh (of_nat (n + 128)) (of_nat ((n + 128) div 2 ^ 64)) (take 128 msg) False)
             (n + 128) (drop 128 msg)
      else compress_h hh (of_nat (n + length msg)) (of_nat ((n + length msg) div 2 ^ 64))
             (msg @ replicate (128 - length msg) 0) True)"
  by pat_completeness auto
termination
  by (relation "measure (\<lambda>(hh, n, msg). length msg)") auto

declare ref_absorb.simps [simp del]

definition blake2b_ref :: "nat \<Rightarrow> byte list \<Rightarrow> byte list" where
  "blake2b_ref n msg =
     take n (concat (map store64_le
       (ref_absorb (blake2b_iv[0 := blake2b_iv ! 0 XOR (0x01010000 XOR of_nat n)]) 0 msg)))"

section \<open>Lengths and byte order\<close>

lemma length_store64_le [simp]: "length (store64_le w) = 8"
  by (simp add: store64_le_def)

lemma length_store32_le [simp]: "length (store32_le w) = 4"
  by (simp add: store32_le_def)

lemma load64_store64 [bytes]: "load64_le (store64_le w @ rest) = w"
proof -
  have "load64_le (store64_le w @ rest) = le_load (le_store 8 w)"
    by (simp add: load64_le_def store64_le_def drop_bit_drop_bit push_bit_or)
  then show ?thesis by (simp del: le_store_numeral)
qed


lemma length_B2B_G [simp]: "length (B2B_G v a b c d x y) = length v"
  by (simp add: B2B_G_def Let_def)

lemma length_compress_h [simp]: "length (compress_h hh c0 c1 block is_last) = 8"
  by (simp add: compress_h_def Let_def)

lemma length_blake2b_iv [simp]: "length blake2b_iv = 8"
  by (simp add: blake2b_iv_def)

lemma length_concat_store64 [simp]: "length (concat (map store64_le ws)) = 8 * length ws"
  by (induction ws) auto

section \<open>The 128-bit byte counter\<close>

text \<open>\<open>counts S n\<close>: the two counter words of \<open>S\<close> hold \<open>n\<close> modulo \<open>2 ^ 128\<close>.\<close>

definition counts :: "blake2b_state \<Rightarrow> nat \<Rightarrow> bool" where
  "counts S n \<longleftrightarrow> t0 S = of_nat n \<and> t1 S = of_nat (n div 2 ^ 64)"

lemma of_nat_less_inc:
  assumes "k < 2 ^ 64"
  shows "(of_nat (n + k) :: u64) < of_nat k \<longleftrightarrow> (n mod 2 ^ 64) + k \<ge> 2 ^ 64"
proof -
  have "(of_nat (n + k) :: u64) < of_nat k \<longleftrightarrow> (n + k) mod 2 ^ 64 < k"
    using assms by (simp add: word_less_nat_alt unat_of_nat del: of_nat_add)
  also have "(n + k) mod 2 ^ 64 = ((n mod 2 ^ 64) + k) mod 2 ^ 64"
    by (simp add: mod_simps)
  also have "\<dots> < k \<longleftrightarrow> (n mod 2 ^ 64) + k \<ge> 2 ^ 64"
  proof (cases "(n mod 2 ^ 64) + k < 2 ^ 64")
    case True
    then show ?thesis by simp
  next
    case False
    moreover have "n mod 2 ^ 64 < 2 ^ 64" by simp
    ultimately have "((n mod 2 ^ 64) + k) mod 2 ^ 64 = (n mod 2 ^ 64) + k - 2 ^ 64"
      using assms by (subst mod_if) (simp add: le_mod_geq)
    moreover have "n mod 2 ^ 64 < 2 ^ 64" by simp
    ultimately show ?thesis using False assms by linarith
  qed
  finally show ?thesis .
qed

lemma counts_increment:
  assumes "counts S n" "k < 2 ^ 64"
  shows "counts (blake2b_increment_counter S (of_nat k)) (n + k)"
proof -
  have "(n + k) div 2 ^ 64 = n div 2 ^ 64 + ((n mod 2 ^ 64) + k) div 2 ^ 64"
    using div_add1_eq [of n k "2 ^ 64"] assms(2) by simp
  also have "((n mod 2 ^ 64) + k) div 2 ^ 64 = (if (n mod 2 ^ 64) + k \<ge> 2 ^ 64 then 1 else 0)"
  proof -
    have "(n mod 2 ^ 64) + k < 2 ^ 64 + 2 ^ 64"
      by (rule add_strict_mono) (use assms(2) in simp_all)
    then show ?thesis by (cases "(n mod 2 ^ 64) + k \<ge> 2 ^ 64") (auto simp: div_if)
  qed
  finally have carry: "(n + k) div 2 ^ 64 =
      n div 2 ^ 64 + (if (n mod 2 ^ 64) + k \<ge> 2 ^ 64 then 1 else 0)" .
  show ?thesis
    using assms(1) of_nat_less_inc [OF assms(2), of n]
    by (simp add: counts_def blake2b_increment_counter_def Let_def carry del: power_numeral)
qed


section \<open>Chunking does not matter\<close>

lemma compress_buf [simp]:
  "blake2b_compress (S\<lparr>buf := b\<rparr>) block l = (blake2b_compress S block l)\<lparr>buf := b\<rparr>"
  "buf (blake2b_compress S block l) = buf S"
  "outlen (blake2b_compress S block l) = outlen S"
  "h (blake2b_compress S block l) = compress_h (h S) (t0 S) (t1 S) block l"
  "t0 (blake2b_compress S block l) = t0 S" "t1 (blake2b_compress S block l) = t1 S"
  by (simp_all add: blake2b_compress_def)

lemma increment_buf [simp]:
  "blake2b_increment_counter (S\<lparr>buf := b\<rparr>) k = (blake2b_increment_counter S k)\<lparr>buf := b\<rparr>"
  "buf (blake2b_increment_counter S k) = buf S"
  "outlen (blake2b_increment_counter S k) = outlen S"
  "h (blake2b_increment_counter S k) = h S"
  by (simp_all add: blake2b_increment_counter_def Let_def)

lemma update_loop_frame:
  "blake2b_update_loop (S\<lparr>buf := b\<rparr>) inp =
     (case blake2b_update_loop S inp of (S', r) \<Rightarrow> (S'\<lparr>buf := b\<rparr>, r))"
proof (induction S inp rule: blake2b_update_loop.induct)
  case (1 S inp)
  then show ?case
    by (simp add: blake2b_update_loop.simps [of S inp] blake2b_update_loop.simps [of "S\<lparr>buf := b\<rparr>" inp])
qed

lemma update_loop_result:
  "buf (fst (blake2b_update_loop S inp)) = buf S \<and>
   outlen (fst (blake2b_update_loop S inp)) = outlen S \<and>
   length (snd (blake2b_update_loop S inp)) \<le> min 128 (length inp)"
proof (induction S inp rule: blake2b_update_loop.induct)
  case (1 S inp)
  then show ?case by (auto simp: blake2b_update_loop.simps [of S inp])
qed

lemma update_loop_append:
  "blake2b_update_loop S (xs @ ys) =
     (case blake2b_update_loop S xs of (S', r) \<Rightarrow> blake2b_update_loop S' (r @ ys))"
proof (induction S xs rule: blake2b_update_loop.induct)
  case (1 S xs)
  show ?case
  proof (cases "length xs > 128")
    case True
    with 1 show ?thesis
      by (simp add: blake2b_update_loop.simps [of S xs] blake2b_update_loop.simps [of S "xs @ ys"])
  next
    case False
    then show ?thesis by (simp add: blake2b_update_loop.simps [of S xs])
  qed
qed

lemma blake2b_update_eq:
  assumes "length (buf S) \<le> 128"
  shows "blake2b_update S inp =
    (case blake2b_update_loop S (buf S @ inp) of (S', r) \<Rightarrow> S'\<lparr>buf := r\<rparr>)"
proof (cases "length (buf S @ inp) > 128")
  case True
  with assms show ?thesis
    by (simp add: blake2b_update_def Let_def blake2b_update_loop.simps [of S "buf S @ inp"]
        split: prod.split)
next
  case False
  with assms show ?thesis
    by (simp add: blake2b_update_def Let_def blake2b_update_loop.simps [of S "buf S @ inp"])
qed

definition b2b_inv :: "blake2b_state \<Rightarrow> bool" where
  "b2b_inv S \<longleftrightarrow> length (buf S) \<le> 128"

interpretation b2b: streaming blake2b_update b2b_inv
proof
  fix S xs ys
  assume "b2b_inv S"
  then have S: "length (buf S) \<le> 128" by (simp add: b2b_inv_def)
  then show "blake2b_update S [] = S"
    by (simp add: blake2b_update_def)
  obtain S1 r1 where 1: "blake2b_update_loop S (buf S @ xs) = (S1, r1)" by fastforce
  have r1: "length r1 \<le> 128"
    using update_loop_result [of S "buf S @ xs"] 1 by simp
  have upd: "blake2b_update S xs = S1\<lparr>buf := r1\<rparr>"
    using S 1 by (simp add: blake2b_update_eq)
  with r1 show "b2b_inv (blake2b_update S xs)" by (simp add: b2b_inv_def)
  show "blake2b_update S (xs @ ys) = blake2b_update (blake2b_update S xs) ys"
    using S r1 1 update_loop_append [of S "buf S @ xs" ys]
    by (simp add: upd blake2b_update_eq update_loop_frame split: prod.split)
qed

section \<open>Refinement of the reference definition\<close>

lemma update_loop_ref:
  assumes "counts S n"
  shows "counts (fst (blake2b_update_loop S msg)) (n + (length msg - length (snd (blake2b_update_loop S msg)))) \<and>
    ref_absorb (h S) n msg =
      ref_absorb (h (fst (blake2b_update_loop S msg)))
        (n + (length msg - length (snd (blake2b_update_loop S msg)))) (snd (blake2b_update_loop S msg))"
  using assms
proof (induction S msg arbitrary: n rule: blake2b_update_loop.induct)
  case (1 S msg)
  show ?case
  proof (cases "length msg > 128")
    case True
    let ?S = "blake2b_compress (blake2b_increment_counter S 128) (take 128 msg) False"
    let ?L = "blake2b_update_loop ?S (drop 128 msg)"
    have cnt: "counts (blake2b_increment_counter S 128) (n + 128)"
      using counts_increment [OF "1.prems", of 128] by simp
    then have "counts ?S (n + 128)" by (simp add: counts_def)
    from "1.IH" [OF True this]
    have IH: "counts (fst ?L) (n + 128 + (length msg - 128 - length (snd ?L)))"
      "ref_absorb (h ?S) (n + 128) (drop 128 msg) =
       ref_absorb (h (fst ?L)) (n + 128 + (length msg - 128 - length (snd ?L))) (snd ?L)"
      by simp_all
    have le: "length (snd ?L) \<le> length msg - 128"
      using update_loop_result [of ?S "drop 128 msg"] by simp
    have n: "n + (length msg - length (snd ?L)) = n + 128 + (length msg - 128 - length (snd ?L))"
      using True le by simp
    have "t0 (blake2b_increment_counter S 128) = of_nat (n + 128)"
      "t1 (blake2b_increment_counter S 128) = of_nat ((n + 128) div 2 ^ 64)"
      using cnt by (simp_all only: counts_def)
    then have ref: "ref_absorb (h S) n msg = ref_absorb (h ?S) (n + 128) (drop 128 msg)"
      using True by (subst ref_absorb.simps) (simp only: if_True compress_buf increment_buf)
    have L: "blake2b_update_loop S msg = ?L"
      using True by (subst blake2b_update_loop.simps) simp
    show ?thesis
      unfolding L n ref by (rule conjI) (fact IH)+
  next
    case False
    with "1.prems" show ?thesis by (simp add: blake2b_update_loop.simps [of S msg])
  qed
qed


text \<open>What a caller gets who feeds \<open>inp\<close> to a state that has already absorbed \<open>n\<close> bytes.\<close>

lemma blake2b_final_update:
  assumes "counts S n" "b2b_inv S"
  shows "blake2b_final (blake2b_update S inp) (outlen S) =
    Some (take (outlen S) (concat (map store64_le (ref_absorb (h S) n (buf S @ inp)))))"
proof -
  obtain S' r where L: "blake2b_update_loop S (buf S @ inp) = (S', r)" by fastforce
  define k where "k = n + (length (buf S @ inp) - length r)"
  from update_loop_ref [OF assms(1), of "buf S @ inp"] L
  have cnt: "counts S' k" and ref: "ref_absorb (h S) n (buf S @ inp) = ref_absorb (h S') k r"
    by (simp_all add: k_def)
  from update_loop_result [of S "buf S @ inp"] L
  have r: "length r \<le> 128" and o: "outlen S' = outlen S" by simp_all
  have "counts (blake2b_increment_counter S' (of_nat (length r))) (k + length r)"
    using counts_increment [OF cnt, of "length r"] r by simp
  with r o show ?thesis
    using assms(2) by (simp add: b2b_inv_def blake2b_update_eq L blake2b_final_def Let_def ref
        ref_absorb.simps [of _ k r] counts_def)
qed

lemma blake2b_init_Some:
  assumes "0 < n" "n \<le> 64"
  shows "\<exists>S. blake2b_init n = Some S \<and> counts S 0 \<and> b2b_inv S \<and> outlen S = n \<and> buf S = [] \<and>
    h S = blake2b_iv[0 := blake2b_iv ! 0 XOR (0x01010000 XOR of_nat n)]"
  using assms by (auto simp: blake2b_init_def counts_def b2b_inv_def)

lemma blake2b_feed_ref:
  assumes "0 < n" "n \<le> 64"
  shows "\<exists>S. blake2b_init n = Some S \<and>
    (\<forall>chunks. blake2b_final (foldl blake2b_update S chunks) n = Some (blake2b_ref n (concat chunks)))"
proof -
  obtain S where S: "blake2b_init n = Some S" "counts S 0" "b2b_inv S" "outlen S = n" "buf S = []"
    "h S = blake2b_iv[0 := blake2b_iv ! 0 XOR (0x01010000 XOR of_nat n)]"
    using blake2b_init_Some [OF assms] by blast
  then show ?thesis
    using blake2b_final_update [OF S(2,3)] b2b.feed_concat [OF S(3)]
    by (auto simp: blake2b_ref_def)
qed

lemma blake2b_hash_ref:
  "blake2b_hash n msg = (if n = 0 \<or> 64 < n then None else Some (blake2b_ref n msg))"
proof (cases "n = 0 \<or> 64 < n")
  case True
  then show ?thesis by (auto simp: blake2b_hash_def blake2b_init_def)
next
  case False
  then obtain S where "blake2b_init n = Some S"
    "\<And>chunks. blake2b_final (foldl blake2b_update S chunks) n = Some (blake2b_ref n (concat chunks))"
    using blake2b_feed_ref [of n] by auto
  from this(1) this(2) [of "[msg]"] False show ?thesis
    by (simp add: blake2b_hash_def)
qed

lemma length_ref_absorb [simp]: "length (ref_absorb hh n msg) = 8"
  by (induction hh n msg rule: ref_absorb.induct) (subst ref_absorb.simps, simp)

lemma length_blake2b_ref [simp]: "n \<le> 64 \<Longrightarrow> length (blake2b_ref n msg) = n"
  by (simp add: blake2b_ref_def)

section \<open>The variable-length hash\<close>

text \<open>\<open>H'\<close> of the Argon2 specification, over the reference BLAKE2b.\<close>

function long_ref_tail :: "nat \<Rightarrow> byte list \<Rightarrow> byte list" where
  "long_ref_tail n d =
     (if n > 64 then take 32 (blake2b_ref 64 d) @ long_ref_tail (n - 32) (blake2b_ref 64 d)
      else blake2b_ref n d)"
  by pat_completeness auto
termination
  by (relation "measure (\<lambda>(n, d). n)") auto

declare long_ref_tail.simps [simp del]

definition blake2b_long_ref :: "nat \<Rightarrow> byte list \<Rightarrow> byte list" where
  "blake2b_long_ref n inp =
     (let x = store32_le (of_nat n) @ inp
      in if n \<le> 64 then blake2b_ref n x
         else take 32 (blake2b_ref 64 x) @ long_ref_tail (n - 32) (blake2b_ref 64 x))"

lemma blake2b_long_loop_ref:
  "produced < n \<Longrightarrow> blake2b_long_loop n produced d out = Some (out @ long_ref_tail (n - produced) d)"
proof (induction n produced d out rule: blake2b_long_loop.induct)
  case (1 n produced d out)
  show ?case
  proof (cases "n - produced > 64")
    case True
    have "blake2b_long_loop n (produced + 32) (blake2b_ref 64 d) (out @ take 32 (blake2b_ref 64 d)) =
      Some ((out @ take 32 (blake2b_ref 64 d)) @ long_ref_tail (n - (produced + 32)) (blake2b_ref 64 d))"
      using True by (intro "1.IH") (simp_all add: blake2b_hash_ref)
    with True show ?thesis
      by (simp add: blake2b_long_loop.simps [of n produced] long_ref_tail.simps [of "n - produced"]
          blake2b_hash_ref diff_diff_eq)
  next
    case False
    with "1.prems" show ?thesis
      by (simp add: blake2b_long_loop.simps [of n produced] long_ref_tail.simps [of "n - produced"]
          blake2b_hash_ref)
  qed
qed

lemma blake2b_long_total:
  "0 < n \<Longrightarrow> blake2b_long n inp = Some (blake2b_long_ref n inp)"
proof -
  assume n: "0 < n"
  obtain S where S: "blake2b_init (min n 64) = Some S"
    "\<And>chunks. blake2b_final (foldl blake2b_update S chunks) (min n 64) =
       Some (blake2b_ref (min n 64) (concat chunks))"
    using blake2b_feed_ref [of "min n 64"] n by auto
  from S(1) S(2) [of "[store32_le (of_nat n), inp]"] n show ?thesis
    by (cases "n \<le> 64")
       (simp_all add: blake2b_long_def blake2b_long_ref_def Let_def min_def blake2b_long_loop_ref)
qed

lemma length_long_ref_tail: "0 < n \<Longrightarrow> length (long_ref_tail n d) = n"
proof (induction n d rule: long_ref_tail.induct)
  case (1 n d)
  then show ?case by (simp add: long_ref_tail.simps [of n d])
qed

lemma length_blake2b_long_ref: "0 < n \<Longrightarrow> length (blake2b_long_ref n inp) = n"
  by (simp add: blake2b_long_ref_def Let_def length_long_ref_tail)

end
