(* ===== verification/UA_Argon2.thy ===== *)
theory UA_Argon2
  imports UA_Base64 UA_Blake2b UA_Strings
begin

unbundle bit_operations_syntax

text \<open>
  Argon2id as \<^verbatim>\<open>tools/eclipse-useradd/eclipse-useradd.c\<close> implements it (one lane): the block
  function, the indexing of the reference block, \<open>argon2id_hash_raw\<close>, the encoded form
  \<open>$argon2id$v=..$m=..,t=..,p=..$salt$hash\<close>, \<open>argon2id_verify\<close> and \<open>create_password_hash\<close>.

  A block is the list of its 128 words, the memory a list of blocks. Two outcomes besides a hash
  are kept apart: \<open>Failed\<close> is the return value \<open>-1\<close>, \<open>Overrun\<close> a write past the end of the
  1024-byte stack buffer \<open>buf\<close>, which the C code does not check. The answer of \<open>calloc\<close> is the
  argument \<open>calloc_ok\<close>, a function of the number of blocks; the salt is what was read from
  \<open>/dev/urandom\<close> (\<open>None\<close> when it could not be opened).
\<close>

type_synonym argon2_block = "u64 list"

datatype argon2_fault = Failed | Overrun

abbreviation (input) ARGON2_VERSION :: u32 where "ARGON2_VERSION \<equiv> 0x13"
abbreviation (input) ARGON2_TYPE_ID :: u32 where "ARGON2_TYPE_ID \<equiv> 2"
abbreviation (input) ARGON2_SALT_LEN :: nat where "ARGON2_SALT_LEN \<equiv> 16"
abbreviation (input) ARGON2_HASH_LEN :: nat where "ARGON2_HASH_LEN \<equiv> 32"
abbreviation (input) ARGON2_M_COST :: u32 where "ARGON2_M_COST \<equiv> 65536"
abbreviation (input) ARGON2_T_COST :: u32 where "ARGON2_T_COST \<equiv> 3"
abbreviation (input) ARGON2_PARALLELISM :: u32 where "ARGON2_PARALLELISM \<equiv> 1"

section \<open>The block function\<close>

definition fBlaMka :: "u64 \<Rightarrow> u64 \<Rightarrow> u64" where
  "fBlaMka x y = x + y + 2 * ucast (ucast x :: u32) * ucast (ucast y :: u32)"

definition ARGON2_G :: "u64 list \<Rightarrow> nat \<Rightarrow> nat \<Rightarrow> nat \<Rightarrow> nat \<Rightarrow> u64 list" where
  "ARGON2_G v a b c d =
     (let v = v[a := fBlaMka (v ! a) (v ! b)];
          v = v[d := rotr64 (v ! d XOR v ! a) 32];
          v = v[c := fBlaMka (v ! c) (v ! d)];
          v = v[b := rotr64 (v ! b XOR v ! c) 24];
          v = v[a := fBlaMka (v ! a) (v ! b)];
          v = v[d := rotr64 (v ! d XOR v ! a) 16];
          v = v[c := fBlaMka (v ! c) (v ! d)]
      in v[b := rotr64 (v ! b XOR v ! c) 63])"

definition argon2_round :: "u64 list \<Rightarrow> u64 list" where
  "argon2_round v =
     (let v = ARGON2_G v 0 4 8 12;
          v = ARGON2_G v 1 5 9 13;
          v = ARGON2_G v 2 6 10 14;
          v = ARGON2_G v 3 7 11 15;
          v = ARGON2_G v 0 5 10 15;
          v = ARGON2_G v 1 6 11 12;
          v = ARGON2_G v 2 7 8 13
      in ARGON2_G v 3 4 9 14)"

text \<open>The rows: \<open>argon2_round(&block_z.v[i * 16])\<close>.\<close>

definition fill_row :: "u64 list \<Rightarrow> nat \<Rightarrow> u64 list" where
  "fill_row z i = take (i * 16) z @ argon2_round (take 16 (drop (i * 16) z)) @ drop (i * 16 + 16) z"

text \<open>The columns: sixteen words are gathered into \<open>tmp\<close>, mixed, and scattered back.\<close>

definition fill_idx :: "nat \<Rightarrow> nat \<Rightarrow> nat" where
  "fill_idx i j = j mod 2 + i * 2 + (j div 2) * 16"

definition fill_col :: "u64 list \<Rightarrow> nat \<Rightarrow> u64 list" where
  "fill_col z i =
     (let tmp = argon2_round (map (\<lambda>j. z ! fill_idx i j) [0..<16])
      in foldl (\<lambda>z j. z[fill_idx i j := tmp ! j]) z [0..<16])"

definition argon2_fill_block ::
  "argon2_block \<Rightarrow> argon2_block \<Rightarrow> argon2_block \<Rightarrow> bool \<Rightarrow> argon2_block" where
  "argon2_fill_block prev ref nxt with_xor =
     (let r = map (\<lambda>i. prev ! i XOR ref ! i) [0..<128];
          z = map (\<lambda>i. if with_xor then r ! i XOR nxt ! i else r ! i) [0..<128];
          z = foldl fill_row z [0..<8];
          z = foldl fill_col z [0..<8]
      in map (\<lambda>i. z ! i XOR r ! i) [0..<128])"

definition zero_block :: argon2_block where
  "zero_block = replicate 128 0"

text \<open>The result is the new \<open>address_block\<close> and the \<open>input_block\<close> with its counter advanced.\<close>

definition argon2_generate_addresses :: "argon2_block \<Rightarrow> argon2_block \<Rightarrow> argon2_block \<times> argon2_block" where
  "argon2_generate_addresses address_block input_block =
     (let input_block = input_block[6 := input_block ! 6 + 1];
          tmp = argon2_fill_block zero_block input_block zero_block False
      in (argon2_fill_block zero_block tmp address_block False, input_block))"

section \<open>The reference block\<close>

definition reference_area_size :: "u32 \<Rightarrow> u32 \<Rightarrow> u32 \<Rightarrow> u32 \<Rightarrow> u32 \<Rightarrow> u32" where
  "reference_area_size pass slc index lane_length segment_length =
     (if pass = 0 then if slc = 0 then index - 1 else slc * segment_length + index - 1
      else lane_length - segment_length + index - 1)"

definition argon2_index_alpha :: "u32 \<Rightarrow> u32 \<Rightarrow> u32 \<Rightarrow> u32 \<Rightarrow> u32 \<Rightarrow> u64 \<Rightarrow> u32" where
  "argon2_index_alpha pass slc index lane_length segment_length pseudo_rand =
     (let area = reference_area_size pass slc index lane_length segment_length
      in if area = 0 then 0
         else let rel = pseudo_rand AND 0xffffffff;
                  rel = drop_bit 32 (rel * rel);
                  rel = ucast area - 1 - drop_bit 32 (ucast area * rel);
                  start = (if pass \<noteq> 0 then ((slc + 1) * segment_length) mod lane_length else 0)
              in (start + ucast rel) mod lane_length)"

section \<open>Hashing\<close>

definition block_of_bytes :: "byte list \<Rightarrow> argon2_block" where
  "block_of_bytes bs = map (\<lambda>i. load64_le (drop (8 * i) bs)) [0..<128]"

definition bytes_of_block :: "argon2_block \<Rightarrow> byte list" where
  "bytes_of_block b = concat (map store64_le b)"

text \<open>A \<open>blake2b_long\<close> that fails is ignored, as the cast to \<open>void\<close> says.\<close>

definition init_block :: "byte list \<Rightarrow> u32 \<Rightarrow> u32 \<Rightarrow> argon2_block \<Rightarrow> argon2_block" where
  "init_block h0 k lane old =
     (case blake2b_long 1024 (take 64 h0 @ store32_le k @ store32_le lane) of
        None \<Rightarrow> old | Some bs \<Rightarrow> block_of_bytes bs)"

definition argon2_initialize_memory :: "argon2_block list \<Rightarrow> byte list \<Rightarrow> nat \<Rightarrow> argon2_block list" where
  "argon2_initialize_memory memory h0 parallelism =
     foldl (\<lambda>m lane. let m = m[lane * 2 := init_block h0 0 (of_nat lane) (m ! (lane * 2))]
                     in m[lane * 2 + 1 := init_block h0 1 (of_nat lane) (m ! (lane * 2 + 1))])
           memory [0..<parallelism]"

text \<open>One iteration of the innermost loop on the memory, the input and the address block.\<close>

definition argon2_step :: "nat \<Rightarrow> nat \<Rightarrow> nat \<Rightarrow> nat \<Rightarrow> argon2_block list \<times> argon2_block \<times> argon2_block
    \<Rightarrow> nat \<Rightarrow> argon2_block list \<times> argon2_block \<times> argon2_block" where
  "argon2_step pass slc lane_length segment_length st index =
     (let (memory, input_block, address_block) = st;
          start_index = (if pass = 0 \<and> slc = 0 then 2 else 0);
          data_independent = (pass = 0 \<and> slc < 2);
          curr = slc * segment_length + index;
          prev = (if curr = 0 then lane_length - 1 else curr - 1);
          (address_block, input_block) =
            (if data_independent \<and> (index - start_index) mod 128 = 0
             then argon2_generate_addresses address_block input_block
             else (address_block, input_block));
          pseudo_rand = (if data_independent then address_block ! ((index - start_index) mod 128)
                         else memory ! prev ! 0);
          ref_index = argon2_index_alpha (of_nat pass) (of_nat slc) (of_nat index)
            (of_nat lane_length) (of_nat segment_length) pseudo_rand
      in (memory[curr := argon2_fill_block (memory ! prev) (memory ! unat ref_index) (memory ! curr) (pass \<noteq> 0)],
          input_block, address_block))"

definition argon2_segment :: "nat \<Rightarrow> nat \<Rightarrow> nat \<Rightarrow> u32 \<Rightarrow> nat \<Rightarrow> argon2_block list \<Rightarrow> nat \<Rightarrow> argon2_block list" where
  "argon2_segment memory_blocks lane_length segment_length t_cost pass memory slc =
     (let start_index = (if pass = 0 \<and> slc = 0 then 2 else 0);
          input_block =
            (if pass = 0 \<and> slc < 2
             then [of_nat pass, 0, of_nat slc, of_nat memory_blocks, ucast t_cost, ucast ARGON2_TYPE_ID]
                  @ replicate 122 0
             else zero_block)
      in fst (foldl (argon2_step pass slc lane_length segment_length)
                (memory, input_block, zero_block) [start_index..<segment_length]))"

definition argon2_passes :: "nat \<Rightarrow> nat \<Rightarrow> nat \<Rightarrow> u32 \<Rightarrow> argon2_block list \<Rightarrow> argon2_block list" where
  "argon2_passes memory_blocks lane_length segment_length t_cost memory =
     foldl (\<lambda>m pass. foldl (argon2_segment memory_blocks lane_length segment_length t_cost pass) m [0..<4])
       memory [0..<unat t_cost]"

text \<open>The bytes hashed into \<open>h0\<close>: parameters, password, salt, and two empty inputs.\<close>

definition argon2_h0_input :: "u32 \<Rightarrow> u32 \<Rightarrow> u32 \<Rightarrow> byte list \<Rightarrow> byte list \<Rightarrow> nat \<Rightarrow> byte list" where
  "argon2_h0_input t_cost m_cost parallelism pwd salt hashlen =
     store32_le parallelism @ store32_le (of_nat hashlen) @ store32_le m_cost @ store32_le t_cost @
     store32_le ARGON2_VERSION @ store32_le ARGON2_TYPE_ID @
     store32_le (of_nat (length pwd)) @ pwd @ store32_le (of_nat (length salt)) @ salt @
     store32_le 0 @ store32_le 0 @ store32_le 0 @ store32_le 0"

definition argon2id_hash_raw :: "(u32 \<Rightarrow> bool) \<Rightarrow> u32 \<Rightarrow> u32 \<Rightarrow> u32 \<Rightarrow> byte list \<Rightarrow> byte list \<Rightarrow> nat
    \<Rightarrow> argon2_fault + byte list" where
  "argon2id_hash_raw calloc_ok t_cost m_cost parallelism pwd salt hashlen =
     (if parallelism \<noteq> 1 \<or> hashlen = 0 \<or> salt = [] then Inl Failed
      else
        let m_cost = (if m_cost < 8 * parallelism then 8 * parallelism else m_cost);
            memory_blocks = (m_cost div (4 * parallelism)) * (4 * parallelism);
            memory_blocks = (if memory_blocks < 8 * parallelism then 8 * parallelism else memory_blocks);
            lane_length = memory_blocks div parallelism;
            segment_length = lane_length div 4
        in case blake2b_init 64 of
             None \<Rightarrow> Inl Failed
           | Some S \<Rightarrow>
               let buf = argon2_h0_input t_cost m_cost parallelism pwd salt hashlen
               in if length buf > 1024 then Inl Overrun
                  else case blake2b_final (blake2b_update S buf) 64 of
                         None \<Rightarrow> Inl Failed
                       | Some h0 \<Rightarrow>
                           if \<not> calloc_ok memory_blocks then Inl Failed
                           else
                             let memory = replicate (unat memory_blocks) zero_block;
                                 memory = argon2_initialize_memory memory h0 (unat parallelism);
                                 memory = argon2_passes (unat memory_blocks) (unat lane_length)
                                            (unat segment_length) t_cost memory
                             in case blake2b_long hashlen
                                       (bytes_of_block (memory ! unat (lane_length - 1))) of
                                  None \<Rightarrow> Inl Failed
                                | Some out \<Rightarrow> Inr out)"

section \<open>The encoded form\<close>

definition show_u32 :: "u32 \<Rightarrow> string" where
  "show_u32 w = show_nat (unat w)"

definition argon2_format :: "u32 \<Rightarrow> u32 \<Rightarrow> u32 \<Rightarrow> string \<Rightarrow> string \<Rightarrow> string" where
  "argon2_format t_cost m_cost parallelism salt_b64 hash_b64 =
     ''$argon2id$v='' @ show_u32 ARGON2_VERSION @ ''$m='' @ show_u32 m_cost @ '',t='' @ show_u32 t_cost @
     '',p='' @ show_u32 parallelism @ ''$'' @ salt_b64 @ ''$'' @ hash_b64"

definition argon2id_hash_encoded :: "(u32 \<Rightarrow> bool) \<Rightarrow> u32 \<Rightarrow> u32 \<Rightarrow> u32 \<Rightarrow> byte list \<Rightarrow> byte list \<Rightarrow> nat
    \<Rightarrow> nat \<Rightarrow> argon2_fault + string" where
  "argon2id_hash_encoded calloc_ok t_cost m_cost parallelism pwd salt hashlen encodedlen =
     (if hashlen > 64 then Inl Failed
      else case argon2id_hash_raw calloc_ok t_cost m_cost parallelism pwd salt hashlen of
             Inl e \<Rightarrow> Inl e
           | Inr hash \<Rightarrow>
               (case (base64_encode 64 salt, base64_encode 128 hash) of
                  (Some salt_b64, Some hash_b64) \<Rightarrow>
                    let encoded = argon2_format t_cost m_cost parallelism salt_b64 hash_b64
                    in if length encoded \<ge> encodedlen then Inl Failed else Inr encoded
                | _ \<Rightarrow> Inl Failed))"

fun ct_diff :: "byte list \<Rightarrow> byte list \<Rightarrow> nat \<Rightarrow> byte \<Rightarrow> byte" where
  "ct_diff a b 0 diff = diff"
| "ct_diff a b (Suc n) diff = ct_diff (tl a) (tl b) n (diff OR (hd a XOR hd b))"

definition constant_time_eq :: "byte list \<Rightarrow> byte list \<Rightarrow> nat \<Rightarrow> bool" where
  "constant_time_eq a b len \<longleftrightarrow> ct_diff a b len 0 = 0"

text \<open>The \<open>while (*p != 0 && idx < 6)\<close> loop: \<open>k\<close> is \<open>6 - idx\<close>.\<close>

fun split_parts :: "nat \<Rightarrow> string \<Rightarrow> string list" where
  "split_parts 0 p = []"
| "split_parts (Suc k) p =
     (if p = [] then []
      else let p = (if hd p = CHR ''$'' then tl p else p);
               part = takeWhile (\<lambda>c. c \<noteq> CHR ''$'') p
           in case dropWhile (\<lambda>c. c \<noteq> CHR ''$'') p of
                [] \<Rightarrow> [part]
              | d # rest \<Rightarrow> part # split_parts k rest)"

text \<open>A literal prefix and a \<open>%u\<close> conversion into a 32-bit variable.\<close>

fun scan_str :: "string \<Rightarrow> string \<Rightarrow> string option" where
  "scan_str [] s = Some s"
| "scan_str (c # cs) s = Option.bind (scan_lit c s) (scan_str cs)"

definition scan_u32 :: "string \<Rightarrow> (u32 \<times> string) option" where
  "scan_u32 s = map_option (\<lambda>(v, r). (ucast v, r)) (scan_u s)"

definition scan_version :: "string \<Rightarrow> u32 option" where
  "scan_version s =
     Option.bind (scan_str ''v='' s) (\<lambda>r. map_option fst (scan_u32 r))"

definition scan_params :: "string \<Rightarrow> (u32 \<times> u32 \<times> u32) option" where
  "scan_params s =
     Option.bind (scan_str ''m='' s) (\<lambda>r. Option.bind (scan_u32 r) (\<lambda>(m_cost, r).
     Option.bind (scan_str '',t='' r) (\<lambda>r. Option.bind (scan_u32 r) (\<lambda>(t_cost, r).
     Option.bind (scan_str '',p='' r) (\<lambda>r. Option.bind (scan_u32 r) (\<lambda>(parallelism, r).
     Some (m_cost, t_cost, parallelism)))))))"

definition argon2id_verify :: "(u32 \<Rightarrow> bool) \<Rightarrow> string \<Rightarrow> byte list \<Rightarrow> argon2_fault + unit" where
  "argon2id_verify calloc_ok encoded pwd =
     (case string_copy MAX_HASH encoded of
        None \<Rightarrow> Inl Failed
      | Some copy \<Rightarrow>
          let parts = split_parts 6 copy
          in if length parts \<noteq> 5 \<or> parts ! 0 \<noteq> ''argon2id'' then Inl Failed
             else if scan_version (parts ! 1) \<noteq> Some ARGON2_VERSION then Inl Failed
             else case scan_params (parts ! 2) of
                    None \<Rightarrow> Inl Failed
                  | Some (m_cost, t_cost, parallelism) \<Rightarrow>
                      (case (base64_decode 64 (parts ! 3), base64_decode 64 (parts ! 4)) of
                         (Some salt, Some expected) \<Rightarrow>
                           if salt = [] \<or> expected = [] then Inl Failed
                           else (case argon2id_hash_raw calloc_ok t_cost m_cost parallelism pwd salt
                                        (length expected) of
                                   Inl e \<Rightarrow> Inl e
                                 | Inr actual \<Rightarrow>
                                     if constant_time_eq expected actual (length expected)
                                     then Inr () else Inl Failed)
                       | _ \<Rightarrow> Inl Failed))"

definition bytes_of_string :: "string \<Rightarrow> byte list" where
  "bytes_of_string s = map of_char s"

definition create_password_hash :: "(u32 \<Rightarrow> bool) \<Rightarrow> byte list option \<Rightarrow> string \<Rightarrow> nat \<Rightarrow> argon2_fault + string" where
  "create_password_hash calloc_ok urandom password encoded_len =
     (case urandom of
        None \<Rightarrow> Inl Failed
      | Some salt \<Rightarrow>
          if length salt \<noteq> ARGON2_SALT_LEN then Inl Failed
          else argon2id_hash_encoded calloc_ok ARGON2_T_COST ARGON2_M_COST ARGON2_PARALLELISM
                 (bytes_of_string password) salt ARGON2_HASH_LEN encoded_len)"

section \<open>Comparison and hashing always answer\<close>

lemma ct_diff_zero:
  "n \<le> length a \<Longrightarrow> n \<le> length b \<Longrightarrow> ct_diff a b n diff = 0 \<longleftrightarrow> diff = 0 \<and> take n a = take n b"
proof (induction a b n diff rule: ct_diff.induct)
  case (2 a b n diff)
  then obtain x xs y ys where ab: "a = x # xs" "b = y # ys" by (cases a; cases b) auto
  have or0: "(u OR v :: byte) = 0 \<longleftrightarrow> u = 0 \<and> v = 0" for u v
    by (auto simp: bit_eq_iff bit_simps)
  have xor0: "(x XOR y :: byte) = 0 \<longleftrightarrow> x = y"
    by (auto simp: bit_eq_iff bit_simps)
  from 2 ab show ?case by (auto simp: or0 xor0)
qed simp

lemma constant_time_eq_iff:
  "length a = n \<Longrightarrow> length b = n \<Longrightarrow> constant_time_eq a b n \<longleftrightarrow> a = b"
  by (simp add: constant_time_eq_def ct_diff_zero)

lemma length_argon2_h0_input:
  "length (argon2_h0_input t m p pwd salt hashlen) = 48 + length pwd + length salt"
  by (simp add: argon2_h0_input_def)

lemma argon2id_hash_raw_total:
  assumes "0 < hashlen" "salt \<noteq> []" "length pwd + length salt \<le> 976"
    "\<forall>n. calloc_ok n"
  shows "\<exists>out. argon2id_hash_raw calloc_ok t m 1 pwd salt hashlen = Inr out \<and> length out = hashlen"
proof -
  obtain S where S: "blake2b_init 64 = Some S"
    "\<And>chunks. blake2b_final (foldl blake2b_update S chunks) 64 = Some (blake2b_ref 64 (concat chunks))"
    using blake2b_feed_ref [of 64] by auto
  from S(2) [of "[buf]" for buf] have fin: "blake2b_final (blake2b_update S buf) 64 = Some (blake2b_ref 64 buf)" for buf
    by simp
  show ?thesis
    using assms S(1)
    by (simp add: argon2id_hash_raw_def Let_def length_argon2_h0_input fin blake2b_long_total
        length_blake2b_long_ref del: blake2b_iv_def)
qed

lemma argon2id_hash_raw_length:
  assumes "argon2id_hash_raw calloc_ok t m p pwd salt hashlen = Inr out"
  shows "length out = hashlen" "0 < hashlen" "salt \<noteq> []" "p = 1"
proof -
  show ne: "0 < hashlen" and "salt \<noteq> []" "p = 1"
    using assms by (auto simp: argon2id_hash_raw_def split: if_splits)
  show "length out = hashlen"
    using assms ne by (auto simp: argon2id_hash_raw_def Let_def blake2b_long_total
        length_blake2b_long_ref split: if_split_asm option.split_asm)
qed

section \<open>Password round trip\<close>

lemma split_parts_part:
  "p \<noteq> [] \<Longrightarrow> CHR ''$'' \<notin> set p \<Longrightarrow> split_parts (Suc k) (p @ CHR ''$'' # rest) = p # split_parts k rest"
proof -
  assume a: "p \<noteq> []" "CHR ''$'' \<notin> set p"
  then have "hd (p @ CHR ''$'' # rest) \<noteq> CHR ''$''" by (cases p) auto
  with a show ?thesis by (simp add: Let_def takeWhile_sep dropWhile_sep)
qed

lemma split_parts_last: "p \<noteq> [] \<Longrightarrow> CHR ''$'' \<notin> set p \<Longrightarrow> split_parts (Suc k) p = [p]"
proof -
  assume a: "p \<noteq> []" "CHR ''$'' \<notin> set p"
  then have "hd p \<noteq> CHR ''$''" by (cases p) auto
  with a show ?thesis by (simp add: Let_def takeWhile_no_sep dropWhile_no_sep)
qed

lemma show_u32_no_dollar [simp]: "CHR ''$'' \<notin> set (show_u32 w)"
  using show_nat_digits isdigit_not_special(9) by (fastforce simp: show_u32_def)

lemma scan_u32_show: "rest = [] \<or> \<not> isdigit (hd rest) \<Longrightarrow> scan_u32 (show_u32 w @ rest) = Some (w, rest)"
proof -
  assume "rest = [] \<or> \<not> isdigit (hd rest)"
  moreover have "unat w < 2 ^ 64"
    using unsigned_less [of w, where ?'a = nat] by (rule less_le_trans) simp
  ultimately have "scan_u (show_nat (unat w) @ rest) = Some (of_nat (unat w), rest)"
    using scan_u_show_nat by blast
  then show ?thesis by (simp add: scan_u32_def show_u32_def)
qed

lemma scan_str_append [simp]: "scan_str s (s @ r) = Some r"
  by (induction s) auto

lemma scan_version_show: "scan_version (''v='' @ show_u32 w) = Some w"
  using scan_u32_show [of "[]" w] scan_str_append [of "''v=''" "show_u32 w"]
  by (simp add: scan_version_def del: scan_str.simps)

lemma scan_params_show:
  "scan_params (''m='' @ show_u32 m @ '',t='' @ show_u32 t @ '',p='' @ show_u32 p) = Some (m, t, p)"
proof -
  have comma: "\<not> isdigit COMMA" by (simp add: isdigit_def ord_def)
  note scan_str_append [of "''m=''" "show_u32 m @ '',t='' @ show_u32 t @ '',p='' @ show_u32 p"]
    scan_str_append [of "'',t=''" "show_u32 t @ '',p='' @ show_u32 p"]
    scan_str_append [of "'',p=''" "show_u32 p"]
    scan_u32_show [of "'',t='' @ show_u32 t @ '',p='' @ show_u32 p" m]
    scan_u32_show [of "'',p='' @ show_u32 p" t] scan_u32_show [of "[]" p]
  with comma show ?thesis by (simp add: scan_params_def del: scan_str.simps)
qed

lemma split_parts_format:
  assumes "salt_b64 \<noteq> []" "hash_b64 \<noteq> []" "CHR ''$'' \<notin> set salt_b64" "CHR ''$'' \<notin> set hash_b64"
  shows "split_parts 6 (argon2_format t m p salt_b64 hash_b64) =
    [''argon2id'', ''v='' @ show_u32 ARGON2_VERSION,
     ''m='' @ show_u32 m @ '',t='' @ show_u32 t @ '',p='' @ show_u32 p, salt_b64, hash_b64]"
proof -
  define v where "v = ''v='' @ show_u32 ARGON2_VERSION"
  define q where "q = ''m='' @ show_u32 m @ '',t='' @ show_u32 t @ '',p='' @ show_u32 p"
  have f: "argon2_format t m p salt_b64 hash_b64 =
      CHR ''$'' # ''argon2id'' @ CHR ''$'' # v @ CHR ''$'' # q @ CHR ''$'' # salt_b64 @ CHR ''$'' # hash_b64"
    by (simp add: argon2_format_def v_def q_def)
  have vq: "v \<noteq> []" "q \<noteq> []" "CHR ''$'' \<notin> set v" "CHR ''$'' \<notin> set q"
    by (simp_all add: v_def q_def)
  have skip: "split_parts (Suc k) (CHR ''$'' # r) = split_parts (Suc k) r"
    if "r \<noteq> []" "hd r \<noteq> CHR ''$''" for k r
    using that by (cases r) auto
  have "split_parts 6 (argon2_format t m p salt_b64 hash_b64) = split_parts (Suc 5)
      (''argon2id'' @ CHR ''$'' # v @ CHR ''$'' # q @ CHR ''$'' # salt_b64 @ CHR ''$'' # hash_b64)"
    unfolding f using skip [of _ 5] by simp
  also have "\<dots> = ''argon2id'' # split_parts 5 (v @ CHR ''$'' # q @ CHR ''$'' # salt_b64 @ CHR ''$'' # hash_b64)"
    by (rule split_parts_part) simp_all
  also have "\<dots> = [''argon2id'', v, q, salt_b64, hash_b64]"
    using assms vq by (simp add: eval_nat_numeral split_parts_part split_parts_last del: split_parts.simps)
  finally show ?thesis by (simp only: v_def q_def)
qed

lemma base64_encode_nonempty:
  assumes "base64_encode n inp = Some s" "inp \<noteq> []"
  shows "s \<noteq> []"
proof
  assume "s = []"
  with base64_decode_encode [OF assms(1), of "length inp"] have "base64_decode_loop (length inp) [] [] = Some inp"
    by (simp add: base64_decode_def)
  with assms(2) show False by simp
qed

lemma base64_encode_no_dollar: "base64_encode n inp = Some s \<Longrightarrow> CHR ''$'' \<notin> set s"
  using base64_encode_alphabet isalnum_not_special(7) by fastforce

lemma base64_encode_capacity: "base64_encode_loop n inp out = Some s \<Longrightarrow> length out + length inp \<le> n"
  by (induction n inp out arbitrary: s rule: base64_encode_loop.induct)
     (fastforce simp: Let_def split: if_splits)+

lemma argon2id_verify_encoded:
  assumes enc: "argon2id_hash_encoded calloc_ok t m p pwd salt hashlen n = Inr encoded" and n: "n \<le> 256"
  shows "argon2id_verify calloc_ok encoded pwd = Inr ()"
proof -
  from enc obtain hash salt_b64 hash_b64 where
    raw: "argon2id_hash_raw calloc_ok t m p pwd salt hashlen = Inr hash"
    and sb: "base64_encode 64 salt = Some salt_b64" and hb: "base64_encode 128 hash = Some hash_b64"
    and e: "encoded = argon2_format t m p salt_b64 hash_b64" "length encoded < n" "hashlen \<le> 64"
    by (auto simp: argon2id_hash_encoded_def Let_def split: if_splits sum.splits option.splits)
  have ne: "salt \<noteq> []" "0 < hashlen" and len: "length hash = hashlen"
    using argon2id_hash_raw_length [OF raw] by simp_all
  have "length salt \<le> 64"
    using base64_encode_capacity sb by (fastforce simp: base64_encode_def)
  then have dec: "base64_decode 64 salt_b64 = Some salt" "base64_decode 64 hash_b64 = Some hash"
    using base64_decode_encode [OF sb] base64_decode_encode [OF hb] len e(3) by simp_all
  have "hash \<noteq> []" using ne len by auto
  with ne sb hb have parts: "split_parts 6 encoded =
    [''argon2id'', ''v='' @ show_u32 ARGON2_VERSION,
     ''m='' @ show_u32 m @ '',t='' @ show_u32 t @ '',p='' @ show_u32 p, salt_b64, hash_b64]"
    unfolding e(1) by (intro split_parts_format) (auto dest: base64_encode_nonempty base64_encode_no_dollar)
  have copy: "string_copy 256 encoded = Some encoded" using e(2) n by simp
  show ?thesis
    using raw len dec ne \<open>hash \<noteq> []\<close> constant_time_eq_iff [of hash "length hash" hash]
    unfolding argon2id_verify_def copy option.case Let_def parts
    by (simp add: scan_version_show [simplified] scan_params_show [simplified])
qed

lemma argon2id_verify_sound:
  assumes "argon2id_verify calloc_ok encoded pwd = Inr ()"
  shows "\<exists>m t p salt hash. scan_params (split_parts 6 encoded ! 2) = Some (m, t, p) \<and>
    base64_decode 64 (split_parts 6 encoded ! 3) = Some salt \<and>
    base64_decode 64 (split_parts 6 encoded ! 4) = Some hash \<and>
    argon2id_hash_raw calloc_ok t m p pwd salt (length hash) = Inr hash"
proof -
  define P where "P = split_parts 6 encoded"
  have copy: "string_copy 256 encoded = Some encoded"
    using assms by (cases "string_copy 256 encoded") (simp_all add: argon2id_verify_def)
  from assms have "(case scan_params (P ! 2) of
       None \<Rightarrow> Inl Failed
     | Some (m, t, p) \<Rightarrow>
         (case (base64_decode 64 (P ! 3), base64_decode 64 (P ! 4)) of
            (Some salt, Some hash) \<Rightarrow>
              if salt = [] \<or> hash = [] then Inl Failed
              else (case argon2id_hash_raw calloc_ok t m p pwd salt (length hash) of
                      Inl e \<Rightarrow> Inl e
                    | Inr actual \<Rightarrow> if constant_time_eq hash actual (length hash) then Inr () else Inl Failed)
          | _ \<Rightarrow> Inl Failed)) = Inr ()"
    by (simp add: argon2id_verify_def copy P_def [symmetric] Let_def split: if_split_asm)
  then obtain m t p salt hash actual where
    *: "scan_params (P ! 2) = Some (m, t, p)" "base64_decode 64 (P ! 3) = Some salt"
      "base64_decode 64 (P ! 4) = Some hash"
      "argon2id_hash_raw calloc_ok t m p pwd salt (length hash) = Inr actual"
      "constant_time_eq hash actual (length hash)" "hash \<noteq> []"
    by (auto split: if_splits option.splits sum.splits)
  have "length actual = length hash"
    using argon2id_hash_raw_length [OF *(4)] by simp
  then have "hash = actual"
    by (rule constant_time_eq_iff [THEN iffD1, OF refl _ *(5)])
  with *(1-4) show ?thesis
    unfolding P_def [symmetric] by blast
qed

section \<open>Where the reference block lies\<close>

text \<open>The mapping of the pseudo-random value to a distance below the size of the reference area
  does not overflow 64 bits.\<close>

lemma relative_position_less:
  fixes area :: u32 and r :: u64
  assumes "area \<noteq> 0"
  defines "x \<equiv> drop_bit 32 ((r AND 0xffffffff) * (r AND 0xffffffff))"
  defines "rel \<equiv> ucast area - 1 - drop_bit 32 (ucast area * x)"
  shows "unat (ucast rel :: u32) < unat area"
proof -
  define a where "a = unat area"
  define w where "w = r AND 0xffffffff"
  define y where "y = unat w"
  have a: "0 < a" "a < 2 ^ 32"
    using assms(1) unsigned_less [of area, where ?'a = nat] by (auto simp: a_def unat_eq_zero neq0_conv [symmetric] simp del: neq0_conv)
  have "w = take_bit 32 r"
    by (simp add: w_def take_bit_eq_mask mask_eq_decr_exp)
  then have y: "y < 2 ^ 32"
    using take_bit_nat_less_exp [of 32 "unat r"] by (simp add: y_def unsigned_take_bit_eq)
  have yy: "y * y < 2 ^ 64"
    using mult_strict_mono' [OF y y] by simp
  define X where "X = y * y div 2 ^ 32"
  have X: "X < 2 ^ 32"
    using yy by (simp add: X_def less_mult_imp_div_less)
  have ww: "unat (w * w) = y * y"
    using unat_mult_lem [of w w] yy by (simp add: y_def)
  have x: "unat x = X"
    unfolding x_def w_def [symmetric] unat_drop_bit_div ww X_def ..
  have ua: "unat (ucast area :: u64) = a"
    using a(2) unfolding a_def by (simp add: unsigned_ucast_eq take_bit_nat_eq_self)
  have aX: "a * X < 2 ^ 64"
    using mult_strict_mono' [OF a(2) X] by simp
  have d: "unat (drop_bit 32 (ucast area * x)) = a * X div 2 ^ 32"
    using unat_mult_lem [of "ucast area" x] aX unfolding unat_drop_bit_div ua x by simp
  have "a * X div 2 ^ 32 < a"
    using X a(1) by (simp add: less_mult_imp_div_less)
  then have "unat rel = a - 1 - a * X div 2 ^ 32"
    using ua d a by (simp add: rel_def unat_sub_if')
  then have "unat rel < a" using a by simp
  with a show ?thesis
    by (simp add: unsigned_ucast_eq take_bit_nat_eq_self a_def [symmetric])
qed

text \<open>The first pass refers to blocks that were computed before the previous one; later passes refer
  neither to the block being computed, nor to its predecessor, nor to a block of the current segment
  that this pass has not reached yet.\<close>

lemma argon2_index_alpha_lane:
  "lane_length \<noteq> 0 \<Longrightarrow> argon2_index_alpha pass slc index lane_length segment_length r < lane_length"
  by (simp add: argon2_index_alpha_def Let_def word_gt_0 word_mod_less_divisor)

lemma argon2_index_alpha_first_pass:
  assumes "slc < 4" "index < seg" "4 * seg < 2 ^ 32" "2 \<le> slc * seg + index"
  shows "unat (argon2_index_alpha 0 (of_nat slc) (of_nat index) (of_nat (4 * seg)) (of_nat seg) r)
    < slc * seg + index - 1"
proof -
  define c where "c = slc * seg + index"
  have c: "2 \<le> c" "c < 4 * seg"
    using assms(2,4) mult_le_mono1 [of slc 3 seg] assms(1) unfolding c_def by linarith+
  define area :: u32 where "area = of_nat (c - 1)"
  have ref: "reference_area_size 0 (of_nat slc) (of_nat index) (of_nat (4 * seg)) (of_nat seg) = area"
  proof -
    have "(of_nat slc :: u32) = 0 \<longleftrightarrow> slc = 0"
      using assms(1) by (auto simp: word_of_nat_eq_0_iff dest: dvd_imp_le)
    then show ?thesis using c(1) by (auto simp: reference_area_size_def area_def c_def of_nat_diff)
  qed
  have ua: "unat area = c - 1"
    unfolding area_def by (rule unat_of_nat_eq) (use c assms(3) in simp)
  then have "area \<noteq> 0" using c(1) by auto
  note less = relative_position_less [OF this, of r, unfolded ua]
  let ?rel = "ucast (ucast area - 1 - drop_bit 32 (ucast area *
     drop_bit 32 ((r AND 0xffffffff) * (r AND 0xffffffff))) :: u64) :: u32"
  have lane: "unat (of_nat (4 * seg) :: u32) = 4 * seg"
    using assms(3) by (simp add: unat_of_nat del: of_nat_mult)
  have "argon2_index_alpha 0 (of_nat slc) (of_nat index) (of_nat (4 * seg)) (of_nat seg) r =
      ?rel mod of_nat (4 * seg)"
    using \<open>area \<noteq> 0\<close> by (simp add: argon2_index_alpha_def ref Let_def del: of_nat_mult)
  then have "unat (argon2_index_alpha 0 (of_nat slc) (of_nat index) (of_nat (4 * seg)) (of_nat seg) r)
      = unat ?rel mod (4 * seg)"
    by (simp only: unat_mod_distrib lane)
  with less c show ?thesis by (simp add: c_def)
qed

lemma alpha_window:
  fixes slc index seg q :: nat
  assumes "slc < 4" "index < seg" "q < 3 * seg + index - 1"
    and S: "S = (if slc = 3 then 0 else (slc + 1) * seg)"
    and r: "ref = (if S + q < 4 * seg then S + q else S + q - 4 * seg)"
  shows "ref \<noteq> (if slc * seg + index = 0 then 4 * seg - 1 else slc * seg + index - 1)"
    "\<not> (slc * seg + index \<le> ref \<and> ref < (slc + 1) * seg)"
proof -
  consider "slc = 0" | "slc = 1" | "slc = 2" | "slc = 3" using assms(1) by linarith
  then show "ref \<noteq> (if slc * seg + index = 0 then 4 * seg - 1 else slc * seg + index - 1)"
    by cases (use assms(2,3) in \<open>simp_all add: r S, linarith+\<close>)
  from assms(1) consider "slc = 0" | "slc = 1" | "slc = 2" | "slc = 3" by linarith
  then show "\<not> (slc * seg + index \<le> ref \<and> ref < (slc + 1) * seg)"
    by cases (use assms(2,3) in \<open>simp_all add: r S, linarith+\<close>)
qed

lemma argon2_index_alpha_later_pass:
  fixes r :: u64
  assumes "pass \<noteq> 0" "slc < 4" "index < seg" "8 * seg \<le> 2 ^ 32"
  defines "cur \<equiv> slc * seg + index"
  defines "ref \<equiv> unat (argon2_index_alpha pass (of_nat slc) (of_nat index) (of_nat (4 * seg)) (of_nat seg) r)"
  shows "ref < 4 * seg" "ref \<noteq> (if cur = 0 then 4 * seg - 1 else cur - 1)"
    "\<not> (cur \<le> ref \<and> ref < (slc + 1) * seg)"
proof -
  define area :: u32 where "area = of_nat (3 * seg + index - 1)"
  have area: "reference_area_size pass (of_nat slc) (of_nat index) (of_nat (4 * seg)) (of_nat seg) = area"
    using assms(1,3) by (simp add: reference_area_size_def area_def of_nat_diff)
  have ua: "unat area = 3 * seg + index - 1"
    unfolding area_def by (rule unat_of_nat_eq) (use assms(3,4) in simp)
  then have "area \<noteq> 0" using assms(3) by auto
  note less = relative_position_less [OF this, of r, unfolded ua]
  define rel :: u32 where "rel = ucast (ucast area - 1 - drop_bit 32 (ucast area *
     drop_bit 32 ((r AND 0xffffffff) * (r AND 0xffffffff))) :: u64)"
  have rel: "unat rel < 3 * seg + index - 1" using less by (simp only: rel_def)
  have lane: "unat (of_nat (4 * seg) :: u32) = 4 * seg"
    using assms(3,4) by (simp add: unat_of_nat del: of_nat_mult)
  define S where "S = (slc + 1) * seg mod (4 * seg)"
  have S: "(of_nat slc + 1) * of_nat seg mod of_nat (4 * seg) = (of_nat S :: u32)"
  proof -
    have "(slc + 1) * seg \<le> 4 * seg" using assms(2) by (intro mult_le_mono1) simp
    moreover have "4 * seg < 2 ^ 32" using assms(4) by simp
    ultimately have "(slc + 1) * seg < 2 ^ 32" by (rule le_less_trans)
    then have "unat (of_nat ((slc + 1) * seg) :: u32) = (slc + 1) * seg"
      by (intro unat_of_nat_eq) (simp del: mult_Suc add_mult_distrib)
    then have "unat ((of_nat ((slc + 1) * seg) :: u32) mod of_nat (4 * seg)) = S"
      unfolding S_def unat_mod_distrib lane by (rule arg_cong)
    then have "(of_nat ((slc + 1) * seg) :: u32) mod of_nat (4 * seg) = of_nat S"
      by (metis of_nat_unat ucast_id)
    then show ?thesis by (simp add: algebra_simps)
  qed
  have S4: "S < 4 * seg" using assms(3) by (simp add: S_def)
  then have "S < 2 ^ 32" using assms(4) by simp
  then have "unat (of_nat S :: u32) = S" by (simp add: unat_of_nat)
  then have "unat (of_nat S + rel) = S + unat rel"
    using S4 rel assms(3,4) by (subst unat_add_lem [THEN iffD1]) auto
  moreover have "argon2_index_alpha pass (of_nat slc) (of_nat index) (of_nat (4 * seg)) (of_nat seg) r =
      (of_nat S + rel) mod of_nat (4 * seg)"
    using \<open>area \<noteq> 0\<close> assms(1)
    by (simp only: argon2_index_alpha_def area Let_def S [symmetric] rel_def if_False if_True simp_thms)
  ultimately have ref: "ref = (S + unat rel) mod (4 * seg)"
    by (simp only: ref_def unat_mod_distrib lane)
  also have "\<dots> = (if S + unat rel < 4 * seg then S + unat rel else S + unat rel - 4 * seg)"
    using S4 rel assms(3) by (simp add: mod_if)
  finally have r: "ref = (if S + unat rel < 4 * seg then S + unat rel else S + unat rel - 4 * seg)" .
  show "ref < 4 * seg" using ref assms(3) by simp
  have "S = (if slc = 3 then 0 else (slc + 1) * seg)"
    using assms(2,3) by (auto simp: S_def)
  from alpha_window [OF assms(2,3) rel this r]
  show "ref \<noteq> (if cur = 0 then 4 * seg - 1 else cur - 1)" "\<not> (cur \<le> ref \<and> ref < (slc + 1) * seg)"
    unfolding cur_def by blast+
qed

end
