(* ===== verification/UA_Commands.thy ===== *)
theory UA_Commands
  imports UA_Memberships UA_Argon2
begin

text \<open>
  The commands of \<^verbatim>\<open>tools/eclipse-useradd/eclipse-useradd.c\<close>: option parsing, \<open>init\<close>, \<open>useradd\<close>,
  \<open>userdel\<close>, \<open>usermod\<close>, \<open>passwd\<close>, the two listings, the menu and \<open>main\<close>.

  A command maps the state \<open>os\<close> to an exit status and the new state; the text it prints is not
  modelled. \<open>Corrupt\<close> is the outcome of a write past the end of a fixed-size array. Phases in which
  every failure unlocks the database and returns 1 are sequences of steps chained with \<open>andthen\<close>.
\<close>

datatype outcome = Exit nat | Corrupt

section \<open>Steps that may stop\<close>

definition andthen :: "(os \<Rightarrow> 'a option \<times> os) \<Rightarrow> ('a \<Rightarrow> os \<Rightarrow> 'b option \<times> os) \<Rightarrow> os \<Rightarrow> 'b option \<times> os" where
  "andthen m f w = (case m w of (None, w) \<Rightarrow> (None, w) | (Some x, w) \<Rightarrow> f x w)"

definition require :: "bool \<Rightarrow> os \<Rightarrow> unit option \<times> os" where
  "require b w = (if b then Some () else None, w)"

definition pure_step :: "'a option \<Rightarrow> os \<Rightarrow> 'a option \<times> os" where
  "pure_step x w = (x, w)"

section \<open>Options\<close>

record options =
  o_user :: string
  o_fullname :: string
  o_birthdate :: string
  o_groups :: string
  o_add_groups :: string
  o_del_groups :: string
  o_home :: string
  o_shell :: string
  o_password :: string
  o_uid :: u32
  o_uid_set :: bool
  o_remove_home :: bool

definition no_options :: options where
  "no_options = \<lparr>o_user = [], o_fullname = [], o_birthdate = [], o_groups = [], o_add_groups = [],
     o_del_groups = [], o_home = [], o_shell = [], o_password = [], o_uid = 0, o_uid_set = False,
     o_remove_home = False\<rparr>"

text \<open>An option with a value: \<open>None\<close> when the flag is not one of these or the value is too long.\<close>

definition set_option :: "string \<Rightarrow> string \<Rightarrow> options \<Rightarrow> options option" where
  "set_option flag v opts =
     (if flag = ''--user'' then map_option (\<lambda>s. opts\<lparr>o_user := s\<rparr>) (string_copy (MAX_USERNAME + 1) v)
      else if flag = ''--fullname'' then map_option (\<lambda>s. opts\<lparr>o_fullname := s\<rparr>) (string_copy (MAX_FULLNAME + 1) v)
      else if flag = ''--uid'' then Some (opts\<lparr>o_uid := ucast (strtoul v), o_uid_set := True\<rparr>)
      else if flag = ''--birth'' then map_option (\<lambda>s. opts\<lparr>o_birthdate := s\<rparr>) (string_copy (MAX_BIRTHDATE + 1) v)
      else if flag = ''--groups'' then map_option (\<lambda>s. opts\<lparr>o_groups := s\<rparr>) (string_copy MAX_GROUP_CSV v)
      else if flag = ''--add-groups'' then map_option (\<lambda>s. opts\<lparr>o_add_groups := s\<rparr>) (string_copy MAX_GROUP_CSV v)
      else if flag = ''--del-groups'' then map_option (\<lambda>s. opts\<lparr>o_del_groups := s\<rparr>) (string_copy MAX_GROUP_CSV v)
      else if flag = ''--home'' then map_option (\<lambda>s. opts\<lparr>o_home := s\<rparr>) (string_copy MAX_HOME v)
      else if flag = ''--shell'' then map_option (\<lambda>s. opts\<lparr>o_shell := s\<rparr>) (string_copy MAX_SHELL v)
      else if flag = ''--password'' then map_option (\<lambda>s. opts\<lparr>o_password := s\<rparr>) (string_copy 256 v)
      else None)"

fun parse_options_loop :: "string list \<Rightarrow> options \<Rightarrow> options option" where
  "parse_options_loop [] opts = Some opts"
| "parse_options_loop [flag] opts =
     (if flag = ''--remove-home'' then Some (opts\<lparr>o_remove_home := True\<rparr>) else None)"
| "parse_options_loop (flag # v # args) opts =
     (if flag = ''--remove-home'' then parse_options_loop (v # args) (opts\<lparr>o_remove_home := True\<rparr>)
      else case set_option flag v opts of
             None \<Rightarrow> None
           | Some opts \<Rightarrow> parse_options_loop args opts)"

text \<open>The command word and the options; \<open>argv\<close> includes the program name.\<close>

definition parse_options :: "string list \<Rightarrow> (string option \<times> options) option" where
  "parse_options argv =
     (case argv of
        p # cmd # args \<Rightarrow> map_option (\<lambda>opts. (Some cmd, opts)) (parse_options_loop args no_options)
      | _ \<Rightarrow> Some (None, no_options))"

section \<open>Parts the commands share\<close>

definition load_all :: "os \<Rightarrow> (user_entry list \<times> shadow_entry list \<times> group_entry list) option \<times> os" where
  "load_all = andthen load_users (\<lambda>users. andthen load_shadows (\<lambda>shadows. andthen load_groups
     (\<lambda>groups. pure_step (Some (users, shadows, groups)))))"

definition save_all :: "user_entry list \<Rightarrow> shadow_entry list \<Rightarrow> group_entry list \<Rightarrow> os \<Rightarrow> bool \<times> os" where
  "save_all users shadows groups w =
     (let (ok, w) = save_users users w
      in if \<not> ok then (False, w)
         else let (ok, w) = save_shadows shadows w
         in if \<not> ok then (False, w)
         else save_groups groups w)"

definition prompt_if_empty :: "string \<Rightarrow> nat \<Rightarrow> string option \<Rightarrow> os \<Rightarrow> string option \<times> os" where
  "prompt_if_empty cur buflen def w = (if cur = [] then prompt_input buflen def w else (Some cur, w))"

text \<open>\<open>create_password_hash\<close> into a buffer of \<open>MAX_HASH\<close> bytes.\<close>

definition hash_password :: "string \<Rightarrow> os \<Rightarrow> argon2_fault + string" where
  "hash_password password w = create_password_hash (calloc_ok w) (urandom w) password MAX_HASH"

section \<open>init, userlist and grouplist\<close>

definition default_group :: "string \<times> nat \<times> string \<times> string \<Rightarrow> group_entry" where
  "default_group g = (case g of (n, i, d, m) \<Rightarrow> \<lparr>gname = n, gid = of_nat i, description = d, members = m\<rparr>)"

text \<open>The descriptions are UTF-8 in the source; a character outside ASCII is its two bytes.\<close>

definition a_acute :: string where "a_acute = [CHR 0xC3, CHR 0xA1]"
definition i_acute :: string where "i_acute = [CHR 0xC3, CHR 0xAD]"
definition o_acute :: string where "o_acute = [CHR 0xC3, CHR 0xB3]"

definition g_default_groups :: "group_entry list" where
  "g_default_groups = map default_group
    [(''root'', 0, ''Super-usuario del sistema'', ''root''),
     (''users'', 100, ''Usuarios regulares del sistema'', ''''),
     (''audio'', 200, ''Acceso al sistema de audio y sonido'', ''''),
     (''internet'', 201, ''Acceso a la red e internet'', ''''),
     (''video'', 202, ''Acceso a dispositivos de v'' @ i_acute @ ''deo y pantalla'', ''''),
     (''usb'', 203, ''Acceso a dispositivos USB'', ''''),
     (''storage'', 204, ''Acceso a dispositivos de almacenamiento'', ''''),
     (''camera'', 205, ''Acceso a c'' @ a_acute @ ''mara y captura de v'' @ i_acute @ ''deo'', ''''),
     (''bluetooth'', 206, ''Acceso a hardware Bluetooth'', ''''),
     (''input'', 207, ''Acceso a dispositivos de entrada (teclado, rat'' @ o_acute @ ''n)'', ''''),
     (''power'', 208, ''Acceso a gesti'' @ o_acute @ ''n de energ'' @ i_acute @ ''a (apagar, suspender)'', ''''),
     (''print'', 209, ''Acceso al sistema de impresi'' @ o_acute @ ''n'', ''''),
     (''wheel'', 210, ''Escalada de privilegios administrativos'', ''root''),
     (''games'', 211, ''Acceso a recursos de juegos'', ''''),
     (''crypto'', 212, ''Acceso a aceleradores hardware de criptograf'' @ i_acute @ ''a'', ''''),
     (''display'', 213, ''Acceso al servidor de pantalla (Wayland/X11)'', '''')]"

definition root_user :: user_entry where
  "root_user = \<lparr>username = ''root'', uid = 0, primary_gid = 0, fullname = ''Administrador'',
     birthdate = ''0000-00-00'', homedir = ''/root'', shell = ''/bin/sh'', resource_groups = ''wheel''\<rparr>"

definition fresh_shadow :: "string \<Rightarrow> string \<Rightarrow> int \<Rightarrow> shadow_entry" where
  "fresh_shadow nm hash now = \<lparr>sh_username = nm, sh_hash = hash, last_change_days = days_since_epoch now,
     min_days = 0, max_days = 99999, warn_days = 7\<rparr>"

definition command_grouplist :: "os \<Rightarrow> outcome \<times> os" where
  "command_grouplist w = (let (gs, w) = load_groups w in (Exit (if gs = None then 1 else 0), w))"

definition command_userlist :: "os \<Rightarrow> outcome \<times> os" where
  "command_userlist w = (let (us, w) = load_users w in (Exit (if us = None then 1 else 0), w))"

definition command_init :: "os \<Rightarrow> outcome \<times> os" where
  "command_init w =
     (if euid w \<noteq> 0 then (Exit 1, w)
      else let (locks, w) = lock_db_files w
      in case locks of
           None \<Rightarrow> (Exit 1, w)
         | Some locks \<Rightarrow>
             (let (db, w) = load_all w
              in case db of
                   None \<Rightarrow> (Exit 1, unlock_db_files locks w)
                 | Some (users, shadows, groups) \<Rightarrow>
                     (let groups = (if groups = [] then g_default_groups else groups);
                          users = (if find_user_by_name users ''root'' = None \<and> length users < MAX_USERS
                                   then users @ [root_user] else users);
                          shadows = (if find_shadow_by_name shadows ''root'' = None \<and> length shadows < MAX_SHADOWS
                                     then shadows @ [fresh_shadow ''root'' ''!'' (clock w)] else shadows);
                          groups = apply_memberships_from_users groups users;
                          (ok, w) = save_all users shadows groups w
                      in if \<not> ok then (Exit 1, unlock_db_files locks w)
                         else command_grouplist (unlock_db_files locks w))))"

section \<open>useradd\<close>

text \<open>The questions and checks up to the password, in the order of the code; every failure
  unlocks the database and returns 1. The result is the new user and the password.\<close>

definition useradd_uid :: "options \<Rightarrow> user_entry list \<Rightarrow> os \<Rightarrow> u32 option \<times> os" where
  "useradd_uid opts users =
     (if o_uid_set opts then pure_step (Some (o_uid opts))
      else andthen (prompt_input 32 (Some (show_nat (unat (next_available_uid users)))))
             (\<lambda>uidbuf. pure_step (Some (ucast (strtoul uidbuf)))))"

definition useradd_groups :: "string \<Rightarrow> group_entry list \<Rightarrow> string option" where
  "useradd_groups csv groups =
     (case csv_normalize MAX_GROUP_CSV csv of
        None \<Rightarrow> None
      | Some groups_csv \<Rightarrow>
          (case csv_add MAX_GROUP_CSV groups_csv ''users'' of
             None \<Rightarrow> None
           | Some groups_csv \<Rightarrow>
               if validate_group_csv_exists groups_csv groups then Some groups_csv else None))"

definition useradd_password :: "options \<Rightarrow> os \<Rightarrow> string option \<times> os" where
  "useradd_password opts =
     (if o_password opts \<noteq> [] then pure_step (string_copy 256 (o_password opts))
      else prompt_password_twice 256)"

definition useradd_input ::
  "options \<Rightarrow> user_entry list \<Rightarrow> group_entry list \<Rightarrow> os \<Rightarrow> (user_entry \<times> string) option \<times> os" where
  "useradd_input opts users groups =
     andthen (prompt_if_empty (o_user opts) (MAX_USERNAME + 1) None) (\<lambda>user.
     andthen (require (validate_username user)) (\<lambda>_.
     andthen (require (find_user_by_name users user = None)) (\<lambda>_.
     andthen (prompt_if_empty (o_fullname opts) (MAX_FULLNAME + 1) None) (\<lambda>full.
     andthen (require (validate_fullname full)) (\<lambda>_.
     andthen (useradd_uid opts users) (\<lambda>n.
     andthen (require (find_user_by_uid users n = None)) (\<lambda>_.
     andthen (prompt_if_empty (o_birthdate opts) (MAX_BIRTHDATE + 1) None) (\<lambda>birth.
     andthen (require (validate_birthdate birth)) (\<lambda>_.
     andthen (prompt_if_empty (o_home opts) MAX_HOME (Some (''/home/'' @ user))) (\<lambda>home.
     andthen (prompt_if_empty (o_shell opts) MAX_SHELL (Some ''/bin/sh'')) (\<lambda>sh.
     andthen (prompt_if_empty (o_groups opts) MAX_GROUP_CSV (Some ''users'')) (\<lambda>grps.
     andthen (pure_step (useradd_groups grps groups)) (\<lambda>groups_csv.
     andthen (useradd_password opts) (\<lambda>password.
     pure_step (Some (\<lparr>username = user, uid = n, primary_gid = n, fullname = full, birthdate = birth,
                       homedir = home, shell = sh, resource_groups = groups_csv\<rparr>, password))))))))))))))))"

definition command_useradd :: "options \<Rightarrow> os \<Rightarrow> outcome \<times> os" where
  "command_useradd opts w =
     (if euid w \<noteq> 0 then (Exit 1, w)
      else let (locks, w) = lock_db_files w
      in case locks of
           None \<Rightarrow> (Exit 1, w)
         | Some locks \<Rightarrow>
             (let (db, w) = load_all w
              in case db of
                   None \<Rightarrow> (Exit 1, unlock_db_files locks w)
                 | Some (users, shadows, groups) \<Rightarrow>
                     (let (inp, w) = useradd_input opts users groups w
                      in case inp of
                           None \<Rightarrow> (Exit 1, unlock_db_files locks w)
                         | Some (new_user, password) \<Rightarrow>
                             (case hash_password password w of
                                Inl Failed \<Rightarrow> (Exit 1, unlock_db_files locks w)
                              | Inl Overrun \<Rightarrow> (Corrupt, w)
                              | Inr hash \<Rightarrow>
                                  if length users \<ge> MAX_USERS \<or> length shadows \<ge> MAX_SHADOWS then (Corrupt, w)
                                  else
                                    let users = users @ [new_user];
                                        shadows = shadows @ [fresh_shadow (username new_user) hash (clock w)];
                                        groups = apply_memberships_from_users groups users;
                                        (ok, w) = save_all users shadows groups w
                                    in if \<not> ok then (Exit 1, unlock_db_files locks w)
                                       else let (home_ok, w) = create_home_directory (homedir new_user)
                                                                 (uid new_user) (primary_gid new_user) w
                                            in (Exit 0, unlock_db_files locks w)))))"

section \<open>userdel\<close>

text \<open>\<open>memmove\<close> of the tail over entry \<open>i\<close>.\<close>

definition remove_at :: "nat \<Rightarrow> 'a list \<Rightarrow> 'a list" where
  "remove_at i xs = take i xs @ drop (Suc i) xs"

definition command_userdel :: "options \<Rightarrow> os \<Rightarrow> outcome \<times> os" where
  "command_userdel opts w =
     (if euid w \<noteq> 0 then (Exit 1, w)
      else let (user, w) = prompt_if_empty (o_user opts) (MAX_USERNAME + 1) None w
      in case user of
           None \<Rightarrow> (Exit 1, w)
         | Some user \<Rightarrow>
             if \<not> validate_username user then (Exit 1, w)
             else let (locks, w) = lock_db_files w
             in case locks of
                  None \<Rightarrow> (Exit 1, w)
                | Some locks \<Rightarrow>
                    (let (db, w) = load_all w
                     in case db of
                          None \<Rightarrow> (Exit 1, unlock_db_files locks w)
                        | Some (users, shadows, groups) \<Rightarrow>
                            (case find_user_by_name users user of
                               None \<Rightarrow> (Exit 1, unlock_db_files locks w)
                             | Some uidx \<Rightarrow>
                                 if username (users ! uidx) = ''root'' then (Exit 1, unlock_db_files locks w)
                                 else
                                   let home_copy = homedir (users ! uidx);
                                       users = remove_at uidx users;
                                       shadows = (case find_shadow_by_name shadows user of
                                                    None \<Rightarrow> shadows | Some sidx \<Rightarrow> remove_at sidx shadows);
                                       groups = apply_memberships_from_users groups users;
                                       (ok, w) = save_all users shadows groups w
                                   in if \<not> ok then (Exit 1, unlock_db_files locks w)
                                      else let w = unlock_db_files locks w;
                                               w = (if o_remove_home opts
                                                    then snd (recursive_delete_path home_copy w) else w)
                                           in (Exit 0, w))))"

section \<open>usermod\<close>

fun add_groups_loop :: "string list \<Rightarrow> string \<Rightarrow> string option" where
  "add_groups_loop [] final = Some final"
| "add_groups_loop (tok # toks) final =
     (let t = trim_whitespace tok
      in if t \<noteq> []
         then (case csv_add MAX_GROUP_CSV final t of None \<Rightarrow> None | Some f \<Rightarrow> add_groups_loop toks f)
         else add_groups_loop toks final)"

fun del_groups_loop :: "string list \<Rightarrow> string \<Rightarrow> string" where
  "del_groups_loop [] final = final"
| "del_groups_loop (tok # toks) final =
     (let t = trim_whitespace tok
      in del_groups_loop toks (if t \<noteq> [] then csv_remove final t else final))"

definition usermod_groups :: "options \<Rightarrow> string \<Rightarrow> group_entry list \<Rightarrow> string option" where
  "usermod_groups opts cur groups =
     Option.bind (if o_groups opts \<noteq> [] then csv_normalize MAX_GROUP_CSV (o_groups opts) else Some cur) (\<lambda>final.
     Option.bind (if o_add_groups opts \<noteq> []
                  then Option.bind (string_copy MAX_GROUP_CSV (o_add_groups opts))
                         (\<lambda>copy. add_groups_loop (strtok COMMA copy) final)
                  else Some final) (\<lambda>final.
     Option.bind (if o_del_groups opts \<noteq> []
                  then map_option (\<lambda>copy. del_groups_loop (strtok COMMA copy) final)
                         (string_copy MAX_GROUP_CSV (o_del_groups opts))
                  else Some final) (\<lambda>final.
     Option.bind (csv_add MAX_GROUP_CSV final ''users'') (\<lambda>final.
     if validate_group_csv_exists final groups then Some final else None))))"

text \<open>The new version of the user, before its groups; \<open>None\<close> when an option is rejected.\<close>

definition usermod_user :: "options \<Rightarrow> user_entry list \<Rightarrow> nat \<Rightarrow> user_entry option" where
  "usermod_user opts users uidx =
     Option.bind (if o_fullname opts \<noteq> []
                  then if validate_fullname (o_fullname opts)
                       then Some ((users ! uidx)\<lparr>fullname := o_fullname opts\<rparr>) else None
                  else Some (users ! uidx)) (\<lambda>u.
     Option.bind (if o_birthdate opts \<noteq> []
                  then if validate_birthdate (o_birthdate opts)
                       then Some (u\<lparr>birthdate := o_birthdate opts\<rparr>) else None
                  else Some u) (\<lambda>u.
     let u = (if o_home opts \<noteq> [] then u\<lparr>homedir := o_home opts\<rparr> else u);
         u = (if o_shell opts \<noteq> [] then u\<lparr>shell := o_shell opts\<rparr> else u)
     in if o_uid_set opts
        then (case find_user_by_uid users (o_uid opts) of
                Some other \<Rightarrow> if other \<noteq> uidx then None
                             else Some (u\<lparr>uid := o_uid opts, primary_gid := o_uid opts\<rparr>)
              | None \<Rightarrow> Some (u\<lparr>uid := o_uid opts, primary_gid := o_uid opts\<rparr>))
        else Some u))"

definition usermod_shadows :: "options \<Rightarrow> string \<Rightarrow> shadow_entry list \<Rightarrow> os \<Rightarrow> argon2_fault + shadow_entry list" where
  "usermod_shadows opts user shadows w =
     (if o_password opts = [] then Inr shadows
      else case find_shadow_by_name shadows user of
             None \<Rightarrow> Inl Failed
           | Some sidx \<Rightarrow>
               (case hash_password (o_password opts) w of
                  Inl e \<Rightarrow> Inl e
                | Inr hash \<Rightarrow> Inr (shadows[sidx := (shadows ! sidx)\<lparr>sh_hash := hash,
                                    last_change_days := days_since_epoch (clock w)\<rparr>])))"

definition command_usermod :: "options \<Rightarrow> os \<Rightarrow> outcome \<times> os" where
  "command_usermod opts w =
     (if euid w \<noteq> 0 then (Exit 1, w)
      else let (user, w) = prompt_if_empty (o_user opts) (MAX_USERNAME + 1) None w
      in case user of
           None \<Rightarrow> (Exit 1, w)
         | Some user \<Rightarrow>
             (let (locks, w) = lock_db_files w
              in case locks of
                   None \<Rightarrow> (Exit 1, w)
                 | Some locks \<Rightarrow>
                     (let (db, w) = load_all w
                      in case db of
                           None \<Rightarrow> (Exit 1, unlock_db_files locks w)
                         | Some (users, shadows, groups) \<Rightarrow>
                             (case find_user_by_name users user of
                                None \<Rightarrow> (Exit 1, unlock_db_files locks w)
                              | Some uidx \<Rightarrow>
                                  (case usermod_user opts users uidx of
                                     None \<Rightarrow> (Exit 1, unlock_db_files locks w)
                                   | Some u \<Rightarrow>
                                       (case usermod_groups opts (resource_groups (users ! uidx)) groups of
                                          None \<Rightarrow> (Exit 1, unlock_db_files locks w)
                                        | Some final \<Rightarrow>
                                            (case usermod_shadows opts user shadows w of
                                               Inl Failed \<Rightarrow> (Exit 1, unlock_db_files locks w)
                                             | Inl Overrun \<Rightarrow> (Corrupt, w)
                                             | Inr shadows \<Rightarrow>
                                                 let users = users[uidx := u\<lparr>resource_groups := final\<rparr>];
                                                     groups = apply_memberships_from_users groups users;
                                                     (ok, w) = save_all users shadows groups w
                                                 in (Exit (if ok then 0 else 1), unlock_db_files locks w))))))))"

section \<open>passwd\<close>

text \<open>Whose password: root may name a user (or is asked), anybody else gets their own account,
  found by the real user id.\<close>

definition passwd_target :: "options \<Rightarrow> user_entry list \<Rightarrow> os \<Rightarrow> string option \<times> os" where
  "passwd_target opts users w =
     (if euid w = 0 then prompt_if_empty (o_user opts) (MAX_USERNAME + 1) None w
      else case find_user_by_uid users (ruid w) of
             None \<Rightarrow> (None, w)
           | Some i \<Rightarrow>
               if o_user opts \<noteq> [] \<and> o_user opts \<noteq> username (users ! i) then (None, w)
               else (Some (username (users ! i)), w))"

definition passwd_authorised :: "string \<Rightarrow> os \<Rightarrow> (argon2_fault + unit) \<times> os" where
  "passwd_authorised stored w =
     (if euid w = 0 then (Inr (), w)
      else let (current, w) = read_hidden_line 256 w
           in case current of
                None \<Rightarrow> (Inl Failed, w)
              | Some current \<Rightarrow> (argon2id_verify (calloc_ok w) stored (bytes_of_string current), w))"

definition command_passwd :: "options \<Rightarrow> os \<Rightarrow> outcome \<times> os" where
  "command_passwd opts w =
     (let (locks, w) = lock_db_files w
      in case locks of
           None \<Rightarrow> (Exit 1, w)
         | Some locks \<Rightarrow>
             (let (db, w) = load_all w
              in case db of
                   None \<Rightarrow> (Exit 1, unlock_db_files locks w)
                 | Some (users, shadows, groups) \<Rightarrow>
                     (let (user, w) = passwd_target opts users w
                      in case user of
                           None \<Rightarrow> (Exit 1, unlock_db_files locks w)
                         | Some user \<Rightarrow>
                             (case (find_user_by_name users user, find_shadow_by_name shadows user) of
                                (Some uidx, Some sidx) \<Rightarrow>
                                  (let (auth, w) = passwd_authorised (sh_hash (shadows ! sidx)) w
                                   in case auth of
                                        Inl Failed \<Rightarrow> (Exit 1, unlock_db_files locks w)
                                      | Inl Overrun \<Rightarrow> (Corrupt, w)
                                      | Inr _ \<Rightarrow>
                                          (let (newpass, w) = prompt_password_twice 256 w
                                           in case newpass of
                                                None \<Rightarrow> (Exit 1, unlock_db_files locks w)
                                              | Some newpass \<Rightarrow>
                                                  (case hash_password newpass w of
                                                     Inl Failed \<Rightarrow> (Exit 1, unlock_db_files locks w)
                                                   | Inl Overrun \<Rightarrow> (Corrupt, w)
                                                   | Inr hash \<Rightarrow>
                                                       let shadows = shadows[sidx := (shadows ! sidx)\<lparr>sh_hash := hash,
                                                             last_change_days := days_since_epoch (clock w)\<rparr>];
                                                           (ok, w) = save_shadows shadows w
                                                       in (Exit (if ok then 0 else 1), unlock_db_files locks w))))
                              | _ \<Rightarrow> (Exit 1, unlock_db_files locks w)))))"

section \<open>The menu and main\<close>

text \<open>\<open>clear_stdin_until_newline\<close>: characters up to and including the next newline.\<close>

definition clear_stdin_until_newline :: "os \<Rightarrow> os" where
  "clear_stdin_until_newline w = w\<lparr>stdin := tl (dropWhile (\<lambda>c. c \<noteq> NL) (stdin w))\<rparr>"

lemma prompt_input_consumes:
  assumes "prompt_input n d w = (Some s, w')" "2 \<le> n"
  shows "length (stdin w') < length (stdin w)"
proof -
  from assms obtain line rest where f: "fgets n (stdin w) = Some (line, rest)" and s: "stdin w' = rest"
    by (auto simp: prompt_input_def Let_def split: option.splits if_splits prod.splits)
  then have "stdin w \<noteq> []" "rest = snd (fgets_take (n - 1) (stdin w))"
    by (auto simp: fgets_def split: if_splits)
  with fgets_take_shorter [of "stdin w" "n - 1"] assms(2) s show ?thesis by simp
qed

lemma clear_stdin_length: "length (stdin (clear_stdin_until_newline w)) \<le> length (stdin w)"
  by (simp add: clear_stdin_until_newline_def) (metis diff_le_self le_trans length_dropWhile_le)

function interactive_menu :: "os \<Rightarrow> outcome \<times> os" where
  "interactive_menu w =
     (case prompt_input 16 None w of
        (None, w) \<Rightarrow> (Exit 1, w)
      | (Some choice, w) \<Rightarrow>
          (if take 1 choice = ''1'' then command_init w
           else if take 1 choice = ''2'' then command_useradd no_options w
           else if take 1 choice = ''3'' then command_userdel no_options w
           else if take 1 choice = ''4'' then command_usermod no_options w
           else if take 1 choice = ''5'' then command_passwd no_options w
           else if take 1 choice = ''6'' then command_userlist w
           else if take 1 choice = ''7'' then command_grouplist w
           else if take 1 choice = ''8'' then (Exit 0, w)
           else if take 1 choice = ''9'' then (Exit 0, w)
           else interactive_menu (clear_stdin_until_newline w)))"
  by pat_completeness auto
termination
  by (relation "measure (\<lambda>w. length (stdin w))")
     (auto dest!: prompt_input_consumes [OF sym] intro: le_less_trans [OF clear_stdin_length])

declare interactive_menu.simps [simp del]

definition ua_main :: "string list \<Rightarrow> os \<Rightarrow> outcome \<times> os" where
  "ua_main argv w =
     (if length argv < 2 then interactive_menu w
      else case parse_options argv of
             None \<Rightarrow> (Exit 1, w)
           | Some (cmd, opts) \<Rightarrow>
               if cmd = Some ''help'' then (Exit 0, w)
               else if cmd = Some ''init'' then command_init w
               else if cmd = Some ''useradd'' then command_useradd opts w
               else if cmd = Some ''userdel'' then command_userdel opts w
               else if cmd = Some ''usermod'' then command_usermod opts w
               else if cmd = Some ''passwd'' then command_passwd opts w
               else if cmd = Some ''userlist'' then command_userlist w
               else if cmd = Some ''grouplist'' then command_grouplist w
               else (Exit 1, w))"

end
