(* ===== verification/UA_Correct.thy ===== *)
theory UA_Correct
  imports UA_Commands
begin

text \<open>
  What the commands of \<open>eclipse-useradd\<close> do to the databases and the locks. The files are abstracted
  to the lists of records they store (\<open>stored_users\<close>, \<open>stored_shadows\<close>, \<open>stored_groups\<close>); each command
  is shown to act on these lists, and to give its locks back on every path.
\<close>

section \<open>The stored records\<close>

definition stored :: "nat \<Rightarrow> (string \<Rightarrow> 'a option) \<Rightarrow> string \<Rightarrow> os \<Rightarrow> 'a list option" where
  "stored mx dec path w =
     (case files w path of
        None \<Rightarrow> Some []
      | Some f \<Rightarrow> load_lines mx dec (fgets_lines MAX_LINE (content f)) [])"

definition stored_users :: "os \<Rightarrow> user_entry list option" where
  "stored_users = stored MAX_USERS parse_user USERS_FILE"

definition stored_shadows :: "os \<Rightarrow> shadow_entry list option" where
  "stored_shadows = stored MAX_SHADOWS parse_shadow SHADOW_FILE"

definition stored_groups :: "os \<Rightarrow> group_entry list option" where
  "stored_groups = stored MAX_GROUPS parse_group GROUPS_FILE"

lemma paths_distinct [simp]:
  "USERS_FILE \<noteq> SHADOW_FILE" "USERS_FILE \<noteq> GROUPS_FILE" "SHADOW_FILE \<noteq> GROUPS_FILE"
  "SHADOW_FILE \<noteq> USERS_FILE" "GROUPS_FILE \<noteq> USERS_FILE" "GROUPS_FILE \<noteq> SHADOW_FILE"
  by (simp_all add: USERS_FILE_def SHADOW_FILE_def GROUPS_FILE_def)

lemma tmp_distinct [simp]:
  "p \<in> {USERS_FILE, SHADOW_FILE, GROUPS_FILE} \<Longrightarrow> q \<in> {USERS_FILE, SHADOW_FILE, GROUPS_FILE} \<Longrightarrow> p \<noteq> tmp_path q w"
  by (auto simp: tmp_path_def USERS_FILE_def SHADOW_FILE_def GROUPS_FILE_def)

section \<open>Steps that only read and ask\<close>

text \<open>The console, the terminal and the oracle move on; nothing else changes.\<close>

definition io_only :: "os \<Rightarrow> os \<Rightarrow> bool" where
  "io_only w w' \<longleftrightarrow> (\<exists>s t k. w' = w\<lparr>stdin := s, tty := t, tick := k\<rparr>)"

definition io_step :: "(os \<Rightarrow> 'a \<times> os) \<Rightarrow> bool" where
  "io_step m \<longleftrightarrow> (\<forall>w. io_only w (snd (m w)))"

lemma io_only_refl [simp]: "io_only w w"
  unfolding io_only_def by (intro exI [of _ "stdin w"] exI [of _ "tty w"] exI [of _ "tick w"]) simp

lemma io_only_trans [trans]: "io_only a b \<Longrightarrow> io_only b c \<Longrightarrow> io_only a c"
  unfolding io_only_def by (elim exE) (simp, blast)

lemma io_only_frame:
  assumes "io_only w w'"
  shows "files w' = files w" "locked w' = locked w" "pid w' = pid w" "urandom w' = urandom w"
    "calloc_ok w' = calloc_ok w" "clock w' = clock w" "euid w' = euid w" "ruid w' = ruid w"
    "homes w' = homes w"
  using assms by (auto simp: io_only_def)

lemma io_only_tick [simp]: "io_only w (w\<lparr>tick := k\<rparr>)"
  unfolding io_only_def by (intro exI [of _ "stdin w"] exI [of _ "tty w"] exI [of _ k]) simp

lemma io_only_stdin [simp]: "io_only w (w\<lparr>stdin := s\<rparr>)"
  unfolding io_only_def by (intro exI [of _ s] exI [of _ "tty w"] exI [of _ "tick w"]) simp

lemma io_only_tty [simp]: "io_only w (w\<lparr>tty := t\<rparr>)"
  unfolding io_only_def by (intro exI [of _ "stdin w"] exI [of _ t] exI [of _ "tick w"]) simp

named_theorems io_steps \<open>operations that only read and ask\<close>

lemma io_stepD: "io_step m \<Longrightarrow> m w = (r, w') \<Longrightarrow> io_only w w'"
  unfolding io_step_def by (metis snd_conv)

lemma io_step_andthen [io_steps]: "io_step m \<Longrightarrow> (\<And>x. io_step (f x)) \<Longrightarrow> io_step (andthen m f)"
  unfolding io_step_def andthen_def
  by (auto split: prod.splits option.splits) (metis io_only_trans snd_conv)+

lemma io_step_basic [io_steps]: "io_step (require b)" "io_step (pure_step x)" "io_step sys_ok"
  by (auto simp: io_step_def require_def pure_step_def sys_ok_def sys_def)

lemma io_step_prompt_input [io_steps]: "io_step (prompt_input n d)"
  by (auto simp: io_step_def prompt_input_def Let_def split: option.split)

lemma io_step_prompt_if_empty [io_steps]: "io_step (prompt_if_empty cur n d)"
  using io_step_prompt_input [of n d] by (auto simp: io_step_def prompt_if_empty_def)

lemma io_step_tty_setup [io_steps]: "io_step (tty_setup b)"
  unfolding io_step_def tty_setup_def
  by (auto simp: sys_ok_def sys_def split: prod.split)

lemma io_step_read_hidden_line [io_steps]: "io_step (read_hidden_line n)"
  unfolding io_step_def
proof
  fix w
  obtain ok w1 where 1: "tty_setup (tty w \<noteq> None \<or> stdin_is_tty w) w = (ok, w1)" by fastforce
  have "io_only w w1" by (rule io_stepD [OF io_step_tty_setup 1])
  moreover have "io_only w1 (snd (read_hidden_line n w))" if "n \<noteq> 0"
    using that 1 by (auto simp: read_hidden_line_def split: option.split)
  ultimately show "io_only w (snd (read_hidden_line n w))"
    by (cases "n = 0") (auto simp: read_hidden_line_def intro: io_only_trans)
qed

lemma io_step_prompt_password_twice [io_steps]: "io_step (prompt_password_twice n)"
  unfolding io_step_def
proof
  fix w
  obtain a w1 where 1: "read_hidden_line 256 w = (a, w1)" by fastforce
  obtain b w2 where 2: "read_hidden_line 256 w1 = (b, w2)" by fastforce
  note io = io_stepD [OF io_step_read_hidden_line 1] io_stepD [OF io_step_read_hidden_line 2]
  then show "io_only w (snd (prompt_password_twice n w))"
    using io_only_trans [OF io] by (auto simp: prompt_password_twice_def 1 2 split: option.split)
qed

lemma io_step_load_file [io_steps]: "io_step (load_file mx dec path)"
  by (auto simp: io_step_def load_file_def sys_ok_def sys_def split: option.split)

lemma io_step_loads [io_steps]: "io_step load_users" "io_step load_shadows" "io_step load_groups"
  using io_step_load_file by (auto simp: io_step_def load_users_def load_shadows_def load_groups_def)

lemma io_step_load_all [io_steps]: "io_step load_all"
  unfolding load_all_def by (intro io_steps)

lemma io_step_useradd_input [io_steps]: "io_step (useradd_input opts users groups)"
proof -
  have "io_step (useradd_uid opts users)" "io_step (useradd_password opts)"
    unfolding useradd_uid_def useradd_password_def by (auto intro!: io_steps)
  then show ?thesis unfolding useradd_input_def by (intro io_steps)
qed

lemma load_file_stored:
  "load_file mx dec path w = (Some xs, w') \<Longrightarrow> stored mx dec path w = Some xs"
  by (auto simp: load_file_def stored_def split: option.splits prod.splits if_splits)

lemma stored_cong: "files w' path = files w path \<Longrightarrow> stored mx dec path w' = stored mx dec path w"
  by (simp add: stored_def)

lemma load_all_stored:
  assumes "load_all w = (Some (us, ss, gs), w')"
  shows "stored_users w = Some us" "stored_shadows w = Some ss" "stored_groups w = Some gs"
proof -
  from assms obtain w1 w2 where l: "load_users w = (Some us, w1)" "load_shadows w1 = (Some ss, w2)"
    "load_groups w2 = (Some gs, w')"
    by (auto simp: load_all_def andthen_def pure_step_def split: prod.splits option.splits)
  have f: "files w1 = files w" "files w2 = files w"
    using io_only_frame(1) [OF io_stepD [OF io_step_loads(1) l(1)]]
      io_only_frame(1) [OF io_stepD [OF io_step_loads(2) l(2)]] by simp_all
  show "stored_users w = Some us"
    using load_file_stored l(1) by (simp add: load_users_def stored_users_def)
  show "stored_shadows w = Some ss"
    using load_file_stored [of MAX_SHADOWS parse_shadow SHADOW_FILE w1] l(2) f
    by (simp add: load_shadows_def stored_shadows_def stored_def)
  show "stored_groups w = Some gs"
    using load_file_stored [of MAX_GROUPS parse_group GROUPS_FILE w2] l(3) f
    by (simp add: load_groups_def stored_groups_def stored_def)
qed

section \<open>Taking the locks changes no record\<close>

definition opened :: "os \<Rightarrow> os \<Rightarrow> bool" where
  "opened w w' \<longleftrightarrow>
     (\<forall>p. files w' p = files w p \<or> (files w p = None \<and> (\<exists>m. files w' p = Some \<lparr>content = [], fmode = m\<rparr>))) \<and>
     pid w' = pid w \<and> euid w' = euid w \<and> ruid w' = ruid w \<and> urandom w' = urandom w \<and>
     calloc_ok w' = calloc_ok w \<and> clock w' = clock w \<and> stdin w' = stdin w \<and> tty w' = tty w"

lemma opened_refl: "opened w w"
  by (simp add: opened_def)

lemma opened_trans: "opened a b \<Longrightarrow> opened b c \<Longrightarrow> opened a c"
  unfolding opened_def by (intro conjI allI) (metis option.distinct(1))+

lemma opened_stored: "opened w w' \<Longrightarrow> stored mx dec p w' = stored mx dec p w"
proof -
  assume "opened w w'"
  then have "files w' p = files w p \<or> (files w p = None \<and> (\<exists>m. files w' p = Some \<lparr>content = [], fmode = m\<rparr>))"
    by (simp add: opened_def)
  then show ?thesis by (auto simp: stored_def)
qed

lemma only_files_opened: "only_files w w' \<Longrightarrow> files w' = files w \<Longrightarrow> opened w w'"
  by (auto simp: only_files_def opened_def)

lemma open_and_lock_file_opened:
  assumes "open_and_lock_file path m w = (fd, w')"
  shows "opened w w'"
proof -
  obtain k1 w1 where e1: "ensure_parent_directory path w = (k1, w1)" by fastforce
  have "opened w w1"
    using ensure_parent_touches [OF e1, of "{}"] by (intro only_files_opened) (auto simp: touches_def)
  moreover have "opened w1 w'"
    using assms e1 by (auto simp: open_and_lock_file_def sys_ok_def sys_def Let_def opened_def
        split: if_splits option.splits)
  ultimately show ?thesis by (rule opened_trans)
qed

lemma unlock_opened: "opened w w' \<Longrightarrow> opened w (unlock_db_files l w')"
  by (simp add: opened_def unlock_db_files_def release_def split: option.split)

lemma lock_db_files_opened:
  assumes "lock_db_files w = (r, w')"
  shows "opened w w'"
proof -
  obtain a wa where a: "open_and_lock_file USERS_FILE (octal 6 0 0) w = (a, wa)" by fastforce
  obtain b wb where b: "open_and_lock_file SHADOW_FILE (octal 4 0 0) wa = (b, wb)" by fastforce
  obtain c wc where c: "open_and_lock_file GROUPS_FILE (octal 6 4 4) wb = (c, wc)" by fastforce
  have o1: "opened w wa" by (rule open_and_lock_file_opened [OF a])
  have o2: "opened w wb" by (rule opened_trans [OF o1 open_and_lock_file_opened [OF b]])
  have o3: "opened w wc" by (rule opened_trans [OF o2 open_and_lock_file_opened [OF c]])
  show ?thesis
    using assms o1 unlock_opened [OF o2] unlock_opened [OF o3] o3
    by (auto simp: lock_db_files_def a b c Let_def split: if_splits)
qed

section \<open>Saving\<close>

lemma touches_frame:
  assumes "touches P w w'"
  shows "locked w' = locked w" "pid w' = pid w" "homes w' = homes w" "p \<notin> P \<Longrightarrow> files w' p = files w p"
  using assms by (auto simp: touches_def only_files_def)

lemma save_file_locked:
  assumes "save_file enc path m rs w = (k, w')"
  shows "locked w' = locked w"
proof (cases k)
  case False
  with assms have "save_file enc path m rs w = (False, w')" by simp
  then show ?thesis by (rule touches_frame(1) [OF save_file_fail])
next
  case True
  then obtain w1 b where 1: "sys_ok w = (True, w1)" and 2: "write_atomic_text_file path b m w1 = (True, w')"
    using assms by (auto simp: save_file_def split: prod.splits if_splits option.splits)
  show ?thesis
    using touches_frame(1) [OF write_atomic_ok(2) [OF 2]] touches_frame(1) [OF sys_ok_touches [OF 1, of "{}"]]
    by simp
qed

lemma save_all_locked:
  assumes "save_all us ss gs w = (ok, w')"
  shows "locked w' = locked w"
proof -
  obtain a w1 where a: "save_users us w = (a, w1)" by fastforce
  obtain b w2 where b: "save_shadows ss w1 = (b, w2)" by fastforce
  obtain c w3 where c: "save_groups gs w2 = (c, w3)" by fastforce
  show ?thesis
    using assms save_file_locked [OF a [unfolded save_users_def]] save_file_locked [OF b [unfolded save_shadows_def]]
      save_file_locked [OF c [unfolded save_groups_def]]
    by (auto simp: save_all_def a b c split: if_splits)
qed

text \<open>The content of the three files after a successful save.\<close>

definition printed :: "('a \<Rightarrow> string) \<Rightarrow> 'a list \<Rightarrow> string" where
  "printed enc rs = concat (map (\<lambda>r. enc r @ [NL]) rs)"

lemma save_all_files:
  assumes "save_all us ss gs w = (True, w')"
  shows "files w' USERS_FILE = Some \<lparr>content = printed user_line us, fmode = octal 6 0 0\<rparr>"
    "files w' SHADOW_FILE = Some \<lparr>content = printed shadow_line ss, fmode = octal 4 0 0\<rparr>"
    "files w' GROUPS_FILE = Some \<lparr>content = printed group_line gs, fmode = octal 6 4 4\<rparr>"
proof -
  from assms obtain w1 w2 where s: "save_users us w = (True, w1)" "save_shadows ss w1 = (True, w2)"
    "save_groups gs w2 = (True, w')"
    by (auto simp: save_all_def split: prod.splits if_splits)
  note u = users.save_file_ok [OF s(1) [unfolded save_users_def]]
    and sh = shadows.save_file_ok [OF s(2) [unfolded save_shadows_def]]
    and g = groups.save_file_ok [OF s(3) [unfolded save_groups_def]]
  show "files w' GROUPS_FILE = Some \<lparr>content = printed group_line gs, fmode = octal 6 4 4\<rparr>"
    using g(1) by (simp add: printed_def)
  show "files w' SHADOW_FILE = Some \<lparr>content = printed shadow_line ss, fmode = octal 4 0 0\<rparr>"
    using sh(1) touches_frame(4) [OF g(2), of SHADOW_FILE] by (simp add: printed_def)
  show "files w' USERS_FILE = Some \<lparr>content = printed user_line us, fmode = octal 6 0 0\<rparr>"
    using u(1) touches_frame(4) [OF sh(2), of USERS_FILE] touches_frame(4) [OF g(2), of USERS_FILE]
    by (simp add: printed_def)
qed

lemma save_all_stored:
  assumes "save_all us ss gs w = (True, w')"
  shows "\<forall>u\<in>set us. user_ok u \<Longrightarrow> length us \<le> 1024 \<Longrightarrow> stored_users w' = Some us"
    "\<forall>s\<in>set ss. shadow_ok s \<Longrightarrow> length ss \<le> 1024 \<Longrightarrow> stored_shadows w' = Some ss"
    "\<forall>g\<in>set gs. group_ok g \<Longrightarrow> length gs \<le> 256 \<Longrightarrow> stored_groups w' = Some gs"
  using users.load_printed [of us "[]" 1024] shadows.load_printed [of ss "[]" 1024]
    groups.load_printed [of gs "[]" 256] save_all_files [OF assms]
  by (simp_all add: stored_users_def stored_shadows_def stored_groups_def stored_def printed_def)

section \<open>Locks are given back\<close>

lemma create_home_locked: "create_home_directory p a b w = (ok, w') \<Longrightarrow> locked w' = locked w \<and> files w' = files w"
  by (auto simp: create_home_directory_def sys_ok_def sys_def Let_def split: option.splits if_splits)

text \<open>Deleting asks the oracle and nothing else.\<close>

lemma sys_ok_tick: "sys_ok w = (k, w') \<Longrightarrow> \<exists>t. w' = w\<lparr>tick := t\<rparr>"
  by (auto simp: sys_ok_def sys_def)

lemma tick_tick: "\<exists>t. w1 = w\<lparr>tick := t\<rparr> \<Longrightarrow> \<exists>t. w2 = w1\<lparr>tick := t\<rparr> \<Longrightarrow> \<exists>t. w2 = w\<lparr>tick := t\<rparr>"
  by auto

lemma delete_node_tick:
  "\<exists>t. snd (snd (delete_node p n w)) = w\<lparr>tick := t\<rparr>"
  "\<exists>t. snd (snd (delete_entries p es w)) = w\<lparr>tick := t\<rparr>"
proof (induction p n w and p es w rule: delete_node_delete_entries.induct)
  case (1 p w)
  obtain a w1 where a: "sys_ok w = (a, w1)" by fastforce
  obtain b w2 where b: "sys_ok w1 = (b, w2)" by fastforce
  show ?case
    using sys_ok_tick [OF a] sys_ok_tick [OF b] by (auto simp: a b)
next
  case (2 p es w)
  obtain a w1 where a: "sys_ok w = (a, w1)" by fastforce
  obtain b w2 where b: "sys_ok w1 = (b, w2)" by fastforce
  obtain c es' w3 where c: "delete_entries p es w2 = (c, es', w3)" by (metis prod_cases3)
  obtain d w4 where d: "sys_ok w3 = (d, w4)" by fastforce
  note t1 = sys_ok_tick [OF a]
  note t2 = tick_tick [OF t1 sys_ok_tick [OF b]]
  have t3: "\<exists>t. w3 = w\<lparr>tick := t\<rparr>" if a b
    using "2.IH" [OF a [symmetric]] that b c by (intro tick_tick [OF t2]) simp
  have t4: "\<exists>t. w4 = w\<lparr>tick := t\<rparr>" if a b
    using tick_tick [OF t3 sys_ok_tick [OF d]] that by blast
  show ?case using t1 t2 t3 t4 by (auto simp: a b c d)
next
  case (3 p w)
  show ?case by (auto intro: exI [of _ "tick w"])
next
  case (4 p nm n es w)
  show ?case
  proof (cases "length (p @ ''/'' @ nm) \<ge> 4096")
    case True
    then show ?thesis by (auto intro: exI [of _ "tick w"])
  next
    case len: False
    obtain k n' w1 where n: "delete_node (p @ ''/'' @ nm) n w = (k, n', w1)" by (metis prod_cases3)
    have t1: "\<exists>t. w1 = w\<lparr>tick := t\<rparr>" using "4.IH"(1) [OF refl len] n by simp
    show ?thesis
    proof (cases n')
      case None
      then have "\<exists>t. snd (snd (delete_entries p es w1)) = w1\<lparr>tick := t\<rparr>"
        using "4.IH"(2) [OF refl len n [symmetric] refl] None by simp
      from tick_tick [OF t1 this] len n None show ?thesis by (simp split: prod.split)
    qed (use len n t1 in simp)
  qed
qed

lemma delete_node_frame:
  assumes "delete_node p t w = (ok, t', w')"
  shows "locked w' = locked w" "files w' = files w" "homes w' = homes w"
  using delete_node_tick(1) [of p t w] assms by auto

lemma recursive_delete_frame:
  "locked (snd (recursive_delete_path p w)) = locked w" "files (snd (recursive_delete_path p w)) = files w"
  by (auto simp: recursive_delete_path_def sys_ok_def sys_def split: option.split prod.split dest: delete_node_frame)

lemma lock_then_unlock:
  assumes "lock_db_files w = (Some locks, w1)" "unlocked w"
  shows "unlocked (unlock_db_files locks v)"
  using lock_db_files_locked(3) [OF assms] unlock_db_files_unlocked by simp

lemma prompt_unlocked:
  assumes "prompt_if_empty c n d w = (r, w')" "unlocked w"
  shows "unlocked w'"
  using io_only_frame(2) [OF io_stepD [OF io_step_prompt_if_empty assms(1)]] assms(2)
  by (simp add: unlocked_def)

lemma command_grouplist_locked: "locked (snd (command_grouplist w)) = locked w"
proof -
  obtain gs w1 where "load_groups w = (gs, w1)" by fastforce
  with io_only_frame(2) [OF io_stepD [OF io_step_loads(3) this]] show ?thesis
    by (simp add: command_grouplist_def)
qed

lemma command_userlist_locked: "locked (snd (command_userlist w)) = locked w"
proof -
  obtain us w1 where "load_users w = (us, w1)" by fastforce
  with io_only_frame(2) [OF io_stepD [OF io_step_loads(1) this]] show ?thesis
    by (simp add: command_userlist_def)
qed

lemmas leaf_splits = option.split prod.split sum.split argon2_fault.split

lemma command_init_unlocked:
  assumes "unlocked w"
  shows "unlocked (snd (command_init w))"
proof -
  obtain lk w1 where 1: "lock_db_files w = (lk, w1)" by fastforce
  show ?thesis
  proof (cases lk)
    case None
    with assms 1 lock_db_files_locked(1) [OF 1] show ?thesis by (simp add: command_init_def)
  next
    case (Some locks)
    note u = lock_then_unlock [OF 1 [unfolded Some] assms]
    have "unlocked (snd (command_grouplist (unlock_db_files locks v)))" for v
      using u [of v] command_grouplist_locked by (simp add: unlocked_def)
    with assms u show ?thesis
      by (simp add: command_init_def 1 Some Let_def split: leaf_splits)
  qed
qed

lemma command_useradd_unlocked:
  assumes "unlocked w"
  shows "fst (command_useradd opts w) \<noteq> Corrupt \<longrightarrow> unlocked (snd (command_useradd opts w))"
proof -
  obtain lk w1 where 1: "lock_db_files w = (lk, w1)" by fastforce
  show ?thesis
  proof (cases lk)
    case None
    with assms 1 lock_db_files_locked(1) [OF 1] show ?thesis by (simp add: command_useradd_def)
  next
    case (Some locks)
    note u = lock_then_unlock [OF 1 [unfolded Some] assms]
    with assms show ?thesis
      by (simp add: command_useradd_def 1 Some Let_def split: leaf_splits)
  qed
qed

lemma command_userdel_unlocked:
  assumes "unlocked w"
  shows "unlocked (snd (command_userdel opts w))"
proof -
  obtain us w0 where 0: "prompt_if_empty (o_user opts) 33 None w = (us, w0)" by fastforce
  have w0: "unlocked w0" by (rule prompt_unlocked [OF 0 assms(1)])
  obtain lk w1 where 1: "lock_db_files w0 = (lk, w1)" by fastforce
  show ?thesis
  proof (cases lk)
    case None
    with assms 0 1 w0 lock_db_files_locked(1) [OF 1] show ?thesis
      by (simp add: command_userdel_def split: option.split)
  next
    case (Some locks)
    note u = lock_then_unlock [OF 1 [unfolded Some] w0]
    have "unlocked (snd (recursive_delete_path p (unlock_db_files locks v)))" for p v
      using u [of v] recursive_delete_frame(1) by (simp add: unlocked_def)
    with assms u w0 show ?thesis
      by (simp add: command_userdel_def 0 1 Some Let_def split: leaf_splits)
  qed
qed

lemma command_usermod_unlocked:
  assumes "unlocked w"
  shows "fst (command_usermod opts w) \<noteq> Corrupt \<longrightarrow> unlocked (snd (command_usermod opts w))"
proof -
  obtain us w0 where 0: "prompt_if_empty (o_user opts) 33 None w = (us, w0)" by fastforce
  have w0: "unlocked w0" by (rule prompt_unlocked [OF 0 assms(1)])
  obtain lk w1 where 1: "lock_db_files w0 = (lk, w1)" by fastforce
  show ?thesis
  proof (cases lk)
    case None
    with assms 0 1 w0 lock_db_files_locked(1) [OF 1] show ?thesis
      by (simp add: command_usermod_def split: option.split)
  next
    case (Some locks)
    note u = lock_then_unlock [OF 1 [unfolded Some] w0]
    with assms w0 show ?thesis
      by (simp add: command_usermod_def 0 1 Some Let_def split: leaf_splits)
  qed
qed

lemma command_passwd_unlocked:
  assumes "unlocked w"
  shows "fst (command_passwd opts w) \<noteq> Corrupt \<longrightarrow> unlocked (snd (command_passwd opts w))"
proof -
  obtain lk w1 where 1: "lock_db_files w = (lk, w1)" by fastforce
  show ?thesis
  proof (cases lk)
    case None
    with assms 1 lock_db_files_locked(1) [OF 1] show ?thesis by (simp add: command_passwd_def)
  next
    case (Some locks)
    note u = lock_then_unlock [OF 1 [unfolded Some] assms]
    then show ?thesis
      by (simp add: command_passwd_def 1 Some Let_def split: leaf_splits)
  qed
qed

end
