(* ===== verification/UA_Effects.thy ===== *)
theory UA_Effects
  imports UA_Correct
begin

text \<open>
  The effect of the successful runs of \<open>useradd\<close>, \<open>userdel\<close>, \<open>usermod\<close> and \<open>passwd\<close> on the stored
  records: which records the files hold afterwards, and what was checked on the way.
\<close>

section \<open>Successful steps\<close>

lemma andthen_Some:
  "andthen m f w = (Some y, w') \<longleftrightarrow> (\<exists>x w1. m w = (Some x, w1) \<and> f x w1 = (Some y, w'))"
  by (auto simp: andthen_def split: prod.splits option.splits)

lemma require_Some [simp]: "require b w = (Some x, w') \<longleftrightarrow> b \<and> w' = w"
  by (auto simp: require_def)

lemma pure_step_Some [simp]: "pure_step y w = (Some x, w') \<longleftrightarrow> y = Some x \<and> w' = w"
  by (auto simp: pure_step_def)

lemma prompt_password_twice_Some:
  "prompt_password_twice n w = (Some p, w') \<Longrightarrow> p \<noteq> [] \<and> length p < n"
  by (auto simp: prompt_password_twice_def split: prod.splits option.splits if_splits)

lemma useradd_input_Some:
  assumes "useradd_input opts us gs w = (Some (u, pw), w')"
  shows "validate_username (username u)" "username u \<notin> username ` set us" "uid u \<notin> uid ` set us"
    "primary_gid u = uid u" "validate_fullname (fullname u)" "validate_birthdate (birthdate u)"
    "\<exists>csv. useradd_groups csv gs = Some (resource_groups u)" "pw \<noteq> []" "length pw < 256"
proof -
  have pass: "p \<noteq> [] \<and> length p < 256" if "useradd_password opts v = (Some p, v')" for p v v'
    using that prompt_password_twice_Some [of 256 v p v']
    by (auto simp: useradd_password_def split: if_splits)
  show "validate_username (username u)" "username u \<notin> username ` set us" "uid u \<notin> uid ` set us"
    "primary_gid u = uid u" "validate_fullname (fullname u)" "validate_birthdate (birthdate u)"
    "\<exists>csv. useradd_groups csv gs = Some (resource_groups u)" "pw \<noteq> []" "length pw < 256"
    using assms pass
    by (auto simp: useradd_input_def andthen_Some user_names.find_None user_ids.find_None)
qed

lemma hash_password_verifies:
  "hash_password pw w = Inr hash \<Longrightarrow> argon2id_verify (calloc_ok w) hash (bytes_of_string pw) = Inr ()"
  by (auto simp: hash_password_def create_password_hash_def split: option.splits if_splits
      intro: argon2id_verify_encoded)

text \<open>A program that limits passwords to 255 characters never overruns the buffer of the hash.\<close>

lemma hash_password_no_overrun:
  assumes "length pw < 256"
  shows "hash_password pw w \<noteq> Inl Overrun"
proof -
  have "argon2id_hash_raw c t m p (bytes_of_string pw) salt n \<noteq> Inl Overrun" if "length salt = 16" for c t m p salt n
    using assms that
    by (auto simp: argon2id_hash_raw_def Let_def length_argon2_h0_input bytes_of_string_def
        split: option.splits)
  then show ?thesis
    by (auto simp: hash_password_def create_password_hash_def argon2id_hash_encoded_def Let_def
        split: option.splits sum.splits if_splits)
qed

lemma opened_frame:
  assumes "opened w w'"
  shows "pid w' = pid w" "euid w' = euid w" "ruid w' = ruid w" "urandom w' = urandom w"
    "calloc_ok w' = calloc_ok w" "clock w' = clock w"
    "stored_users w' = stored_users w" "stored_shadows w' = stored_shadows w" "stored_groups w' = stored_groups w"
  using assms opened_stored [OF assms]
  by (auto simp: opened_def stored_users_def stored_shadows_def stored_groups_def)

lemma io_only_stored:
  assumes "io_only w w'"
  shows "stored_users w' = stored_users w" "stored_shadows w' = stored_shadows w" "stored_groups w' = stored_groups w"
  using io_only_frame(1) [OF assms] by (simp_all add: stored_users_def stored_shadows_def stored_groups_def stored_def)

text \<open>The common beginning of the commands: the locks are taken and the databases loaded.\<close>

lemma lock_load:
  assumes "lock_db_files w = (Some locks, w1)" "load_all w1 = (Some (us, ss, gs), w2)"
  shows "stored_users w = Some us" "stored_shadows w = Some ss" "stored_groups w = Some gs"
    "clock w2 = clock w" "calloc_ok w2 = calloc_ok w" "euid w2 = euid w" "ruid w2 = ruid w"
    "files w2 = files w1" "urandom w2 = urandom w"
  using load_all_stored [OF assms(2)] opened_frame [OF lock_db_files_opened [OF assms(1)]]
    io_only_frame [OF io_stepD [OF io_step_load_all assms(2)]] by simp_all

section \<open>useradd\<close>

lemma command_useradd_ok:
  assumes "command_useradd opts w = (Exit 0, w')"
  obtains locks w1 us ss gs w2 u pw w3 hash w4 where
    "euid w = 0" "lock_db_files w = (Some locks, w1)" "load_all w1 = (Some (us, ss, gs), w2)"
    "useradd_input opts us gs w2 = (Some (u, pw), w3)" "hash_password pw w3 = Inr hash"
    "length us < 1024" "length ss < 1024"
    "save_all (us @ [u]) (ss @ [fresh_shadow (username u) hash (clock w3)])
       (apply_memberships_from_users gs (us @ [u])) w3 = (True, w4)" "files w' = files w4"
proof -
  have root: "euid w = 0" using assms by (auto simp: command_useradd_def split: if_splits)
  obtain lk w1 where 1: "lock_db_files w = (lk, w1)" by fastforce
  from assms root 1 obtain locks where lk: "lk = Some locks"
    by (cases lk) (auto simp: command_useradd_def)
  obtain db w2 where 2: "load_all w1 = (db, w2)" by fastforce
  from assms root 1 lk 2 obtain us ss gs where db: "db = Some (us, ss, gs)"
    by (cases db) (auto simp: command_useradd_def)
  obtain inp w3 where 3: "useradd_input opts us gs w2 = (inp, w3)" by fastforce
  from assms root 1 lk 2 db 3 obtain u pw where inp: "inp = Some (u, pw)"
    by (cases inp) (auto simp: command_useradd_def)
  note eqs = root 1 lk 2 db 3 inp
  from assms eqs obtain hash where hash: "hash_password pw w3 = Inr hash"
    by (cases "hash_password pw w3") (auto simp: command_useradd_def split: argon2_fault.splits)
  obtain ok w4 where 4: "save_all (us @ [u]) (ss @ [fresh_shadow (username u) hash (clock w3)])
      (apply_memberships_from_users gs (us @ [u])) w3 = (ok, w4)" by fastforce
  obtain hok w5 where 5: "create_home_directory (homedir u) (uid u) (primary_gid u) w4 = (hok, w5)" by fastforce
  from assms eqs hash 4 5 create_home_locked [OF 5] have "length us < 1024" "length ss < 1024" "ok" "files w' = files w4"
    by (auto simp: command_useradd_def Let_def split: if_splits)
  with eqs hash 4 show ?thesis
    by (intro that [of locks w1 us ss gs w2 u pw w3 hash w4]) simp_all
qed

section \<open>userdel\<close>

lemma command_userdel_ok:
  assumes "command_userdel opts w = (Exit 0, w')"
  obtains user w0 locks w1 us ss gs w2 i w3 where
    "euid w = 0" "prompt_if_empty (o_user opts) 33 None w = (Some user, w0)" "validate_username user"
    "lock_db_files w0 = (Some locks, w1)" "load_all w1 = (Some (us, ss, gs), w2)"
    "find_user_by_name us user = Some i" "user \<noteq> ''root''"
    "save_all (remove_at i us)
       (case find_shadow_by_name ss user of None \<Rightarrow> ss | Some j \<Rightarrow> remove_at j ss)
       (apply_memberships_from_users gs (remove_at i us)) w2 = (True, w3)" "files w' = files w3"
proof -
  have root: "euid w = 0" using assms by (auto simp: command_userdel_def split: if_splits)
  obtain ur w0 where 0: "prompt_if_empty (o_user opts) 33 None w = (ur, w0)" by fastforce
  from assms root 0 obtain user where ur: "ur = Some user" and v: "validate_username user"
    by (cases ur) (auto simp: command_userdel_def split: if_splits)
  obtain lk w1 where 1: "lock_db_files w0 = (lk, w1)" by fastforce
  from assms root 0 ur v 1 obtain locks where lk: "lk = Some locks"
    by (cases lk) (auto simp: command_userdel_def)
  obtain db w2 where 2: "load_all w1 = (db, w2)" by fastforce
  from assms root 0 ur v 1 lk 2 obtain us ss gs where db: "db = Some (us, ss, gs)"
    by (cases db) (auto simp: command_userdel_def)
  from assms root 0 ur v 1 lk 2 db obtain i where i: "find_user_by_name us user = Some i"
    by (cases "find_user_by_name us user") (auto simp: command_userdel_def)
  then have nm: "username (us ! i) = user" using user_names.find_Some by blast
  let ?ss = "case find_shadow_by_name ss user of None \<Rightarrow> ss | Some j \<Rightarrow> remove_at j ss"
  obtain ok w3 where 3: "save_all (remove_at i us) ?ss (apply_memberships_from_users gs (remove_at i us)) w2 = (ok, w3)"
    by fastforce
  from assms root 0 ur v 1 lk 2 db i nm 3 have "user \<noteq> ''root''" "ok" "files w' = files w3"
    by (auto simp: command_userdel_def Let_def recursive_delete_frame(2) split: if_splits)
  with root 0 ur v 1 lk 2 db i 3 show ?thesis
    by (intro that [of user w0 locks w1 us ss gs w2 i w3]) simp_all
qed

section \<open>usermod and passwd\<close>

lemma command_usermod_ok:
  assumes "command_usermod opts w = (Exit 0, w')"
  obtains user w0 locks w1 us ss gs w2 i u final ss' w3 where
    "euid w = 0" "prompt_if_empty (o_user opts) 33 None w = (Some user, w0)"
    "lock_db_files w0 = (Some locks, w1)" "load_all w1 = (Some (us, ss, gs), w2)"
    "find_user_by_name us user = Some i" "usermod_user opts us i = Some u"
    "usermod_groups opts (resource_groups (us ! i)) gs = Some final"
    "usermod_shadows opts user ss w2 = Inr ss'"
    "save_all (us[i := u\<lparr>resource_groups := final\<rparr>]) ss'
       (apply_memberships_from_users gs (us[i := u\<lparr>resource_groups := final\<rparr>])) w2 = (True, w3)"
    "files w' = files w3"
proof -
  have root: "euid w = 0" using assms by (auto simp: command_usermod_def split: if_splits)
  obtain ur w0 where 0: "prompt_if_empty (o_user opts) 33 None w = (ur, w0)" by fastforce
  from assms root 0 obtain user where ur: "ur = Some user"
    by (cases ur) (auto simp: command_usermod_def split: if_splits)
  obtain lk w1 where 1: "lock_db_files w0 = (lk, w1)" by fastforce
  from assms root 0 ur 1 obtain locks where lk: "lk = Some locks"
    by (cases lk) (auto simp: command_usermod_def)
  obtain db w2 where 2: "load_all w1 = (db, w2)" by fastforce
  from assms root 0 ur 1 lk 2 obtain us ss gs where db: "db = Some (us, ss, gs)"
    by (cases db) (auto simp: command_usermod_def)
  note eqs = root 0 ur 1 lk 2 db
  from assms eqs obtain i where i: "find_user_by_name us user = Some i"
    by (cases "find_user_by_name us user") (auto simp: command_usermod_def)
  from assms eqs i obtain u where u: "usermod_user opts us i = Some u"
    by (cases "usermod_user opts us i") (auto simp: command_usermod_def)
  from assms eqs i u obtain final where f: "usermod_groups opts (resource_groups (us ! i)) gs = Some final"
    by (cases "usermod_groups opts (resource_groups (us ! i)) gs") (auto simp: command_usermod_def)
  from assms eqs i u f obtain ss' where s: "usermod_shadows opts user ss w2 = Inr ss'"
    by (cases "usermod_shadows opts user ss w2") (auto simp: command_usermod_def split: argon2_fault.splits)
  let ?us = "us[i := u\<lparr>resource_groups := final\<rparr>]"
  obtain ok w3 where 3: "save_all ?us ss' (apply_memberships_from_users gs ?us) w2 = (ok, w3)" by fastforce
  from assms eqs i u f s 3 have "ok" "files w' = files w3"
    by (auto simp: command_usermod_def Let_def split: if_splits)
  with eqs i u f s 3 show ?thesis
    by (intro that [of user w0 locks w1 us ss gs w2 i u final ss' w3]) simp_all
qed

lemma command_passwd_ok:
  assumes "command_passwd opts w = (Exit 0, w')"
  obtains locks w1 us ss gs w2 user w3 i j w4 new w5 hash w6 where
    "lock_db_files w = (Some locks, w1)" "load_all w1 = (Some (us, ss, gs), w2)"
    "passwd_target opts us w2 = (Some user, w3)"
    "find_user_by_name us user = Some i" "find_shadow_by_name ss user = Some j"
    "passwd_authorised (sh_hash (ss ! j)) w3 = (Inr (), w4)" "prompt_password_twice 256 w4 = (Some new, w5)"
    "hash_password new w5 = Inr hash"
    "save_shadows (ss[j := (ss ! j)\<lparr>sh_hash := hash, last_change_days := days_since_epoch (clock w5)\<rparr>]) w5 = (True, w6)"
    "files w' = files w6"
proof -
  obtain lk w1 where 1: "lock_db_files w = (lk, w1)" by fastforce
  from assms 1 obtain locks where lk: "lk = Some locks"
    by (cases lk) (auto simp: command_passwd_def)
  obtain db w2 where 2: "load_all w1 = (db, w2)" by fastforce
  from assms 1 lk 2 obtain us ss gs where db: "db = Some (us, ss, gs)"
    by (cases db) (auto simp: command_passwd_def)
  obtain ur w3 where 3: "passwd_target opts us w2 = (ur, w3)" by fastforce
  from assms 1 lk 2 db 3 obtain user where ur: "ur = Some user"
    by (cases ur) (auto simp: command_passwd_def)
  note eqs = 1 lk 2 db 3 ur
  from assms eqs obtain i where i: "find_user_by_name us user = Some i"
    by (cases "find_user_by_name us user") (auto simp: command_passwd_def)
  from assms eqs i obtain j where j: "find_shadow_by_name ss user = Some j"
    by (cases "find_shadow_by_name ss user") (auto simp: command_passwd_def)
  obtain au w4 where 4: "passwd_authorised (sh_hash (ss ! j)) w3 = (au, w4)" by fastforce
  from assms eqs i j 4 have au: "au = Inr ()"
    by (cases au) (auto simp: command_passwd_def split: argon2_fault.splits)
  obtain nw w5 where 5: "prompt_password_twice 256 w4 = (nw, w5)" by fastforce
  from assms eqs i j 4 au 5 obtain new where nw: "nw = Some new"
    by (cases nw) (auto simp: command_passwd_def)
  from assms eqs i j 4 au 5 nw obtain hash where hash: "hash_password new w5 = Inr hash"
    by (cases "hash_password new w5") (auto simp: command_passwd_def split: argon2_fault.splits)
  let ?ss = "ss[j := (ss ! j)\<lparr>sh_hash := hash, last_change_days := days_since_epoch (clock w5)\<rparr>]"
  obtain ok w6 where 6: "save_shadows ?ss w5 = (ok, w6)" by fastforce
  from assms eqs i j 4 au 5 nw hash 6 have "ok" "files w' = files w6"
    by (auto simp: command_passwd_def Let_def split: if_splits)
  with eqs i j 4 au 5 nw hash 6 show ?thesis
    by (intro that [of locks w1 us ss gs w2 user w3 i j w4 new w5 hash w6]) simp_all
qed

section \<open>The invariant of the databases\<close>

text \<open>Well-formed records within the array bounds, distinct names and ids, and one shadow entry
  per user.\<close>

definition db_ok :: "user_entry list \<Rightarrow> shadow_entry list \<Rightarrow> group_entry list \<Rightarrow> bool" where
  "db_ok us ss gs \<longleftrightarrow> length us \<le> 1024 \<and> length ss \<le> 1024 \<and> length gs \<le> 256 \<and>
     (\<forall>u\<in>set us. user_ok u \<and> validate_username (username u)) \<and> (\<forall>s\<in>set ss. shadow_ok s) \<and> (\<forall>g\<in>set gs. group_ok g) \<and>
     distinct (map username us) \<and> distinct (map uid us) \<and> distinct (map sh_username ss) \<and> distinct (map gname gs) \<and>
     sh_username ` set ss = username ` set us"

definition stored_db :: "os \<Rightarrow> user_entry list \<Rightarrow> shadow_entry list \<Rightarrow> group_entry list \<Rightarrow> bool" where
  "stored_db w us ss gs \<longleftrightarrow> stored_users w = Some us \<and> stored_shadows w = Some ss \<and> stored_groups w = Some gs"

lemma save_db:
  "db_ok us ss gs \<Longrightarrow> save_all us ss gs w = (True, w') \<Longrightarrow> files w'' = files w' \<Longrightarrow> stored_db w'' us ss gs"
  using save_all_stored [of us ss gs w w']
  by (simp add: db_ok_def stored_db_def stored_users_def stored_shadows_def stored_groups_def stored_def)

lemma name_clean: "validate_username n \<Longrightarrow> clean n"
  using name_char_not_special by (fastforce simp: validate_username_iff clean_def)

lemma name_start: "validate_username n \<Longrightarrow> n \<noteq> [] \<and> hd n \<noteq> CHR ''#''"
proof -
  assume "validate_username n"
  then have "n \<noteq> []" "name_char (hd n)" by (auto simp: validate_username_iff)
  moreover have "\<not> name_char CHR ''#''"
    by (simp add: name_char_def isalnum_def isdigit_def ord_def)
  ultimately show ?thesis by auto
qed

text \<open>Recomputing the members keeps the rest of every group, and the invariant.\<close>

lemma db_ok_groups:
  assumes "db_ok us ss gs"
  shows "db_ok us ss (apply_memberships_from_users gs us)"
    "\<forall>g\<in>set (apply_memberships_from_users gs us). member_set g \<subseteq> group_users us (gname g)"
    "map gname (apply_memberships_from_users gs us) = map gname gs"
proof -
  let ?hs = "apply_memberships_from_users gs us"
  have inv: "\<forall>u\<in>set us. user_inv u" "\<forall>g\<in>set gs. gname g \<noteq> []" "distinct (map gname gs)"
    using assms by (auto simp: db_ok_def user_inv_def user_ok_def group_ok_def csv_item_name)
  have g: "grown False (\<lambda>i. group_users us (gname (gs ! i))) (map (\<lambda>g. g\<lparr>members := []\<rparr>) gs) ?hs"
    using inv by (intro apply_memberships_grown) auto
  show names: "map gname ?hs = map gname gs" using grown_names(1) [OF g] by (simp add: comp_def)
  then have "length ?hs = length gs" by (metis length_map)
  moreover have "\<forall>g\<in>set ?hs. group_ok g"
    using assms name_clean csv_item_name by (intro apply_memberships_ok) (auto simp: db_ok_def)
  ultimately show "db_ok us ss ?hs" using assms names by (simp add: db_ok_def)
  have nth: "gname (?hs ! i) = gname (gs ! i)" if "i < length gs" for i
    using names that by (metis nth_map length_map)
  have bound: "\<forall>i<length gs. member_set (?hs ! i) \<subseteq> group_users us (gname (gs ! i))"
    using g by (simp add: grown_def)
  show "\<forall>g\<in>set ?hs. member_set g \<subseteq> group_users us (gname g)"
  proof
    fix g assume "g \<in> set ?hs"
    then obtain i where "i < length gs" "g = ?hs ! i"
      using \<open>length ?hs = length gs\<close> by (metis in_set_conv_nth)
    with bound nth show "member_set g \<subseteq> group_users us (gname g)" by simp
  qed
qed

lemma removed_user_not_member:
  "user \<notin> username ` set us \<Longrightarrow> user \<noteq> ''root'' \<Longrightarrow> user \<notin> group_users us n"
  by (auto simp: group_users_def)

lemma db_ok_delete:
  assumes "db_ok us ss gs"
  shows "db_ok (filter (\<lambda>u. username u \<noteq> n) us) (filter (\<lambda>s. sh_username s \<noteq> n) ss) gs"
proof -
  have "sh_username ` set (filter (\<lambda>s. sh_username s \<noteq> n) ss) = username ` set (filter (\<lambda>u. username u \<noteq> n) us)"
  proof -
    have "sh_username ` {s \<in> set ss. sh_username s \<noteq> n} = sh_username ` set ss - {n}" by auto
    moreover have "username ` {u \<in> set us. username u \<noteq> n} = username ` set us - {n}" by auto
    ultimately show ?thesis using assms by (simp add: db_ok_def)
  qed
  moreover have "distinct (map username (filter (\<lambda>u. username u \<noteq> n) us))"
    "distinct (map uid (filter (\<lambda>u. username u \<noteq> n) us))"
    "distinct (map sh_username (filter (\<lambda>s. sh_username s \<noteq> n) ss))"
    using assms by (simp_all add: db_ok_def distinct_map_filter)
  ultimately show ?thesis
    using assms le_trans [OF length_filter_le [of "\<lambda>u. username u \<noteq> n" us]]
      le_trans [OF length_filter_le [of "\<lambda>s. sh_username s \<noteq> n" ss]] by (auto simp: db_ok_def)
qed

lemma hash_password_ok:
  assumes "hash_password pw w = Inr hash"
  shows "clean hash" "length hash < 256"
proof -
  from assms obtain salt raw t m p sb hb where f: "hash = argon2_format t m p sb hb" "length hash < 256"
    "base64_encode 64 salt = Some sb" "base64_encode 128 raw = Some hb"
    by (auto simp: hash_password_def create_password_hash_def argon2id_hash_encoded_def Let_def
        split: option.splits if_splits sum.splits)
  show "length hash < 256" by fact
  have b: "clean s" if "base64_encode n x = Some s" for n x s
    using base64_encode_alphabet [OF that] isalnum_not_special by (fastforce simp: clean_def)
  have "clean (show_u32 x)" for x by (simp add: show_u32_def)
  with b [OF f(3)] b [OF f(4)] show "clean hash"
    by (simp add: f(1) argon2_format_def clean_def)
qed

lemma db_ok_add:
  assumes "db_ok us ss gs" "user_ok u" "validate_username (username u)" "username u \<notin> username ` set us"
    "uid u \<notin> uid ` set us" "length us < 1024" "length ss < 1024" "hash_password pw w = Inr hash" "now < 2 ^ 63"
  shows "db_ok (us @ [u]) (ss @ [fresh_shadow (username u) hash now]) gs"
proof -
  have "shadow_ok (fresh_shadow (username u) hash now)"
    using hash_password_ok [OF assms(8)] assms(2,9)
    by (auto simp: shadow_ok_def fresh_shadow_def user_ok_def days_since_epoch_def)
  with assms show ?thesis by (auto simp: db_ok_def fresh_shadow_def)
qed

section \<open>Group lists of a user\<close>

lemma csv_item_users: "csv_item ''users''"
  by (simp add: csv_item_def trim_whitespace_def isspace_def ord_def)

lemma add_groups_loop_length:
  "add_groups_loop toks f = Some r \<Longrightarrow> \<forall>t\<in>set toks. COMMA \<notin> set t \<Longrightarrow> length f < 512 \<Longrightarrow> length r < 512"
proof (induction toks f rule: add_groups_loop.induct)
  case (2 tok toks f)
  show ?case
  proof (cases "trim_whitespace tok = []")
    case True
    with 2 show ?thesis by (simp add: Let_def)
  next
    case False
    then have t: "csv_item (trim_whitespace tok)"
      using "2.prems"(2) set_trim_whitespace [of tok] by (auto simp: csv_item_def)
    from "2.prems"(1) False obtain a where a: "csv_add 512 f (trim_whitespace tok) = Some a" "add_groups_loop toks a = Some r"
      by (auto simp: Let_def split: option.splits)
    from "2.IH"(1) [OF refl False a(1) a(2)] csv_add_Some(2) [OF a(1) t "2.prems"(3)] "2.prems"(2) show ?thesis by simp
  qed
qed simp

lemma del_groups_loop_length: "length f < 512 \<Longrightarrow> length (del_groups_loop toks f) < 512"
  by (induction toks f rule: del_groups_loop.induct) (auto simp: Let_def csv_remove_items(2))

lemma groups_exist_iff:
  "validate_group_csv_exists csv gs \<longleftrightarrow> csv = [] \<or> (length csv < 512 \<and> set (csv_items csv) \<subseteq> gname ` set gs)"
proof -
  have "groups_exist_loop toks gs \<longleftrightarrow> (\<forall>t\<in>set toks. trim_whitespace t = [] \<or> trim_whitespace t \<in> gname ` set gs)" for toks
    by (induction toks gs rule: groups_exist_loop.induct) (auto simp: Let_def group_names.find_None)
  then show ?thesis
    by (auto simp: validate_group_csv_exists_def string_copy_def csv_items_def)
qed

lemma usermod_groups_Some:
  assumes "usermod_groups opts cur gs = Some final" "length cur < 512"
  shows "''users'' \<in> set (csv_items final)" "length final < 512" "set (csv_items final) \<subseteq> gname ` set gs"
proof -
  let ?A = "if o_groups opts \<noteq> [] then csv_normalize 512 (o_groups opts) else Some cur"
  from assms(1) obtain a where a: "?A = Some a"
    unfolding usermod_groups_def by (cases ?A) simp_all
  let ?B = "if o_add_groups opts \<noteq> [] then Option.bind (string_copy 512 (o_add_groups opts))
        (\<lambda>copy. add_groups_loop (strtok COMMA copy) a) else Some a"
  from assms(1) obtain b where b: "?B = Some b"
    unfolding usermod_groups_def a bind.bind_lunit by (cases ?B) simp_all
  let ?C = "if o_del_groups opts \<noteq> [] then map_option (\<lambda>copy. del_groups_loop (strtok COMMA copy) b)
        (string_copy 512 (o_del_groups opts)) else Some b"
  from assms(1) obtain c where c: "?C = Some c"
    unfolding usermod_groups_def a bind.bind_lunit b by (cases ?C) simp_all
  have f: "csv_add 512 c ''users'' = Some final" "validate_group_csv_exists final gs"
    using assms(1) unfolding usermod_groups_def a bind.bind_lunit b c
    by (auto simp: bind_eq_Some_conv split: if_split_asm)
  have "length a < 512"
    using a csv_normalize_Some(2) [of 512] assms(2) by (auto split: if_splits)
  then have "length b < 512"
    using b add_groups_loop_length strtok_tokens by (auto split: if_splits simp: bind_eq_Some_conv)
  then have c: "length c < 512"
    using c del_groups_loop_length by (auto split: if_splits)
  note add = csv_add_Some [OF f(1) csv_item_users c]
  show "''users'' \<in> set (csv_items final)" "length final < 512"
    using add by (auto simp: csv_ins_def)
  then show "set (csv_items final) \<subseteq> gname ` set gs"
    using f(2) by (auto simp: groups_exist_iff)
qed

lemma useradd_groups_Some:
  assumes "useradd_groups csv gs = Some r"
  shows "''users'' \<in> set (csv_items r)" "length r < 512" "set (csv_items r) \<subseteq> gname ` set gs"
    "\<forall>t\<in>set (csv_items r). validate_username t"
proof -
  from assms obtain a where a: "csv_normalize 512 csv = Some a" "csv_add 512 a ''users'' = Some r"
    "validate_group_csv_exists r gs"
    by (auto simp: useradd_groups_def split: option.splits if_splits)
  note n = csv_normalize_Some [OF a(1)]
  note add = csv_add_Some [OF a(2) csv_item_users n(2)]
  show "''users'' \<in> set (csv_items r)" "length r < 512" using add by (auto simp: csv_ins_def)
  then show "set (csv_items r) \<subseteq> gname ` set gs" using a(3) by (auto simp: groups_exist_iff)
  have "validate_username ''users''"
    by (simp add: validate_username_iff name_char_def isalnum_def isdigit_def ord_def)
  then show "\<forall>t\<in>set (csv_items r). validate_username t"
    using add(1) n(3) by (auto simp: csv_ins_def split: if_splits)
qed

lemma usermod_user_Some:
  assumes "usermod_user opts us i = Some u" "i < length us" "distinct (map uid us)"
  shows "username u = username (us ! i)" "resource_groups u = resource_groups (us ! i)"
    "distinct (map uid (us[i := u\<lparr>resource_groups := g\<rparr>]))"
proof -
  have *: "username u = username (us ! i) \<and> resource_groups u = resource_groups (us ! i) \<and>
    (uid u = uid (us ! i) \<or> uid u \<notin> uid ` set us \<or> find_user_by_uid us (uid u) = Some i)"
    using assms(1)
    by (auto simp: usermod_user_def bind_eq_Some_conv Let_def user_ids.find_None [symmetric]
        split: if_splits option.splits)
  then show "username u = username (us ! i)" "resource_groups u = resource_groups (us ! i)" by simp_all
  have upd: "map uid (us[i := u\<lparr>resource_groups := g\<rparr>]) = (map uid us)[i := uid u]"
    by (simp add: map_update)
  from * have "uid u = map uid us ! i \<or> uid u \<notin> set (map uid us)"
    using assms(2) user_ids.find_Some [of us "uid u" i] by auto
  then show "distinct (map uid (us[i := u\<lparr>resource_groups := g\<rparr>]))"
    unfolding upd using assms(2,3) by (auto intro: distinct_list_update simp: list_update_same_conv)
qed

end
