(* ===== verification/UA_Examples.thy ===== *)
theory UA_Examples
  imports UA_Effects
begin

text \<open>
  Concrete runs of the commands of \<open>eclipse-useradd\<close>, on which the witnesses of the properties rest.
  \<open>ex_machine us ss gs\<close> is a calm machine whose three database files hold the given records; the
  password hash of a run is not evaluated, only known to exist (\<open>argon2id_hash_raw_total\<close>).
\<close>

section \<open>The machine\<close>

definition ex_machine :: "user_entry list \<Rightarrow> shadow_entry list \<Rightarrow> group_entry list \<Rightarrow> string \<Rightarrow> os" where
  "ex_machine us ss gs inp =
     \<lparr>files = (\<lambda>_. None)(USERS_FILE := Some \<lparr>content = printed user_line us, fmode = octal 6 0 0\<rparr>,
        SHADOW_FILE := Some \<lparr>content = printed shadow_line ss, fmode = octal 4 0 0\<rparr>,
        GROUPS_FILE := Some \<lparr>content = printed group_line gs, fmode = octal 6 4 4\<rparr>),
      dirs = (\<lambda>_. True), homes = (\<lambda>_. None), home_meta = (\<lambda>_. None), locked = (\<lambda>_. False),
      sched = (\<lambda>_. Succeed), tick = 0, stdin = inp, tty = None, euid = 0, ruid = 0, clock = 864000,
      pid = 42, urandom = Some (replicate 16 7), stdin_is_tty = False, calloc_ok = (\<lambda>_. True)\<rparr>"

definition ex_groups :: "group_entry list" where
  "ex_groups = [\<lparr>gname = ''root'', gid = 0, description = ''super'', members = ''root''\<rparr>,
                \<lparr>gname = ''users'', gid = 100, description = ''all'', members = []\<rparr>]"

definition ex_user :: user_entry where
  "ex_user = \<lparr>username = ''ana'', uid = 1000, primary_gid = 1000, fullname = ''Ana'',
     birthdate = ''2000-02-29'', homedir = ''/home/ana'', shell = ''/bin/sh'', resource_groups = ''users''\<rparr>"

definition ex_shadow :: shadow_entry where
  "ex_shadow = \<lparr>sh_username = ''ana'', sh_hash = ''!'', last_change_days = 9, min_days = 0,
     max_days = 99999, warn_days = 7\<rparr>"

definition ex_opts :: options where
  "ex_opts = no_options\<lparr>o_user := ''ana'', o_fullname := ''Ana'', o_birthdate := ''2000-02-29'',
     o_groups := ''users'', o_home := ''/home/ana'', o_shell := ''/bin/sh'', o_password := ''secret'',
     o_uid := 1000, o_uid_set := True\<rparr>"

lemma valid_ana: "validate_username ''ana''" "validate_fullname ''Ana''" "validate_birthdate ''2000-02-29''"
proof -
  show "validate_username ''ana''" "validate_fullname ''Ana''"
    by (simp_all add: validate_username_iff name_char_def isalnum_def isdigit_def ord_def validate_fullname_iff)
  show "validate_birthdate ''2000-02-29''"
    by (simp add: validate_birthdate_def scan_date_def scan_d_def skip_ws_def isspace_def ord_def isdigit_def
        dec_val_def digit_val_def is_leap_year_def)
qed

lemma ex_db_ok: "db_ok [] [] ex_groups" "db_ok [ex_user] [ex_shadow] ex_groups"
  using valid_ana(1)
  by (simp_all add: db_ok_def ex_groups_def group_ok_def ex_user_def user_ok_def ex_shadow_def shadow_ok_def clean_def)

lemma ex_stored:
  assumes "db_ok us ss gs"
  shows "stored_db (ex_machine us ss gs inp) us ss gs"
  using assms users.load_printed [of us "[]" 1024] shadows.load_printed [of ss "[]" 1024] groups.load_printed [of gs "[]" 256]
  by (simp add: stored_db_def stored_users_def stored_shadows_def stored_groups_def stored_def ex_machine_def
      db_ok_def printed_def)

section \<open>Locking, loading and saving succeed\<close>

lemma ex_lock_load:
  assumes "db_ok us ss gs"
  obtains locks w1 w2 where "lock_db_files (ex_machine us ss gs inp) = (Some locks, w1)"
    "load_all w1 = (Some (us, ss, gs), w2)" "calm w2" "pid w2 = 42" "stdin w2 = inp" "tty w2 = None"
    "euid w2 = 0" "stdin_is_tty w2 = False" "clock w2 = 864000" "calloc_ok w2 = (\<lambda>_. True)"
    "urandom w2 = Some (replicate 16 7)"
proof -
  let ?m = "ex_machine us ss gs inp"
  let ?locks = "\<lparr>users_fd = Some USERS_FILE, shadow_fd = Some SHADOW_FILE, groups_fd = Some GROUPS_FILE\<rparr>"
  have d: "dirname p \<noteq> None \<and> length p < 4096" if "p \<in> {USERS_FILE, SHADOW_FILE, GROUPS_FILE}" for p
    using that by (auto simp: USERS_FILE_def SHADOW_FILE_def GROUPS_FILE_def dirname_def)
  obtain a b c where dn: "dirname USERS_FILE = Some a" "dirname SHADOW_FILE = Some b" "dirname GROUPS_FILE = Some c"
    using d [of USERS_FILE] d [of SHADOW_FILE] d [of GROUPS_FILE] by auto
  define w1 where "w1 = ?m\<lparr>locked := (\<lambda>_. False)(USERS_FILE := True, SHADOW_FILE := True, GROUPS_FILE := True), tick := 6\<rparr>"
  have lk: "lock_db_files ?m = (Some ?locks, w1)"
    using d [of USERS_FILE] d [of SHADOW_FILE] d [of GROUPS_FILE]
    by (simp add: lock_db_files_def open_and_lock_file_def ensure_parent_directory_def string_copy_def dn Let_def
        ex_machine_def sys_ok_def sys_def w1_def)
  have ld: "load_all w1 = (Some (us, ss, gs), w1\<lparr>tick := 9\<rparr>)"
    using assms users.load_printed [of us "[]" 1024] shadows.load_printed [of ss "[]" 1024] groups.load_printed [of gs "[]" 256]
    by (simp add: load_all_def andthen_def load_users_def load_shadows_def load_groups_def load_file_def pure_step_def
        w1_def ex_machine_def sys_ok_def sys_def db_ok_def printed_def)
  show ?thesis
    by (rule that [OF lk ld]) (simp_all add: calm_def w1_def ex_machine_def)
qed

lemma save_all_progress:
  assumes "calm w" "pid w = 42" "\<forall>u\<in>set us. length (user_line u) < 512" "\<forall>s\<in>set ss. length (shadow_line s) < 512"
    "\<forall>g\<in>set gs. length (group_line g) < 512"
  shows "\<exists>w'. save_all us ss gs w = (True, w') \<and> calm w'"
proof -
  have tmp: "length (tmp_path p v) < 4096" if "pid v = 42" "p \<in> {USERS_FILE, SHADOW_FILE, GROUPS_FILE}" for v p
    using that by (auto simp: tmp_path_def USERS_FILE_def SHADOW_FILE_def GROUPS_FILE_def show_nat.simps)
  obtain w3 where 3: "save_users us w = (True, w3)" "calm w3" "pid w3 = 42"
    using save_file_progress [OF assms(1) tmp [OF assms(2)] assms(3), of USERS_FILE "octal 6 0 0"] assms(2)
    by (auto simp: save_users_def)
  obtain w4 where 4: "save_shadows ss w3 = (True, w4)" "calm w4" "pid w4 = 42"
    using save_file_progress [OF 3(2) tmp [OF 3(3)] assms(4), of SHADOW_FILE "octal 4 0 0"] 3(3)
    by (auto simp: save_shadows_def)
  obtain w5 where "save_groups gs w4 = (True, w5)" "calm w5"
    using save_file_progress [OF 4(2) tmp [OF 4(3)] assms(5), of GROUPS_FILE "octal 6 4 4"]
    by (auto simp: save_groups_def)
  with 3 4 show ?thesis by (simp add: save_all_def)
qed

lemma ex_hash:
  assumes "calloc_ok w = (\<lambda>_. True)" "urandom w = Some (replicate 16 7)" "length pw < 256"
  obtains hash where "hash_password pw w = Inr hash"
proof -
  let ?salt = "replicate 16 (7 :: byte)"
  obtain out where raw: "argon2id_hash_raw (\<lambda>_. True) 3 65536 1 (bytes_of_string pw) ?salt 32 = Inr out" "length out = 32"
    using argon2id_hash_raw_total [of 32 ?salt "bytes_of_string pw" "\<lambda>_. True" 3 65536] assms(3)
    by (auto simp: bytes_of_string_def)
  obtain sb where sb: "base64_encode 64 ?salt = Some sb" "length sb = b64_len 16"
    using base64_encode_total [of ?salt 64] by auto
  obtain hb where hb: "base64_encode 128 out = Some hb" "length hb = b64_len 32"
    using base64_encode_total [of out 128] raw(2) by auto
  have "length (argon2_format 3 65536 1 sb hb) < 256"
    using show_u32_length [of 3] show_u32_length [of 65536] show_u32_length [of 1] show_u32_length [of 19] sb(2) hb(2)
    by (simp add: argon2_format_def show_u32_def b64_len_def)
  with raw(1) sb(1) hb(1) assms show ?thesis
    by (intro that) (simp add: hash_password_def create_password_hash_def argon2id_hash_encoded_def Let_def)
qed

section \<open>The runs\<close>

lemma ex_lines:
  "length (user_line ex_user) < 512" "length (shadow_line ex_shadow) < 512"
  "length hash < 256 \<Longrightarrow> length (shadow_line (fresh_shadow ''ana'' hash 864000)) < 512"
  "length hash < 256 \<Longrightarrow> length (shadow_line (ex_shadow\<lparr>sh_hash := hash, last_change_days := 10\<rparr>)) < 512"
  using show_u32_length [of 1000] show_int_length [of 10] show_int_length [of 0] show_int_length [of 99999]
    show_int_length [of 7] show_int_length [of 9]
  by (simp_all add: user_line_def ex_user_def shadow_line_def ex_shadow_def fresh_shadow_def days_since_epoch_def)

lemmas ex_csv = apply_memberships_from_users_def ex_groups_def ex_user_def apply_user_def string_copy_def strtok_def
  trim_whitespace_def isspace_def ord_def add_member_def find_group_by_name_def csv_add_def csv_contains_def

lemma ex_group_lines:
  "\<forall>g\<in>set (apply_memberships_from_users ex_groups [ex_user]). length (group_line g) < 512"
  "\<forall>g\<in>set (apply_memberships_from_users ex_groups []). length (group_line g) < 512"
  using show_u32_length [of 0] show_u32_length [of 100]
  by (simp_all add: ex_csv Let_def group_line_def)

lemma ex_input: "useradd_input ex_opts [] ex_groups w = (Some (ex_user, ''secret''), w)"
proof -
  have "useradd_groups ''users'' ex_groups = Some ''users''"
    by (simp add: useradd_groups_def csv_normalize_def ex_csv validate_username_iff name_char_def isalnum_def
        isdigit_def validate_group_csv_exists_def)
  with valid_ana show ?thesis
    by (simp add: useradd_input_def andthen_def ex_opts_def no_options_def prompt_if_empty_def require_def pure_step_def
        useradd_uid_def useradd_password_def string_copy_def find_user_by_name_def find_user_by_uid_def ex_user_def)
qed

lemma ex_useradd: obtains w' where "command_useradd ex_opts (ex_machine [] [] ex_groups []) = (Exit 0, w')"
proof -
  obtain locks w1 w2 where r: "lock_db_files (ex_machine [] [] ex_groups []) = (Some locks, w1)"
    "load_all w1 = (Some ([], [], ex_groups), w2)" "calm w2" "pid w2 = 42" "clock w2 = 864000"
    "calloc_ok w2 = (\<lambda>_. True)" "urandom w2 = Some (replicate 16 7)"
    using ex_lock_load [OF ex_db_ok(1)] by metis
  obtain hash where h: "hash_password ''secret'' w2 = Inr hash"
    using ex_hash [OF r(6,7), of "''secret''"] by auto
  let ?gs = "apply_memberships_from_users ex_groups [ex_user]"
  obtain w3 where s: "save_all [ex_user] [fresh_shadow ''ana'' hash 864000] ?gs w2 = (True, w3)"
    using save_all_progress [OF r(3,4), of "[ex_user]" "[fresh_shadow ''ana'' hash 864000]" ?gs]
      ex_lines ex_group_lines(1) hash_password_ok(2) [OF h] by auto
  have nm: "username ex_user = ''ana''" by (simp add: ex_user_def)
  have eu: "euid (ex_machine [] [] ex_groups []) = 0" by (simp add: ex_machine_def)
  have "\<exists>w'. command_useradd ex_opts (ex_machine [] [] ex_groups []) = (Exit 0, w')"
    using r h s by (simp add: command_useradd_def ex_input eu nm Let_def split: prod.split)
  then show ?thesis using that by blast
qed

lemma ex_userdel:
  obtains w' where "command_userdel (no_options\<lparr>o_user := ''ana''\<rparr>) (ex_machine [ex_user] [ex_shadow] ex_groups []) = (Exit 0, w')"
proof -
  let ?m = "ex_machine [ex_user] [ex_shadow] ex_groups []"
  obtain locks w1 w2 where r: "lock_db_files ?m = (Some locks, w1)"
    "load_all w1 = (Some ([ex_user], [ex_shadow], ex_groups), w2)" "calm w2" "pid w2 = 42"
    using ex_lock_load [OF ex_db_ok(2)] by metis
  obtain w3 where s: "save_all [] [] (apply_memberships_from_users ex_groups []) w2 = (True, w3)"
    using save_all_progress [OF r(3,4), of "[]" "[]"] ex_group_lines(2) by auto
  have "find_user_by_name [ex_user] ''ana'' = Some 0" "find_shadow_by_name [ex_shadow] ''ana'' = Some 0"
    "username ex_user \<noteq> ''root''" "euid ?m = 0"
    by (simp_all add: find_user_by_name_def find_shadow_by_name_def ex_user_def ex_shadow_def ex_machine_def)
  with r s valid_ana(1)
  have "\<exists>w'. command_userdel (no_options\<lparr>o_user := ''ana''\<rparr>) ?m = (Exit 0, w')"
    by (simp add: command_userdel_def prompt_if_empty_def no_options_def remove_at_def Let_def)
  then show ?thesis using that by blast
qed

lemma ex_usermod:
  obtains w' where "command_usermod (no_options\<lparr>o_user := ''ana'', o_shell := ''/bin/ash''\<rparr>)
    (ex_machine [ex_user] [ex_shadow] ex_groups []) = (Exit 0, w')"
proof -
  let ?m = "ex_machine [ex_user] [ex_shadow] ex_groups []"
  let ?o = "no_options\<lparr>o_user := ''ana'', o_shell := ''/bin/ash''\<rparr>"
  let ?u = "ex_user\<lparr>shell := ''/bin/ash'', resource_groups := ''users''\<rparr>"
  obtain locks w1 w2 where r: "lock_db_files ?m = (Some locks, w1)"
    "load_all w1 = (Some ([ex_user], [ex_shadow], ex_groups), w2)" "calm w2" "pid w2 = 42"
    using ex_lock_load [OF ex_db_ok(2)] by metis
  have u: "length (user_line ?u) < 512" "\<forall>g\<in>set (apply_memberships_from_users ex_groups [?u]). length (group_line g) < 512"
    using show_u32_length [of 1000] show_u32_length [of 0] show_u32_length [of 100]
    by (simp_all add: user_line_def ex_csv Let_def group_line_def)
  obtain w3 where s: "save_all [?u] [ex_shadow] (apply_memberships_from_users ex_groups [?u]) w2 = (True, w3)"
    using save_all_progress [OF r(3,4), of "[?u]" "[ex_shadow]"] u ex_lines(2) by auto
  have f: "find_user_by_name [ex_user] ''ana'' = Some 0" "euid ?m = 0"
    by (simp_all add: find_user_by_name_def ex_user_def ex_machine_def)
  have g: "usermod_groups ?o (resource_groups ex_user) ex_groups = Some ''users''"
    by (simp add: usermod_groups_def no_options_def ex_csv validate_group_csv_exists_def)
  have o: "usermod_user ?o [ex_user] 0 = Some (ex_user\<lparr>shell := ''/bin/ash''\<rparr>)" "usermod_shadows ?o n ss w = Inr ss" for n ss w
    by (simp_all add: usermod_user_def usermod_shadows_def no_options_def)
  have "\<exists>w'. command_usermod ?o ?m = (Exit 0, w')"
    using r s f g o
    by (simp add: command_usermod_def prompt_if_empty_def no_options_def Let_def)
  then show ?thesis using that by blast
qed

text \<open>Root gives \<open>ana\<close> a new password, typed twice on standard input.\<close>

lemma ex_passwd:
  obtains w' where "command_passwd (no_options\<lparr>o_user := ''ana''\<rparr>)
    (ex_machine [ex_user] [ex_shadow] ex_groups (''pw'' @ [NL] @ ''pw'' @ [NL])) = (Exit 0, w')"
proof -
  let ?m = "ex_machine [ex_user] [ex_shadow] ex_groups (''pw'' @ [NL] @ ''pw'' @ [NL])"
  obtain locks w1 w2 where r: "lock_db_files ?m = (Some locks, w1)"
    "load_all w1 = (Some ([ex_user], [ex_shadow], ex_groups), w2)" "calm w2" "pid w2 = 42"
    "stdin w2 = ''pw'' @ [NL] @ ''pw'' @ [NL]" "tty w2 = None" "euid w2 = 0" "stdin_is_tty w2 = False"
    "clock w2 = 864000" "calloc_ok w2 = (\<lambda>_. True)" "urandom w2 = Some (replicate 16 7)"
    using ex_lock_load [OF ex_db_ok(2)] by metis
  define w3 where "w3 = w2\<lparr>stdin := []\<rparr>"
  have "prompt_password_twice 256 w2 = (Some ''pw'', w3)"
    using r(5,6,8)
    by (simp add: prompt_password_twice_def read_hidden_line_def tty_setup_def fgets_def w3_def trim_newline_def
        strcspn_def cstr_of_def numeral_eq_Suc)
  moreover have w3: "calm w3" "pid w3 = 42" "clock w3 = 864000" "calloc_ok w3 = (\<lambda>_. True)" "urandom w3 = Some (replicate 16 7)"
    using r by (simp_all add: w3_def calm_def)
  moreover obtain hash where h: "hash_password ''pw'' w3 = Inr hash"
    using ex_hash [OF w3(4,5), of "''pw''"] by auto
  moreover obtain w4 where "save_shadows [ex_shadow\<lparr>sh_hash := hash, last_change_days := 10\<rparr>] w3 = (True, w4)"
  proof -
    have "length (tmp_path SHADOW_FILE w3) < 4096"
      using w3(2) by (simp add: tmp_path_def SHADOW_FILE_def show_nat.simps)
    from save_file_progress [OF w3(1) this, of "[ex_shadow\<lparr>sh_hash := hash, last_change_days := 10\<rparr>]" shadow_line]
      ex_lines(4) [OF hash_password_ok(2) [OF h]] that show ?thesis by (auto simp: save_shadows_def)
  qed
  moreover have "find_user_by_name [ex_user] ''ana'' = Some 0" "find_shadow_by_name [ex_shadow] ''ana'' = Some 0"
    by (simp_all add: find_user_by_name_def find_shadow_by_name_def ex_user_def ex_shadow_def)
  ultimately have "\<exists>w'. command_passwd (no_options\<lparr>o_user := ''ana''\<rparr>) ?m = (Exit 0, w')"
    using r by (simp add: command_passwd_def passwd_target_def passwd_authorised_def prompt_if_empty_def no_options_def
        days_since_epoch_def Let_def)
  then show ?thesis using that by blast
qed

end
