(* ===== verification/UA_Properties.thy ===== *)
theory UA_Properties
  imports UA_Examples
begin

text \<open>
  The properties of \<open>eclipse-useradd\<close> (\<^verbatim>\<open>tools/eclipse-useradd/eclipse-useradd.c\<close>), each followed
  by a witness where it has hypotheses. The witnesses run the commands on the machine of
  \<open>UA_Examples\<close>.
\<close>

section \<open>Commands\<close>









text \<open>C5: \<open>usermod\<close> changes one user in place: the name stays, names and user ids stay distinct, and the
  new group list contains \<open>users\<close> and only groups that exist.\<close>

theorem usermod_effect:
  assumes "command_usermod opts w = (Exit 0, w')" "stored_db w us ss gs" "db_ok us ss gs"
  shows "\<exists>i u. i < length us \<and> username u = username (us ! i) \<and>
    files w' USERS_FILE = Some \<lparr>content = printed user_line (us[i := u]), fmode = octal 6 0 0\<rparr> \<and>
    distinct (map username (us[i := u])) \<and> distinct (map uid (us[i := u])) \<and>
    ''users'' \<in> set (csv_items (resource_groups u)) \<and> set (csv_items (resource_groups u)) \<subseteq> gname ` set gs"
proof -
  obtain user w0 locks w1 us2 ss2 gs2 w2 i u final ss' w3 where r:
    "prompt_if_empty (o_user opts) 33 None w = (Some user, w0)"
    "lock_db_files w0 = (Some locks, w1)" "load_all w1 = (Some (us2, ss2, gs2), w2)"
    "find_user_by_name us2 user = Some i" "usermod_user opts us2 i = Some u"
    "usermod_groups opts (resource_groups (us2 ! i)) gs2 = Some final"
    "save_all (us2[i := u\<lparr>resource_groups := final\<rparr>]) ss'
       (apply_memberships_from_users gs2 (us2[i := u\<lparr>resource_groups := final\<rparr>])) w2 = (True, w3)"
    "files w' = files w3"
    using command_usermod_ok [OF assms(1)] by metis
  have e: "us2 = us" "gs2 = gs"
    using lock_load(1-3) [OF r(2,3)] io_only_stored [OF io_stepD [OF io_step_prompt_if_empty r(1)]] assms(2)
    by (simp_all add: stored_db_def)
  from user_names.find_Some [OF r(4)] have i: "i < length us" "username (us ! i) = user" using e by simp_all
  have "length (resource_groups (us ! i)) < 512"
    using assms(3) i(1) nth_mem by (fastforce simp: db_ok_def user_ok_def)
  note g = usermod_groups_Some [OF r(6) [unfolded e] this]
  have "distinct (map uid us)" using assms(3) by (simp add: db_ok_def)
  note u = usermod_user_Some [OF r(5) [unfolded e] i(1) this]
  have "map username (us[i := u\<lparr>resource_groups := final\<rparr>]) = map username us"
    using user_names.keys_update [OF r(4) [unfolded e]] u(1) i(2) assms(3) by (simp add: db_ok_def)
  with assms(3) i(1) g u save_all_files(1) [OF r(7)] r(8) e show ?thesis
    by (intro exI [of _ i] exI [of _ "u\<lparr>resource_groups := final\<rparr>"]) (simp add: db_ok_def)
qed

theorem usermod_effect_witness:
  "\<exists>w' f. command_usermod (no_options\<lparr>o_user := ''ana'', o_shell := ''/bin/ash''\<rparr>)
    (ex_machine [ex_user] [ex_shadow] ex_groups []) = (Exit 0, w') \<and> files w' USERS_FILE = Some f"
proof -
  obtain w' where r: "command_usermod (no_options\<lparr>o_user := ''ana'', o_shell := ''/bin/ash''\<rparr>)
    (ex_machine [ex_user] [ex_shadow] ex_groups []) = (Exit 0, w')"
    by (rule ex_usermod)
  from usermod_effect [OF r ex_stored [OF ex_db_ok(2)] ex_db_ok(2)] r show ?thesis by blast
qed

text \<open>C6: Every command gives its locks back: started with none of the three database locks held, it ends
  with none held, whatever system calls fail on the way (the one exception is the outcome in which the
  program has written past an array).\<close>

theorem commands_release_locks:
  assumes "unlocked w"
  shows "unlocked (snd (command_init w)) \<and> unlocked (snd (command_userdel opts w)) \<and>
    (fst (command_useradd opts w) \<noteq> Corrupt \<longrightarrow> unlocked (snd (command_useradd opts w))) \<and>
    (fst (command_usermod opts w) \<noteq> Corrupt \<longrightarrow> unlocked (snd (command_usermod opts w))) \<and>
    (fst (command_passwd opts w) \<noteq> Corrupt \<longrightarrow> unlocked (snd (command_passwd opts w)))"
  using command_init_unlocked [OF assms] command_userdel_unlocked [OF assms] command_useradd_unlocked [OF assms]
    command_usermod_unlocked [OF assms] command_passwd_unlocked [OF assms] by blast

theorem commands_release_locks_witness:
  "unlocked (ex_machine [] [] ex_groups []) \<and> unlocked (snd (command_useradd ex_opts (ex_machine [] [] ex_groups [])))"
proof -
  have u: "unlocked (ex_machine [] [] ex_groups [])" by (simp add: unlocked_def ex_machine_def)
  obtain w' where "command_useradd ex_opts (ex_machine [] [] ex_groups []) = (Exit 0, w')" by (rule ex_useradd)
  with commands_release_locks [OF u, of ex_opts] u show ?thesis by simp
qed

section \<open>Files\<close>

text \<open>C7: \<open>write_atomic_text_file\<close> is all or nothing for every schedule of failures and short writes: on
  success the target holds exactly the new content with the requested mode, and the temporary file is
  gone; on failure the target, and every other file but the temporary one, is as before.\<close>

theorem write_is_atomic:
  "case write_atomic_text_file path cont m w of (ok, w') \<Rightarrow>
     (if ok then files w' = (files w)(path := Some \<lparr>content = cont, fmode = m\<rparr>, tmp_path path w := None)
      else (\<forall>p. p = tmp_path path w \<or> files w' p = files w p) \<and> files w' path = files w path) \<and>
     locked w' = locked w"
proof -
  obtain ok w' where e: "write_atomic_text_file path cont m w = (ok, w')" by fastforce
  show ?thesis
  proof (cases ok)
    case True
    with e write_atomic_ok [of path cont m w w'] touches_frame(1) show ?thesis by auto
  next
    case False
    with e have "touches {tmp_path path w} w w'" using write_atomic_fail by simp
    from touches_frame(1,4) [OF this] False e tmp_path_neq [of path w] show ?thesis by auto
  qed
qed

text \<open>C8: Saving and loading are inverse: databases that satisfy the invariant and were saved are exactly
  what loading returns afterwards, once the files can be opened.\<close>

theorem database_roundtrip:
  assumes "db_ok us ss gs" "save_all us ss gs w = (True, w')" "calm w'"
  shows "fst (load_all w') = Some (us, ss, gs)"
proof -
  have s: "stored_users w' = Some us" "stored_shadows w' = Some ss" "stored_groups w' = Some gs"
    using save_db [OF assms(1,2) refl] by (simp_all add: stored_db_def)
  show ?thesis
    using s assms(3) save_all_files [OF assms(2)]
    by (simp add: load_all_def andthen_def pure_step_def load_users_def load_shadows_def load_groups_def
        stored_users_def stored_shadows_def stored_groups_def load_file_def stored_def calm_sys calm_frame)
qed

theorem database_roundtrip_witness:
  "\<exists>w'. save_all [ex_user] [ex_shadow] ex_groups (ex_machine [] [] [] []) = (True, w') \<and>
    fst (load_all w') = Some ([ex_user], [ex_shadow], ex_groups)"
proof -
  have c: "calm (ex_machine [] [] [] [])" "pid (ex_machine [] [] [] []) = 42"
    by (simp_all add: calm_def ex_machine_def)
  have "\<forall>g\<in>set ex_groups. length (group_line g) < 512"
    using show_u32_length [of 0] show_u32_length [of 100] by (simp add: ex_groups_def group_line_def)
  then obtain w' where w': "save_all [ex_user] [ex_shadow] ex_groups (ex_machine [] [] [] []) = (True, w')" "calm w'"
    using save_all_progress [OF c, of "[ex_user]" "[ex_shadow]" ex_groups] ex_lines(1,2) by auto
  from database_roundtrip [OF ex_db_ok(2) w'] w'(1) show ?thesis by blast
qed

text \<open>C9: The members of every group are computed from the users: nobody is listed who does not belong
  to the group (by its own group list, or as \<open>root\<close> in \<open>root\<close>), names, ids and descriptions of the groups
  are kept, and when all names together fit a list, everybody who belongs to the group is listed.\<close>

theorem memberships_correct:
  assumes "\<forall>u\<in>set us. user_inv u" "distinct (map gname gs)" "\<forall>g\<in>set gs. gname g \<noteq> []"
  shows "map (\<lambda>g. g\<lparr>members := []\<rparr>) (apply_memberships_from_users gs us) = map (\<lambda>g. g\<lparr>members := []\<rparr>) gs \<and>
    (\<forall>i<length gs. member_set (apply_memberships_from_users gs us ! i) \<subseteq> group_users us (gname (gs ! i))) \<and>
    (weight (insert ''root'' (username ` set us)) \<le> 512 \<longrightarrow>
     (\<forall>i<length gs. member_set (apply_memberships_from_users gs us ! i) = group_users us (gname (gs ! i))))"
proof -
  have "map (\<lambda>g. g\<lparr>members := []\<rparr>) (map (\<lambda>g. g\<lparr>members := []\<rparr>) gs) = map (\<lambda>g. g\<lparr>members := []\<rparr>) gs"
    by (simp add: comp_def)
  with apply_memberships_grown [OF assms, of False] apply_memberships_grown [OF assms, of True]
  show ?thesis by (auto simp: grown_def)
qed

theorem memberships_correct_witness:
  "member_set (apply_memberships_from_users ex_groups [ex_user] ! 1) = {''ana''}"
proof -
  have "\<forall>u\<in>set [ex_user]. user_inv u"
    by (simp add: user_inv_def csv_item_def ex_user_def trim_whitespace_def isspace_def ord_def)
  moreover have "distinct (map gname ex_groups)" "\<forall>g\<in>set ex_groups. gname g \<noteq> []" "length ex_groups = 2"
    by (simp_all add: ex_groups_def)
  moreover have "weight (insert ''root'' (username ` set [ex_user])) \<le> 512"
    by (simp add: weight_def ex_user_def)
  moreover have "group_users [ex_user] (gname (ex_groups ! 1)) = {''ana''}"
    by (auto simp: group_users_def belongs_def ex_groups_def ex_user_def csv_items_def strtok_def
        trim_whitespace_def isspace_def ord_def)
  ultimately show ?thesis using memberships_correct [of "[ex_user]" ex_groups] by simp
qed

section \<open>Passwords\<close>

text \<open>C10: A password hashed with \<open>argon2id_hash_encoded\<close> into a buffer of at most \<open>MAX_HASH\<close> bytes is
  accepted by \<open>argon2id_verify\<close> against the encoded string: the printed parameters, salt and hash survive
  splitting at the dollar signs, \<open>sscanf\<close> and base64 decoding.\<close>

theorem password_roundtrip:
  assumes "argon2id_hash_encoded c t m p pwd salt hashlen n = Inr encoded" "n \<le> 256"
  shows "argon2id_verify c encoded pwd = Inr ()"
  using assms by (rule argon2id_verify_encoded)

theorem password_roundtrip_witness:
  "\<exists>encoded. argon2id_hash_encoded (\<lambda>_. True) 3 65536 1 (bytes_of_string ''pw'') (replicate 16 7) 32 256 = Inr encoded \<and>
    argon2id_verify (\<lambda>_. True) encoded (bytes_of_string ''pw'') = Inr ()"
proof -
  let ?m = "ex_machine [] [] [] []"
  have "calloc_ok ?m = (\<lambda>_. True)" "urandom ?m = Some (replicate 16 7)" by (simp_all add: ex_machine_def)
  then obtain hash where "hash_password ''pw'' ?m = Inr hash" using ex_hash [of ?m "''pw''"] by auto
  then have h: "argon2id_hash_encoded (\<lambda>_. True) 3 65536 1 (bytes_of_string ''pw'') (replicate 16 7) 32 256 = Inr hash"
    by (simp add: hash_password_def create_password_hash_def ex_machine_def)
  from password_roundtrip [OF h] h show ?thesis by auto
qed

text \<open>C11: \<open>argon2id_verify\<close> accepts only a match: when it succeeds, hashing the given password with the
  parameters and the salt read from the encoded string gives exactly the hash stored in it.\<close>

theorem verify_only_matches:
  assumes "argon2id_verify c encoded pwd = Inr ()"
  shows "\<exists>m t p salt hash. scan_params (split_parts 6 encoded ! 2) = Some (m, t, p) \<and>
    base64_decode 64 (split_parts 6 encoded ! 3) = Some salt \<and>
    base64_decode 64 (split_parts 6 encoded ! 4) = Some hash \<and>
    argon2id_hash_raw c t m p pwd salt (length hash) = Inr hash"
  using assms by (rule argon2id_verify_sound)

theorem verify_only_matches_witness:
  "\<exists>encoded hash. argon2id_verify (\<lambda>_. True) encoded (bytes_of_string ''pw'') = Inr () \<and>
    base64_decode 64 (split_parts 6 encoded ! 4) = Some hash"
proof -
  let ?m = "ex_machine [] [] [] []"
  have "calloc_ok ?m = (\<lambda>_. True)" "urandom ?m = Some (replicate 16 7)" by (simp_all add: ex_machine_def)
  then obtain hash where "hash_password ''pw'' ?m = Inr hash" using ex_hash [of ?m "''pw''"] by auto
  from hash_password_verifies [OF this]
  have v: "argon2id_verify (\<lambda>_. True) hash (bytes_of_string ''pw'') = Inr ()" by (simp add: ex_machine_def)
  from verify_only_matches [OF v] v show ?thesis by blast
qed

text \<open>C12: The reference block of Argon2 is always one that may be read: in the first pass it lies before
  the previous block; in later passes it is inside the memory and is neither the block being computed,
  nor its predecessor, nor one of the current segment that the pass has not reached.\<close>

theorem argon2_reference_block:
  fixes r :: u64
  assumes "slc < 4" "index < seg" "8 * seg \<le> 2 ^ 32" "2 \<le> slc * seg + index"
  defines "ref \<equiv> \<lambda>pass. unat (argon2_index_alpha pass (of_nat slc) (of_nat index) (of_nat (4 * seg)) (of_nat seg) r)"
  shows "ref 0 < slc * seg + index - 1 \<and>
    (\<forall>pass. pass \<noteq> 0 \<longrightarrow> ref pass < 4 * seg \<and> ref pass \<noteq> slc * seg + index - 1 \<and>
      \<not> (slc * seg + index \<le> ref pass \<and> ref pass < (slc + 1) * seg))"
proof -
  have "4 * seg < 2 ^ 32" using assms(3) by simp
  then have "ref 0 < slc * seg + index - 1"
    unfolding ref_def by (rule argon2_index_alpha_first_pass [OF assms(1,2) _ assms(4)])
  moreover have ne: "slc * seg + index \<noteq> 0" using assms(4) by linarith
  have "ref pass < 4 * seg" "ref pass \<noteq> slc * seg + index - 1"
    "\<not> (slc * seg + index \<le> ref pass \<and> ref pass < (slc + 1) * seg)" if "pass \<noteq> 0" for pass
    using argon2_index_alpha_later_pass [OF that assms(1-3), of r] unfolding ref_def if_not_P [OF ne] by blast+
  ultimately show ?thesis by blast
qed

theorem argon2_reference_block_witness:
  "unat (argon2_index_alpha 0 (of_nat 1) (of_nat 1) (of_nat (4 * 4)) (of_nat 4) 77) < 4"
  using argon2_reference_block [of 1 1 4 77] by simp

text \<open>C13: The incremental BLAKE2b of the program computes the reference function (RFC 7693) of the
  concatenated input, however the input is cut into pieces.\<close>

theorem blake2b_incremental:
  assumes "0 < n" "n \<le> 64"
  shows "\<exists>S. blake2b_init n = Some S \<and>
    (\<forall>chunks. blake2b_final (foldl blake2b_update S chunks) n = Some (blake2b_ref n (concat chunks)))"
  using assms by (rule blake2b_feed_ref)

theorem blake2b_incremental_witness:
  "\<exists>S. blake2b_init 32 = Some S \<and>
    blake2b_final (blake2b_update (blake2b_update S [1, 2]) [3]) 32 = Some (blake2b_ref 32 [1, 2, 3])"
  using blake2b_incremental [of 32] by (auto dest!: spec [of _ "[[1, 2], [3]]"])

text \<open>Base64 without padding is a round trip: whatever \<open>base64_encode\<close> accepts, \<open>base64_decode\<close>
  returns, provided the destination is large enough.\<close>

theorem base64_roundtrip:
  assumes "base64_encode n inp = Some s" "length inp \<le> cap"
  shows "base64_decode cap s = Some inp"
  using assms by (rule base64_decode_encode)

theorem base64_roundtrip_witness: "\<exists>s. base64_encode 16 [1, 2, 3, 255] = Some s \<and> base64_decode 8 s = Some [1, 2, 3, 255]"
proof -
  obtain s where s: "base64_encode 16 [1, 2, 3, 255] = Some s"
    using base64_encode_total [of "[1, 2, 3, 255]" 16] by auto
  from base64_roundtrip [OF s, of 8] s show ?thesis by simp
qed

section \<open>Names, ids, lists and dates\<close>

text \<open>The proposed user id is unused and at least 1000, unless the largest 32-bit id is in use.\<close>

theorem next_uid_fresh:
  assumes "\<forall>u\<in>set users. uid u \<noteq> - 1"
  shows "next_available_uid users \<notin> uid ` set users \<and> 1000 \<le> next_available_uid users"
  using next_available_uid_fresh [OF assms] by simp

theorem next_uid_fresh_witness: "next_available_uid [ex_user] \<notin> {1000}"
  using next_uid_fresh [of "[ex_user]"] by (simp add: ex_user_def)

text \<open>C14: The group lists behave as finite sets in their fixed-size buffers: a successful \<open>csv_add\<close> adds
  exactly the item, \<open>csv_remove\<close> removes exactly the item (and never runs out of room), \<open>csv_contains\<close>
  decides membership, and \<open>csv_normalize\<close> keeps the items in order without duplicates, all of them valid
  names.\<close>

theorem csv_set_operations:
  assumes "length csv < 512" "csv_item item"
  shows "(csv_contains csv x \<longleftrightarrow> x \<in> set (csv_items csv)) \<and>
    (csv_add 512 csv item = Some r \<longrightarrow> set (csv_items r) = insert item (set (csv_items csv)) \<and> length r < 512) \<and>
    set (csv_items (csv_remove csv x)) = set (csv_items csv) - {x} \<and> length (csv_remove csv x) < 512 \<and>
    (csv_normalize n csv = Some q \<longrightarrow> csv_items q = foldl csv_ins [] (csv_items csv) \<and>
      (\<forall>t\<in>set (csv_items q). validate_username t))"
proof -
  have inv: "csv_inv csv" using assms(1) by (simp add: csv_inv_def)
  show ?thesis
    using csv.isin_abs [OF inv] csv.ins_abs [OF inv assms(2)] csv.ins_invar [OF inv assms(2)]
      csv.del_abs [OF inv] csv.del_invar [OF inv] csv_normalize_Some [of n csv q]
    by (auto simp: csv_inv_def)
qed

theorem csv_set_operations_witness:
  "set (csv_items (csv_remove ''audio,usb,video'' ''usb'')) = set (csv_items ''audio,usb,video'') - {''usb''}"
  using csv_set_operations [of "''audio,usb,video''" "''users''" "''usb''"] csv_item_users by simp

text \<open>Dates in the form YYYY-MM-DD are accepted exactly when they exist in the Gregorian calendar,
  or are the placeholder 0000-00-00.\<close>

theorem birthdate_calendar:
  assumes "y < 10000" "m < 100" "d < 100"
  shows "validate_birthdate (iso_date y m d) \<longleftrightarrow>
    valid_date (int y) (int m) (int d) \<or> (y = 0 \<and> m = 0 \<and> d = 0)"
  using assms by (rule validate_birthdate_iso)

theorem birthdate_calendar_witness: "\<not> validate_birthdate (iso_date 1900 2 29) \<and> validate_birthdate (iso_date 2000 2 29)"
  using birthdate_calendar [of 1900 2 29] birthdate_calendar [of 2000 2 29]
  by (simp add: valid_date_def is_leap_year_def)

section \<open>Where the code falls short\<close>

text \<open>A line with too few fields is not rejected: the last field is read twice. A group line without a
  member field gets its description as members.\<close>

lemma missing_field_is_duplicated:
  "parse_group ''audio:200:sound'' = Some \<lparr>gname = ''audio'', gid = 200, description = ''sound'', members = ''sound''\<rparr>"
proof -
  have "split_fields 4 ''audio:200:sound'' = [''audio'', ''200'', ''sound'', ''sound'']"
    by (simp add: eval_nat_numeral Let_def)
  moreover have "strtoul ''200'' = 200"
    by (simp add: strtoul_def scan_u_def skip_ws_def isspace_def ord_def isdigit_def dec_val_def digit_val_def)
  ultimately show ?thesis
    by (simp add: parse_group_def split_fields_preserve_empty_def string_copy_def)
qed

lemma field_count_never_fails: "0 < n \<Longrightarrow> length (split_fields_preserve_empty line n) = n"
proof -
  have pad: "length (pad_fields k s) = k" for k s by (induction k s rule: pad_fields.induct) auto
  have "length (split_fields n s) = n" for n s
    by (induction n s rule: split_fields.induct) (auto simp: Let_def pad split: list.split)
  then show ?thesis by (simp add: split_fields_preserve_empty_def)
qed

text \<open>With the largest user id in use, the proposed id wraps around and can be taken.\<close>

lemma next_uid_wraps: "next_available_uid [ex_user, ex_user\<lparr>uid := - 1\<rparr>] = uid ex_user"
  by (simp add: next_available_uid_def ex_user_def Let_def)

text \<open>A full name with a colon is accepted and shifts the fields of the stored line.\<close>

lemma fullname_injection:
  "validate_fullname ''a:b'' \<and> map_option fullname (parse_user (user_line (ex_user\<lparr>fullname := ''a:b''\<rparr>))) = Some ''a''"
proof -
  have c: "COLON \<notin> set (show_nat n)" for n using clean_show_nat [of n] by (simp add: clean_def)
  have "split_fields 8 (user_line (ex_user\<lparr>fullname := ''a:b''\<rparr>)) =
      [''ana'', show_nat (unat (1000 :: u32)), show_nat (unat (1000 :: u32)), ''a'', ''b'', ''2000-02-29'', ''/home/ana'', ''/bin/sh'']"
    using split_fields_Cons [OF c]
    by (simp add: user_line_def ex_user_def eval_nat_numeral)
  then show ?thesis
    by (simp add: validate_fullname_iff parse_user_def split_fields_preserve_empty_def string_copy_def)
qed

text \<open>With 1024 users stored, an otherwise successful \<open>useradd\<close> writes past the end of the array.\<close>

lemma useradd_overflows:
  assumes "euid w = 0" "lock_db_files w = (Some locks, w1)" "load_all w1 = (Some (us, ss, gs), w2)"
    "useradd_input opts us gs w2 = (Some (u, pw), w3)" "hash_password pw w3 = Inr hash" "length us = 1024"
  shows "fst (command_useradd opts w) = Corrupt"
  using assms by (simp add: command_useradd_def)

end
