(* ===== verification/UA_Locking.thy ===== *)
theory UA_Locking
  imports Main
begin

text \<open>
  The locking protocol of \<^verbatim>\<open>tools/eclipse-useradd/eclipse-useradd.c\<close> between processes, as a state
  machine. \<open>open_and_lock_file\<close> opens the database file, which binds the descriptor to the inode the
  path names at that moment, and takes an exclusive \<open>flock\<close> on that inode; \<open>write_atomic_text_file\<close>
  replaces the path by a new inode with \<open>rename\<close>; \<open>unlock_db_files\<close> gives the lock back.

  The lock excludes other processes as long as the file is not replaced. Once the holder has saved, the
  path names an inode nobody has locked, and a second process enters while the first is still inside.
\<close>

section \<open>The machine\<close>











section \<open>Exclusion without saving\<close>





section \<open>No exclusion with saving\<close>




end
