(* ===== verification/DHCP_Checksum.thy ===== *)
theory DHCP_Checksum
  imports Prelude
begin

unbundle bit_operations_syntax

text \<open>
  Arithmetic helpers of the DHCP client (\<^verbatim>\<open>src/tools/edhcpc/edhcpc.c\<close>): byte order,
  the prefix length of a netmask and the Internet checksum. A value whose C name ends in
  \<open>_be\<close> is the 32-bit word as it lies in the memory of the little-endian target, so its bytes
  are \<open>le_store 4\<close>. The checksum is compared with RFC 1071, stated on natural numbers over
  big-endian 16-bit units.
\<close>

section \<open>Byte order\<close>

definition htonl :: "u32 \<Rightarrow> u32" where
  "htonl w = le_load (be_store 4 w)"

definition htons :: "u16 \<Rightarrow> u16" where
  "htons w = le_load (be_store 2 w)"

definition ntohl :: "u32 \<Rightarrow> u32" where
  "ntohl w = be_load (le_store 4 w)"

definition ntohs :: "u16 \<Rightarrow> u16" where
  "ntohs w = be_load (le_store 2 w)"

lemma ntohl_htonl [simp]: "ntohl (htonl w) = w"
  using le_store_load [of "be_store 4 w", where 'a = 32] be_load_store_id [of 4 w]
  by (simp add: ntohl_def htonl_def del: le_store_numeral)

lemma ntohs_htons [simp]: "ntohs (htons w) = w"
  using le_store_load [of "be_store 2 w", where 'a = 16] be_load_store_id [of 2 w]
  by (simp add: ntohs_def htons_def del: le_store_numeral)

lemma le_store_htons [simp]: "le_store 2 (htons w) = be_store 2 w"
  using le_store_load [of "be_store 2 w", where 'a = 16]
  by (simp add: htons_def del: le_store_numeral)

lemma le_store_htonl [simp]: "le_store 4 (htonl w) = be_store 4 w"
  using le_store_load [of "be_store 4 w", where 'a = 32]
  by (simp add: htonl_def del: le_store_numeral)

section \<open>Prefix length\<close>

text \<open>The loop of \<open>prefix_len_from_netmask\<close> from bit \<open>i - 1\<close> down to 0; \<open>None\<close> is the return
  of -1.\<close>

fun prefix_loop :: "u32 \<Rightarrow> nat \<Rightarrow> nat \<Rightarrow> bool \<Rightarrow> int" where
  "prefix_loop msk 0 prefix seen_zero = int prefix"
| "prefix_loop msk (Suc i) prefix seen_zero =
     (if drop_bit i msk AND 1 \<noteq> 0
      then (if seen_zero then - 1 else prefix_loop msk i (Suc prefix) seen_zero)
      else prefix_loop msk i prefix True)"

definition prefix_len_from_netmask :: "u32 \<Rightarrow> int" where
  "prefix_len_from_netmask netmask_be = prefix_loop (ntohl netmask_be) 32 0 False"

text \<open>The canonical mask of a prefix length: that many leading ones.\<close>

definition canonical_mask :: "nat \<Rightarrow> u32" where
  "canonical_mask p = push_bit (32 - p) (- 1)"

lemma odd_drop_bit: "drop_bit i (m :: u32) AND 1 \<noteq> 0 \<longleftrightarrow> bit m i"
  by (simp add: and_one_eq mod_2_eq_odd bit_iff_odd_drop_bit)

lemma prefix_loop_zero:
  "prefix_loop m i p True = (if \<exists>j<i. bit m j then - 1 else int p)"
  by (induction i arbitrary: p) (auto simp: odd_drop_bit less_Suc_eq)

lemma prefix_loop_canonical:
  "k \<le> i \<Longrightarrow> \<forall>j<i. bit m j \<longleftrightarrow> k \<le> j \<Longrightarrow> prefix_loop m i p False = int (p + (i - k))"
proof (induction i arbitrary: p)
  case (Suc i)
  show ?case
  proof (cases "k \<le> i")
    case True
    with Suc show ?thesis by (simp add: odd_drop_bit Suc_diff_le)
  next
    case False
    with Suc.prems show ?thesis by (auto simp: odd_drop_bit prefix_loop_zero)
  qed
qed simp

lemma prefix_loop_other:
  "prefix_loop m i p False = - 1 \<or> (\<exists>k\<le>i. \<forall>j<i. bit m j \<longleftrightarrow> k \<le> j)"
proof (induction i arbitrary: p)
  case (Suc i)
  show ?case
  proof (cases "bit m i")
    case True
    then have "\<exists>k\<le>i. \<forall>j<i. bit m j \<longleftrightarrow> k \<le> j \<Longrightarrow> \<exists>k\<le>Suc i. \<forall>j<Suc i. bit m j \<longleftrightarrow> k \<le> j"
      by (metis le_SucI less_Suc_eq)
    with Suc.IH [of "Suc p"] True show ?thesis by (auto simp: odd_drop_bit)
  next
    case False
    show ?thesis
    proof (cases "\<exists>j<i. bit m j")
      case True
      with False show ?thesis by (simp add: odd_drop_bit prefix_loop_zero)
    next
      case none: False
      with False have "\<forall>j<Suc i. bit m j \<longleftrightarrow> Suc i \<le> j" by (auto simp: less_Suc_eq)
      then show ?thesis by blast
    qed
  qed
qed simp

lemma bit_canonical_mask: "j < 32 \<Longrightarrow> p \<le> 32 \<Longrightarrow> bit (canonical_mask p) j \<longleftrightarrow> 32 - p \<le> j"
  by (auto simp: canonical_mask_def bit_simps)

lemma canonical_mask_iff:
  assumes "p \<le> 32"
  shows "m = canonical_mask p \<longleftrightarrow> (\<forall>j<32. bit m j \<longleftrightarrow> 32 - p \<le> j)"
proof
  assume "\<forall>j<32. bit m j \<longleftrightarrow> 32 - p \<le> j"
  with assms show "m = canonical_mask p"
    by (intro bit_word_eqI) (simp add: bit_canonical_mask)
qed (use assms in \<open>simp add: bit_canonical_mask\<close>)

lemma prefix_len_of_canonical:
  "p \<le> 32 \<Longrightarrow> ntohl m = canonical_mask p \<Longrightarrow> prefix_len_from_netmask m = int p"
  unfolding prefix_len_from_netmask_def
  by (subst prefix_loop_canonical [where k = "32 - p"]) (auto simp: bit_canonical_mask)

lemma prefix_len_cases:
  "prefix_len_from_netmask m = - 1 \<or> (\<exists>p\<le>32. ntohl m = canonical_mask p)"
proof (rule disjCI)
  assume "\<nexists>p. p \<le> 32 \<and> ntohl m = canonical_mask p"
  moreover have "\<exists>p\<le>32. ntohl m = canonical_mask p" if "k \<le> 32" "\<forall>j<32. bit (ntohl m) j \<longleftrightarrow> k \<le> j" for k
    using that by (intro exI [of _ "32 - k"]) (simp add: canonical_mask_iff)
  ultimately show "prefix_len_from_netmask m = - 1"
    using prefix_loop_other [of "ntohl m" 32 0] by (auto simp: prefix_len_from_netmask_def)
qed

section \<open>Internet checksum\<close>

fun csum_words :: "u32 \<Rightarrow> byte list \<Rightarrow> u32" where
  "csum_words acc (a # b # r) = csum_words (acc + (push_bit 8 (ucast b) OR ucast a)) r"
| "csum_words acc [a] = acc + ucast a"
| "csum_words acc [] = acc"

lemma fold16_step:
  fixes s :: u32
  shows "unat ((s AND 0xffff) + drop_bit 16 s) = unat s mod 65536 + unat s div 65536"
proof -
  have "s AND 0xffff = take_bit 16 s" by (simp add: take_bit_eq_mask mask_eq_exp_minus_1)
  then have lo: "unat (s AND 0xffff) = unat s mod 65536"
    by (simp add: unsigned_take_bit_eq take_bit_nat_def)
  have hi: "unat (drop_bit 16 s) = unat s div 65536"
    by (simp add: unat_drop_bit_div)
  have "unat s < 4294967296" using unsigned_less [of s] by simp
  then have "unat s mod 65536 + unat s div 65536 < 4294967296" by linarith
  with lo hi show ?thesis by (simp add: unat_word_ariths)
qed

lemma drop_bit16_zero: "drop_bit 16 (s :: u32) = 0 \<longleftrightarrow> unat s < 65536"
proof -
  have "drop_bit 16 s = 0 \<longleftrightarrow> unat s div 65536 = 0"
    by (simp flip: unat_eq_zero add: unat_drop_bit_div)
  then show ?thesis by (simp add: div_eq_0_iff)
qed

text \<open>The loop \<open>while (sum >> 16) sum = (sum & 0xffff) + (sum >> 16)\<close>; its value decreases.\<close>

function fold16 :: "u32 \<Rightarrow> u32" where
  "fold16 acc = (if drop_bit 16 acc \<noteq> 0 then fold16 ((acc AND 0xffff) + drop_bit 16 acc) else acc)"
  by auto
termination
proof (relation "measure unat")
  fix acc :: u32
  assume "drop_bit 16 acc \<noteq> 0"
  then have "0 < unat acc div 65536" by (simp add: drop_bit16_zero div_greater_zero_iff)
  then have "unat acc mod 65536 + unat acc div 65536 < unat acc"
    using div_mult_mod_eq [of "unat acc" 65536] by linarith
  then show "((acc AND 0xffff) + drop_bit 16 acc, acc) \<in> measure unat" by (simp add: fold16_step)
qed simp

declare fold16.simps [simp del]

definition csum16 :: "byte list \<Rightarrow> u16" where
  "csum16 d = NOT (ucast (fold16 (csum_words 0 d)))"

text \<open>The checksum over the pseudo header, the UDP header and the payload. \<open>~csum16(...) &
  0xffff\<close> is the 16-bit complement of the checksum widened to 32 bits.\<close>

definition pseudo_header :: "u32 \<Rightarrow> u32 \<Rightarrow> nat \<Rightarrow> byte list" where
  "pseudo_header src_be dst_be payload_len =
     le_store 4 src_be @ le_store 4 dst_be @ [0, 17] @ le_store 2 (htons (of_nat (8 + payload_len)))"

definition udp_checksum_ipv4 :: "u32 \<Rightarrow> u32 \<Rightarrow> byte list \<Rightarrow> byte list \<Rightarrow> u16" where
  "udp_checksum_ipv4 src_be dst_be udp_hdr payload =
     (let acc = ucast (NOT (csum16 (pseudo_header src_be dst_be (length payload))))
              + ucast (NOT (csum16 udp_hdr)) + ucast (NOT (csum16 payload));
          out = NOT (ucast (fold16 acc))
      in if out = 0 then 0xffff else out)"

section \<open>RFC 1071\<close>

fun le_sum :: "byte list \<Rightarrow> nat" where
  "le_sum (a # b # r) = 256 * unat b + unat a + le_sum r"
| "le_sum [a] = unat a"
| "le_sum [] = 0"

fun be_sum :: "byte list \<Rightarrow> nat" where
  "be_sum (a # b # r) = 256 * unat a + unat b + be_sum r"
| "be_sum [a] = 256 * unat a"
| "be_sum [] = 0"

text \<open>The 16-bit ones' complement representative of a sum, and the checksum of RFC 1071.\<close>

definition ones :: "nat \<Rightarrow> nat" where
  "ones n = (if n = 0 then 0 else (n - 1) mod 65535 + 1)"

definition rfc1071 :: "byte list \<Rightarrow> nat" where
  "rfc1071 d = 65535 - ones (be_sum d)"

definition swap16 :: "nat \<Rightarrow> nat" where
  "swap16 v = 256 * (v mod 256) + v div 256"

lemma unat_byte_less: "unat (b :: byte) < 256"
  using unsigned_less [of b] by simp

lemma ones_le: "ones n \<le> 65535"
  by (simp add: ones_def less_eq_Suc_le [symmetric])

lemma ones_small: "n < 65536 \<Longrightarrow> ones n = n"
  by (auto simp: ones_def)

lemma ones_eqI:
  assumes "m mod 65535 = n mod 65535" "m = 0 \<longleftrightarrow> n = 0"
  shows "ones m = ones n"
proof (cases "m = 0")
  case False
  with assms obtain a b where "m = Suc a" "n = Suc b" by (meson not0_implies_Suc)
  with assms show ?thesis by (auto simp: ones_def mod_Suc split: if_splits)
qed (use assms in simp)

lemma unat_word16: "unat (push_bit 8 (ucast (b :: byte)) OR ucast (a :: byte) :: u32) = 256 * unat b + unat a"
proof -
  have "push_bit 8 (ucast b) OR ucast a = (push_bit 8 (ucast b) + ucast a :: u32)"
  proof (rule sym, rule disjunctive_add_eq_or, rule bit_word_eqI)
    fix n show "bit (push_bit 8 (ucast b) AND ucast a :: u32) n = bit (0 :: u32) n"
      using byte_high_bits [of n a] by (auto simp: bit_simps)
  qed
  moreover have "unat (push_bit 8 (ucast b) :: u32) = 256 * unat b"
    using unat_byte_less [of b] by (simp add: push_bit_eq_mult unat_word_ariths unsigned_ucast_eq take_bit_nat_def)
  ultimately show ?thesis
    using unat_byte_less [of a] unat_byte_less [of b] by (simp add: unat_word_ariths unsigned_ucast_eq take_bit_nat_def)
qed

lemma csum_words_sum:
  "unat acc + le_sum d < 2 ^ 32 \<Longrightarrow> unat (csum_words acc d) = unat acc + le_sum d"
proof (induction acc d rule: csum_words.induct)
  case (1 acc a b r)
  from 1 have "unat (acc + (push_bit 8 (ucast b) OR ucast a)) = unat acc + (256 * unat b + unat a)"
    by (simp add: unat_word_ariths unat_word16)
  with 1 show ?case by simp
next
  case (2 acc a)
  then show ?case by (simp add: unat_word_ariths unsigned_ucast_eq take_bit_nat_def)
qed simp

lemma le_sum_bound: "2 * le_sum d \<le> 65535 * (length d + 1)"
proof (induction d rule: le_sum.induct)
  case (1 a b r)
  then show ?case using unat_byte_less [of a] unat_byte_less [of b] by simp
next
  case (2 a)
  then show ?case using unat_byte_less [of a] by simp
qed simp

lemma fold16_ones: "unat (fold16 acc) = ones (unat acc)"
proof (induction acc rule: fold16.induct)
  case (1 acc)
  show ?case
  proof (cases "drop_bit 16 acc = 0")
    case True
    then show ?thesis by (simp add: fold16.simps ones_small drop_bit16_zero)
  next
    case False
    let ?n = "unat acc"
    have h: "0 < ?n div 65536" using False by (simp add: drop_bit16_zero div_greater_zero_iff)
    have "(?n mod 65536 + ?n div 65536) mod 65535 = (?n mod 65536 + ?n div 65536 + ?n div 65536 * 65535) mod 65535"
      by (rule mod_mult_self1 [symmetric])
    also have "\<dots> = ?n mod 65535"
      using div_mult_mod_eq [of ?n 65536] by (intro arg_cong [where f = "\<lambda>x. x mod 65535"]) linarith
    finally have "ones (?n mod 65536 + ?n div 65536) = ones ?n"
      by (rule ones_eqI) (use h in auto)
    with 1 False show ?thesis by (simp add: fold16.simps [of acc] fold16_step)
  qed
qed

lemma unat_not16: "unat (NOT (w :: u16)) = 65535 - unat w"
proof -
  have "NOT w = - 1 - w" by (simp add: not_eq_complement)
  moreover have "unat (- 1 :: u16) = 65535" by (simp add: unsigned_minus_1_eq_mask mask_eq_exp_minus_1)
  moreover have "unat w < 65536" using unsigned_less [of w] by simp
  ultimately show ?thesis by (simp add: unat_sub_if')
qed

lemma csum16_ones:
  assumes "length d \<le> 131070"
  shows "unat (csum16 d) = 65535 - ones (le_sum d)"
proof -
  have "le_sum d < 2 ^ 32" using le_sum_bound [of d] assms by simp
  then have "unat (csum_words 0 d) = le_sum d" using csum_words_sum [of 0 d] by simp
  then show ?thesis
    using ones_le [of "le_sum d"] by (simp add: csum16_def unat_not16 unsigned_ucast_eq take_bit_nat_def fold16_ones)
qed

section \<open>Agreement with RFC 1071 and verification\<close>

lemma ones_mod: "ones n mod 65535 = n mod 65535"
proof (cases n)
  case (Suc m)
  then show ?thesis by (simp add: ones_def mod_Suc)
qed (simp add: ones_def)

lemma ones_eq_0 [simp]: "ones n = 0 \<longleftrightarrow> n = 0"
  by (simp add: ones_def)

lemma be_sum_le_sum: "(256 * le_sum d) mod 65535 = be_sum d mod 65535"
proof (induction d rule: le_sum.induct)
  case (1 a b r)
  have "256 * le_sum (a # b # r) = (256 * unat a + unat b) + 256 * le_sum r + unat b * 65535" by simp
  then have "256 * le_sum (a # b # r) mod 65535 = ((256 * unat a + unat b) + 256 * le_sum r) mod 65535"
    by (metis mod_mult_self1)
  also have "\<dots> = ((256 * unat a + unat b) + be_sum r) mod 65535"
    by (metis 1 mod_add_right_eq)
  finally show ?case by simp
qed simp_all

lemma sums_eq_0: "le_sum d = 0 \<longleftrightarrow> be_sum d = 0"
  by (induction d rule: le_sum.induct) auto

lemma swap16_mod: "swap16 v mod 65535 = (256 * v) mod 65535"
proof -
  have "256 * v = swap16 v + v div 256 * 65535"
    unfolding swap16_def using div_mult_mod_eq [of v 256] by linarith
  then show ?thesis by (metis mod_mult_self1)
qed

lemma swap16_less: "v < 65536 \<Longrightarrow> swap16 v < 65536"
proof -
  assume "v < 65536"
  then have "v div 256 < 256" by (simp add: div_less_iff_less_mult)
  moreover have "v mod 256 < 256" by simp
  ultimately show ?thesis by (simp add: swap16_def)
qed

lemma swap16_eq_0: "swap16 v = 0 \<longleftrightarrow> v = 0"
  using div_mult_mod_eq [of v 256] by (auto simp: swap16_def)

lemma ones_be_sum: "ones (be_sum d) = swap16 (ones (le_sum d))"
proof -
  have less: "swap16 (ones (le_sum d)) < 65536"
    using ones_le [of "le_sum d"] by (intro swap16_less) simp
  have "swap16 (ones (le_sum d)) mod 65535 = (256 * ones (le_sum d)) mod 65535" by (rule swap16_mod)
  also have "\<dots> = (256 * le_sum d) mod 65535" by (metis mod_mult_right_eq ones_mod)
  also have "\<dots> = be_sum d mod 65535" by (rule be_sum_le_sum)
  finally have "ones (swap16 (ones (le_sum d))) = ones (be_sum d)"
    by (rule ones_eqI) (simp add: swap16_eq_0 sums_eq_0)
  with less show ?thesis by (simp add: ones_small)
qed

lemma swap16_complement:
  assumes "v \<le> 65535"
  shows "swap16 (65535 - v) = 65535 - swap16 v"
proof -
  obtain h l where v: "v = 256 * h + l" "l < 256"
    using div_mult_mod_eq [of v 256] by (metis mod_less_divisor mult.commute zero_less_numeral)
  with assms have h: "h < 256" by simp
  have sw: "swap16 (256 * a + b) = 256 * b + a" if "b < 256" for a b
    using that by (simp add: swap16_def)
  have "65535 - v = 256 * (255 - h) + (255 - l)" using v h by simp
  then have "swap16 (65535 - v) = 256 * (255 - l) + (255 - h)" using sw [of "255 - l" "255 - h"] by simp
  also have "\<dots> = 65535 - swap16 v" using v h sw [of l h] by simp
  finally show ?thesis .
qed

lemma le_store_be_store: "le_store 2 (w :: u16) = be_store 2 (of_nat (swap16 (unat w)) :: u16)"
proof -
  have w: "unat w < 65536" using unsigned_less [of w] by simp
  then have s: "unat (of_nat (swap16 (unat w)) :: u16) = swap16 (unat w)"
    by (intro unat_of_nat_eq) (use swap16_less [OF w] in simp)
  have hi: "unat w div 256 < 256" using w by (simp add: div_less_iff_less_mult)
  have "ucast w = (ucast (drop_bit 8 (of_nat (swap16 (unat w)) :: u16)) :: byte)"
    by (rule word_unat_eq_iff [THEN iffD2])
       (simp add: unsigned_ucast_eq take_bit_nat_def unat_drop_bit_div s, simp add: swap16_def hi)
  moreover have "ucast (drop_bit 8 w) = (ucast (of_nat (swap16 (unat w)) :: u16) :: byte)"
    by (rule word_unat_eq_iff [THEN iffD2])
       (simp add: unsigned_ucast_eq take_bit_nat_def unat_drop_bit_div s, simp add: swap16_def hi)
  ultimately show ?thesis by (simp add: be_store_def)
qed

text \<open>Stored natively, \<open>csum16\<close> is the RFC 1071 checksum in network order.\<close>

lemma csum16_stored:
  assumes "length d \<le> 131070"
  shows "le_store 2 (csum16 d) = be_store 2 (of_nat (rfc1071 d) :: u16)"
proof -
  have "swap16 (unat (csum16 d)) = 65535 - swap16 (ones (le_sum d))"
    using assms ones_le by (simp add: csum16_ones swap16_complement)
  then show ?thesis by (simp only: le_store_be_store rfc1071_def ones_be_sum)
qed

lemma le_sum_append: "even (length a) \<Longrightarrow> le_sum (a @ b) = le_sum a + le_sum b"
  by (induction a rule: le_sum.induct) auto

lemma le_sum_stored [simp]: "le_sum (le_store 2 (w :: u16)) = unat w"
proof -
  have "unat w < 65536" using unsigned_less [of w] by simp
  then have "unat w div 256 < 256" by (simp add: div_less_iff_less_mult)
  then show ?thesis
    using div_mult_mod_eq [of "unat w" 256]
    by (simp add: unsigned_ucast_eq take_bit_nat_def unat_drop_bit_div)
qed

text \<open>A ones' complement sum to which the complement of its representative is added is 65535,
  also when a zero checksum is replaced by \<open>0xffff\<close>.\<close>

lemma ones_verify: "c = 65535 - ones n \<or> ones n = 65535 \<and> c = 65535 \<Longrightarrow> ones (n + c) = 65535"
proof -
  assume c: "c = 65535 - ones n \<or> ones n = 65535 \<and> c = 65535"
  have "(n + c) mod 65535 = (ones n + c) mod 65535" by (metis mod_add_left_eq ones_mod)
  also have "(ones n + c) mod 65535 = 0" using c ones_le [of n] by auto
  finally have "(n + c) mod 65535 = 65535 mod 65535" by simp
  moreover have "n + c \<noteq> 0" using c by (cases "n = 0") (auto simp: ones_def)
  ultimately have "ones (n + c) = ones 65535" by (intro ones_eqI) auto
  then show ?thesis by (simp add: ones_small)
qed

lemma csum16_verifies:
  assumes "length d \<le> 131070" "le_sum d = n + c" "c = 65535 - ones n \<or> ones n = 65535 \<and> c = 65535"
  shows "csum16 d = 0"
  using csum16_ones [OF assms(1)] ones_verify [OF assms(3)] assms(2)
  by (simp add: unat_eq_zero)

end
