(* ===== verification/DHCP_Message.thy ===== *)
theory DHCP_Message
  imports DHCP_Checksum
begin

unbundle bit_operations_syntax

text \<open>
  DHCP messages of \<^verbatim>\<open>src/tools/edhcpc/edhcpc.c\<close>: the packed \<open>struct dhcp_msg\<close> and its memory
  image, the option writer \<open>opt_put\<close>, the option reader \<open>parse_options\<close>, the two messages the
  client sends and the acceptance test \<open>parse_dhcp_payload\<close> of the messages it receives.

  The lemmas describe the writer by the list of options it has written (\<open>opt_state\<close>), show that
  the reader visits exactly the options of a well-formed area (\<open>options_read_back\<close>) and give
  the images of the DISCOVER and REQUEST messages in closed form.
\<close>

section \<open>Constants\<close>

abbreviation (input) BOOTREQUEST :: byte where "BOOTREQUEST \<equiv> 1"
abbreviation (input) BOOTREPLY :: byte where "BOOTREPLY \<equiv> 2"

abbreviation (input) DHCPDISCOVER :: int where "DHCPDISCOVER \<equiv> 1"
abbreviation (input) DHCPOFFER :: int where "DHCPOFFER \<equiv> 2"
abbreviation (input) DHCPREQUEST :: int where "DHCPREQUEST \<equiv> 3"
abbreviation (input) DHCPACK :: int where "DHCPACK \<equiv> 5"
abbreviation (input) DHCPNAK :: int where "DHCPNAK \<equiv> 6"

abbreviation (input) OPT_PAD :: byte where "OPT_PAD \<equiv> 0"
abbreviation (input) OPT_END :: byte where "OPT_END \<equiv> 255"
abbreviation (input) OPT_SUBNET_MASK :: byte where "OPT_SUBNET_MASK \<equiv> 1"
abbreviation (input) OPT_ROUTER :: byte where "OPT_ROUTER \<equiv> 3"
abbreviation (input) OPT_DNS :: byte where "OPT_DNS \<equiv> 6"
abbreviation (input) OPT_REQ_IP :: byte where "OPT_REQ_IP \<equiv> 50"
abbreviation (input) OPT_LEASE_TIME :: byte where "OPT_LEASE_TIME \<equiv> 51"
abbreviation (input) OPT_MSG_TYPE :: byte where "OPT_MSG_TYPE \<equiv> 53"
abbreviation (input) OPT_SERVER_ID :: byte where "OPT_SERVER_ID \<equiv> 54"
abbreviation (input) OPT_PARAM_REQ_LIST :: byte where "OPT_PARAM_REQ_LIST \<equiv> 55"
abbreviation (input) OPT_MAX_MSG_SIZE :: byte where "OPT_MAX_MSG_SIZE \<equiv> 57"
abbreviation (input) OPT_CLIENT_ID :: byte where "OPT_CLIENT_ID \<equiv> 61"

abbreviation (input) MAGIC :: u32 where "MAGIC \<equiv> 0x63825363"

section \<open>Messages in memory\<close>

record dhcp_msg =
  m_op :: byte
  m_htype :: byte
  m_hlen :: byte
  m_hops :: byte
  m_xid :: u32
  m_secs :: u16
  m_flags :: u16
  m_ciaddr :: u32
  m_yiaddr :: u32
  m_siaddr :: u32
  m_giaddr :: u32
  m_chaddr :: "byte list"
  m_sname :: "byte list"
  m_file :: "byte list"
  m_cookie :: u32
  m_options :: "byte list"

text \<open>The bytes of the packed structure.\<close>

definition msg_header :: "dhcp_msg \<Rightarrow> byte list" where
  "msg_header m = [m_op m, m_htype m, m_hlen m, m_hops m] @ le_store 4 (m_xid m)
     @ le_store 2 (m_secs m) @ le_store 2 (m_flags m) @ le_store 4 (m_ciaddr m)
     @ le_store 4 (m_yiaddr m) @ le_store 4 (m_siaddr m) @ le_store 4 (m_giaddr m)
     @ m_chaddr m @ m_sname m @ m_file m @ le_store 4 (m_cookie m)"

definition msg_bytes :: "dhcp_msg \<Rightarrow> byte list" where
  "msg_bytes m = msg_header m @ m_options m"

abbreviation (input) OPTIONS_OFF :: nat where "OPTIONS_OFF \<equiv> 240"
abbreviation (input) OPTIONS_SIZE :: nat where "OPTIONS_SIZE \<equiv> 312"

record dhcp_offer =
  yiaddr :: u32
  subnet_mask :: u32
  router :: u32
  dns :: "u32 list"
  dns_count :: int
  server_id :: u32
  lease_time :: u32

definition zero_offer :: dhcp_offer where
  "zero_offer = \<lparr>yiaddr = 0, subnet_mask = 0, router = 0, dns = [0, 0], dns_count = 0,
     server_id = 0, lease_time = 0\<rparr>"

section \<open>Writing options\<close>

definition opt_put :: "byte list \<times> nat \<Rightarrow> byte \<Rightarrow> byte list \<Rightarrow> byte \<Rightarrow> byte list \<times> nat" where
  "opt_put st code data len =
     (let (opts, off) = st;
          opts = opts[off := code]; off = off + 1;
          opts = opts[off := len]; off = off + 1;
          opts = poke opts off (take (unat len) data)
      in (opts, off + unat len))"

definition opt_put_u8 :: "byte list \<times> nat \<Rightarrow> byte \<Rightarrow> byte \<Rightarrow> byte list \<times> nat" where
  "opt_put_u8 st code v = opt_put st code [v] 1"

definition opt_put_u32 :: "byte list \<times> nat \<Rightarrow> byte \<Rightarrow> u32 \<Rightarrow> byte list \<times> nat" where
  "opt_put_u32 st code v_be = opt_put st code (le_store 4 v_be) 4"

section \<open>Reading options\<close>

text \<open>The loop over the DNS servers: at most two addresses (\<open>k\<close> counts the remaining ones).\<close>

fun dns_loop :: "nat \<Rightarrow> nat \<Rightarrow> byte list \<Rightarrow> dhcp_offer \<Rightarrow> dhcp_offer" where
  "dns_loop 0 j val out = out"
| "dns_loop (Suc k) j val out =
     (if j * 4 + 4 \<le> length val
      then dns_loop k (Suc j) val
             (out\<lparr>dns := (dns out)[j := get32 (j * 4) val], dns_count := dns_count out + 1\<rparr>)
      else out)"

text \<open>The \<open>switch\<close> on the option code; \<open>val\<close> holds the \<open>olen\<close> bytes of the option.\<close>

definition apply_option :: "byte \<Rightarrow> byte list \<Rightarrow> int \<times> dhcp_offer \<Rightarrow> int \<times> dhcp_offer" where
  "apply_option code val st =
     (let (msg_type, out) = st; olen = length val in
      if code = OPT_MSG_TYPE then (if olen = 1 then (int (unat (val ! 0)), out) else st)
      else if code = OPT_SUBNET_MASK then
        (msg_type, if olen = 4 then out\<lparr>subnet_mask := get32 0 val\<rparr> else out)
      else if code = OPT_ROUTER then
        (msg_type, if 4 \<le> olen then out\<lparr>router := get32 0 val\<rparr> else out)
      else if code = OPT_DNS then (msg_type, dns_loop 2 0 val (out\<lparr>dns_count := 0\<rparr>))
      else if code = OPT_SERVER_ID then
        (msg_type, if olen = 4 then out\<lparr>server_id := get32 0 val\<rparr> else out)
      else if code = OPT_LEASE_TIME then
        (msg_type, if olen = 4 then out\<lparr>lease_time := get32 0 val\<rparr> else out)
      else st)"

text \<open>The loop reads the bytes from index \<open>i\<close> on; the remaining bytes are its argument.\<close>

function options_loop :: "byte list \<Rightarrow> int \<times> dhcp_offer \<Rightarrow> int \<times> dhcp_offer" where
  "options_loop opts st =
     (case opts of [] \<Rightarrow> st
      | code # r \<Rightarrow>
          if code = OPT_PAD then options_loop r st
          else if code = OPT_END then st
          else (case r of [] \<Rightarrow> st
                | olen # val \<Rightarrow>
                    if length val < unat olen then st
                    else options_loop (drop (unat olen) val)
                           (apply_option code (take (unat olen) val) st)))"
  by auto
termination
  by (relation "measure (\<lambda>(opts, _). length opts)") auto

declare options_loop.simps [simp del]

definition dhcp_parse_options :: "byte list \<Rightarrow> int \<times> dhcp_offer" where
  "dhcp_parse_options opts = options_loop opts (0, zero_offer)"

section \<open>The messages of the client\<close>

definition build_common :: "u32 \<Rightarrow> byte list \<Rightarrow> dhcp_msg" where
  "build_common xid_be mac =
     \<lparr>m_op = BOOTREQUEST, m_htype = 1, m_hlen = 6, m_hops = 0, m_xid = xid_be, m_secs = 0,
      m_flags = htons 0x8000, m_ciaddr = 0, m_yiaddr = 0, m_siaddr = 0, m_giaddr = 0,
      m_chaddr = poke (replicate 16 0) 0 (take 6 mac), m_sname = replicate 64 0,
      m_file = replicate 128 0, m_cookie = htonl MAGIC, m_options = replicate OPTIONS_SIZE 0\<rparr>"

definition client_id :: "byte list \<Rightarrow> byte list" where
  "client_id mac = [1, mac ! 0, mac ! 1, mac ! 2, mac ! 3, mac ! 4, mac ! 5]"

definition prl :: "byte list" where
  "prl = [OPT_SUBNET_MASK, OPT_ROUTER, OPT_DNS, OPT_LEASE_TIME]"

text \<open>The common end of both builders: \<open>END\<close>, the length check and the copy. The empty list is
  the return value 0.\<close>

definition finish_msg :: "dhcp_msg \<Rightarrow> byte list \<times> nat \<Rightarrow> nat \<Rightarrow> byte list" where
  "finish_msg m st cap =
     (let (opts, off) = st; opts = opts[off := OPT_END]; off = off + 1;
          msg_len = OPTIONS_OFF + off
      in if cap < msg_len then [] else take msg_len (msg_bytes (m\<lparr>m_options := opts\<rparr>)))"

definition build_dhcp_discover :: "nat \<Rightarrow> byte list \<Rightarrow> u32 \<Rightarrow> byte list" where
  "build_dhcp_discover cap mac xid_be =
     (let m = build_common xid_be mac;
          st = opt_put_u8 (m_options m, 0) OPT_MSG_TYPE 1;
          st = opt_put st OPT_CLIENT_ID (client_id mac) 7;
          st = opt_put st OPT_PARAM_REQ_LIST prl 4;
          st = opt_put st OPT_MAX_MSG_SIZE (le_store 2 (htons 1500)) 2
      in finish_msg m st cap)"

definition build_dhcp_request :: "nat \<Rightarrow> byte list \<Rightarrow> u32 \<Rightarrow> u32 \<Rightarrow> u32 \<Rightarrow> byte list" where
  "build_dhcp_request cap mac xid_be req_ip_be server_id_be =
     (let m = build_common xid_be mac;
          st = opt_put_u8 (m_options m, 0) OPT_MSG_TYPE 3;
          st = opt_put_u32 st OPT_REQ_IP req_ip_be;
          st = opt_put_u32 st OPT_SERVER_ID server_id_be;
          st = opt_put st OPT_CLIENT_ID (client_id mac) 7;
          st = opt_put st OPT_PARAM_REQ_LIST prl 4;
          st = opt_put st OPT_MAX_MSG_SIZE (le_store 2 (htons 1500)) 2
      in finish_msg m st cap)"

section \<open>Accepting a message\<close>

abbreviation (input) DHCP_COOKIE_OFF :: nat where "DHCP_COOKIE_OFF \<equiv> 236"

definition dhcp_cookie_at :: "byte list \<Rightarrow> u32" where
  "dhcp_cookie_at payload =
     (if length payload < DHCP_COOKIE_OFF + 4 then 0
      else let p = drop DHCP_COOKIE_OFF payload in
        push_bit 24 (ucast (p ! 0)) OR push_bit 16 (ucast (p ! 1)) OR push_bit 8 (ucast (p ! 2))
        OR ucast (p ! 3))"

function cookie_scan :: "byte list \<Rightarrow> nat \<Rightarrow> int" where
  "cookie_scan payload i =
     (if i + 4 \<le> length payload \<and> i \<le> 280
      then (if payload ! i = 0x63 \<and> payload ! (i + 1) = 0x82 \<and> payload ! (i + 2) = 0x53
              \<and> payload ! (i + 3) = 0x63 then int i else cookie_scan payload (i + 1))
      else - 1)"
  by auto
termination
  by (relation "measure (\<lambda>(_, i). 281 - i)") auto

declare cookie_scan.simps [simp del]

definition dhcp_cookie_scan_offset :: "byte list \<Rightarrow> int" where
  "dhcp_cookie_scan_offset payload = cookie_scan payload 0"

text \<open>\<open>None\<close> is the return value -1; the scan of the cookie only selects a diagnostic.\<close>

definition parse_dhcp_payload :: "byte list \<Rightarrow> u32 \<Rightarrow> (int \<times> dhcp_offer) option" where
  "parse_dhcp_payload payload xid_be =
     (if length payload < OPTIONS_OFF then None
      else if payload ! 0 \<noteq> BOOTREPLY then None
      else if get32 4 payload \<noteq> xid_be then None
      else
        let cookie = ntohl (get32 236 payload);
            cookie = (if cookie \<noteq> MAGIC then dhcp_cookie_at payload else cookie)
        in if cookie \<noteq> MAGIC then None
           else
             let (msg_type, offer) = dhcp_parse_options (drop OPTIONS_OFF payload)
             in if msg_type = 0 then None
                else Some (msg_type, offer\<lparr>yiaddr := get32 16 payload\<rparr>))"

section \<open>The option writer\<close>

text \<open>An option as it is laid out, and the state of the writer after it has written \<open>d\<close>.\<close>

definition tlv :: "byte \<times> byte list \<Rightarrow> byte list" where
  "tlv opt = fst opt # of_nat (length (snd opt)) # snd opt"

definition opt_state :: "byte list \<Rightarrow> byte list \<times> nat" where
  "opt_state d = (d @ replicate (OPTIONS_SIZE - length d) 0, length d)"

lemma opt_put_state:
  assumes "unat len = length data" "length d + 2 + length data \<le> OPTIONS_SIZE"
  shows "opt_put (opt_state d) code data len = opt_state (d @ tlv (code, data))"
proof -
  have len: "len = of_nat (length data)" by (simp flip: assms(1))
  obtain k where "OPTIONS_SIZE = length d + 2 + length data + k"
    using assms(2) by (metis le_Suc_ex)
  then have k: "OPTIONS_SIZE - length d = Suc (Suc (length data + k))" by simp
  show ?thesis
    using assms
    by (simp add: opt_put_def opt_state_def k list_update_append poke_def tlv_def len [symmetric])
       (use k in simp)
qed

lemma opt_put_u8_state:
  "length d + 3 \<le> OPTIONS_SIZE \<Longrightarrow> opt_put_u8 (opt_state d) code v = opt_state (d @ tlv (code, [v]))"
  by (simp add: opt_put_u8_def opt_put_state)

lemma opt_put_u32_state:
  "length d + 6 \<le> OPTIONS_SIZE \<Longrightarrow>
    opt_put_u32 (opt_state d) code v = opt_state (d @ tlv (code, le_store 4 v))"
  by (simp add: opt_put_u32_def opt_put_state del: le_store_numeral)

text \<open>The arrays of the structure have their declared sizes.\<close>

definition msg_sizes :: "dhcp_msg \<Rightarrow> bool" where
  "msg_sizes m \<longleftrightarrow> length (m_chaddr m) = 16 \<and> length (m_sname m) = 64 \<and> length (m_file m) = 128"

lemma length_msg_header: "msg_sizes m \<Longrightarrow> length (msg_header m) = OPTIONS_OFF"
  by (simp add: msg_header_def msg_sizes_def del: le_store_numeral)

lemma msg_header_options [simp]: "msg_header (m\<lparr>m_options := os\<rparr>) = msg_header m"
  by (simp add: msg_header_def)

lemma finish_msg_state:
  assumes "length d < OPTIONS_SIZE" "OPTIONS_OFF + length d < cap" "msg_sizes m"
  shows "finish_msg m (opt_state d) cap = msg_bytes (m\<lparr>m_options := d @ [OPT_END]\<rparr>)"
proof -
  obtain k where k: "OPTIONS_SIZE - length d = Suc k"
    using assms(1) by (metis Suc_diff_Suc)
  show ?thesis
    using assms
    by (simp add: finish_msg_def opt_state_def k list_update_append msg_bytes_def length_msg_header)
qed

section \<open>The option reader\<close>

definition plain_option :: "byte \<times> byte list \<Rightarrow> bool" where
  "plain_option opt \<longleftrightarrow> fst opt \<noteq> OPT_PAD \<and> fst opt \<noteq> OPT_END \<and> length (snd opt) < 256"

lemma options_loop_tlv:
  assumes "plain_option opt"
  shows "options_loop (tlv opt @ rest) st = options_loop rest (apply_option (fst opt) (snd opt) st)"
proof -
  have "unat (of_nat (length (snd opt)) :: byte) = length (snd opt)"
    using assms by (simp add: plain_option_def unat_of_nat_eq)
  then show ?thesis
    using assms by (subst options_loop.simps) (simp add: tlv_def plain_option_def)
qed

lemma options_loop_end [simp]: "options_loop (OPT_END # rest) st = st"
  by (simp add: options_loop.simps)

lemma options_loop_pad [simp]: "options_loop (OPT_PAD # rest) st = options_loop rest st"
  by (simp add: options_loop.simps)

lemma options_loop_Nil [simp]: "options_loop [] st = st"
  by (simp add: options_loop.simps)

lemma options_read_back:
  "list_all plain_option os \<Longrightarrow>
    options_loop (concat (map tlv os) @ rest) st
      = options_loop rest (foldl (\<lambda>st opt. apply_option (fst opt) (snd opt) st) st os)"
  by (induction os arbitrary: st) (simp_all add: options_loop_tlv)

section \<open>Closed forms of the sent messages\<close>

lemma opt_state_0: "(replicate OPTIONS_SIZE 0, 0) = opt_state []"
  by (simp add: opt_state_def)

lemma msg_sizes_common [simp]: "length mac = 6 \<Longrightarrow> msg_sizes (build_common xid mac)"
  by (simp add: build_common_def msg_sizes_def poke_def)

lemma options_common [simp]: "m_options (build_common xid mac) = replicate OPTIONS_SIZE 0"
  by (simp add: build_common_def)

definition discover_options :: "byte list \<Rightarrow> (byte \<times> byte list) list" where
  "discover_options mac = [(OPT_MSG_TYPE, [1]), (OPT_CLIENT_ID, client_id mac),
     (OPT_PARAM_REQ_LIST, prl), (OPT_MAX_MSG_SIZE, be_store 2 (1500 :: u16))]"

definition request_options :: "byte list \<Rightarrow> u32 \<Rightarrow> u32 \<Rightarrow> (byte \<times> byte list) list" where
  "request_options mac ip sid = [(OPT_MSG_TYPE, [3]), (OPT_REQ_IP, le_store 4 ip),
     (OPT_SERVER_ID, le_store 4 sid), (OPT_CLIENT_ID, client_id mac),
     (OPT_PARAM_REQ_LIST, prl), (OPT_MAX_MSG_SIZE, be_store 2 (1500 :: u16))]"

lemma length_client_id [simp]: "length (client_id mac) = 7"
  by (simp add: client_id_def)

lemma length_prl [simp]: "length prl = 4"
  by (simp add: prl_def)

lemma length_tlv [simp]: "length (tlv opt) = 2 + length (snd opt)"
  by (simp add: tlv_def)

lemma build_discover_bytes:
  assumes "length mac = 6"
  shows "build_dhcp_discover 600 mac xid = msg_bytes (build_common xid mac
           \<lparr>m_options := concat (map tlv (discover_options mac)) @ [OPT_END]\<rparr>)"
  using assms
  by (simp add: build_dhcp_discover_def opt_state_0 opt_put_u8_state opt_put_state finish_msg_state
      discover_options_def del: le_store_numeral)

lemma build_request_bytes:
  assumes "length mac = 6"
  shows "build_dhcp_request 600 mac xid ip sid = msg_bytes (build_common xid mac
           \<lparr>m_options := concat (map tlv (request_options mac ip sid)) @ [OPT_END]\<rparr>)"
  using assms
  by (simp add: build_dhcp_request_def opt_state_0 opt_put_u8_state opt_put_u32_state opt_put_state
      finish_msg_state request_options_def del: le_store_numeral)

section \<open>Acceptance\<close>

lemma ntohl_bytes: "ntohl (le_load [a, b, c, d]) =
   push_bit 24 (ucast a) OR push_bit 16 (ucast b) OR push_bit 8 (ucast c) OR ucast d"
proof -
  have "le_store 4 (le_load [a, b, c, d] :: u32) = [a, b, c, d]"
    using le_store_load [of "[a, b, c, d]", where 'a = 32] by (simp del: le_load.simps)
  then have "ntohl (le_load [a, b, c, d]) = be_load [a, b, c, d]"
    by (simp only: ntohl_def)
  also have "\<dots> = push_bit 24 (ucast a) OR push_bit 16 (ucast b) OR push_bit 8 (ucast c) OR ucast d"
    by (simp add: be_load_def, rule bit_word_eqI) (auto simp: bit_simps)
  finally show ?thesis .
qed

lemma take4_nth: "4 \<le> length q \<Longrightarrow> take 4 q = [q ! 0, q ! 1, q ! 2, q ! 3]"
  by (rule nth_equalityI) (auto simp: less_Suc_eq numeral_eq_Suc)

lemma dhcp_cookie_at_word:
  assumes "240 \<le> length p"
  shows "dhcp_cookie_at p = ntohl (get32 236 p)"
  using assms take4_nth [of "drop 236 p"]
  by (simp add: dhcp_cookie_at_def get32_def ntohl_bytes del: le_load.simps)

text \<open>The second look at the cookie never changes the verdict.\<close>

lemma parse_dhcp_payload_iff:
  "parse_dhcp_payload p xid = Some (mt, out) \<longleftrightarrow>
     240 \<le> length p \<and> p ! 0 = BOOTREPLY \<and> get32 4 p = xid \<and> ntohl (get32 236 p) = MAGIC \<and> mt \<noteq> 0 \<and>
     (\<exists>os. dhcp_parse_options (drop 240 p) = (mt, os) \<and> out = os\<lparr>yiaddr := get32 16 p\<rparr>)"
  by (auto simp: parse_dhcp_payload_def dhcp_cookie_at_word Let_def not_less split: prod.splits)

lemma msg_bytes_fields:
  assumes "msg_sizes m"
  shows "msg_bytes m ! 0 = m_op m" "get32 4 (msg_bytes m) = m_xid m"
    "get32 16 (msg_bytes m) = m_yiaddr m" "get32 236 (msg_bytes m) = m_cookie m"
    "drop 240 (msg_bytes m) = m_options m" "length (msg_bytes m) = 240 + length (m_options m)"
proof -
  show "msg_bytes m ! 0 = m_op m"
    by (simp add: msg_bytes_def msg_header_def)
  show "get32 4 (msg_bytes m) = m_xid m"
    by (rule get32_header [where a = "[m_op m, m_htype m, m_hlen m, m_hops m]"])
       (simp_all add: msg_bytes_def msg_header_def del: le_store_numeral)
  show "get32 16 (msg_bytes m) = m_yiaddr m"
    by (rule get32_header [where a = "[m_op m, m_htype m, m_hlen m, m_hops m] @ le_store 4 (m_xid m)
          @ le_store 2 (m_secs m) @ le_store 2 (m_flags m) @ le_store 4 (m_ciaddr m)"])
       (simp_all add: msg_bytes_def msg_header_def del: le_store_numeral)
  show "get32 236 (msg_bytes m) = m_cookie m"
    by (rule get32_header [where a = "[m_op m, m_htype m, m_hlen m, m_hops m] @ le_store 4 (m_xid m)
          @ le_store 2 (m_secs m) @ le_store 2 (m_flags m) @ le_store 4 (m_ciaddr m)
          @ le_store 4 (m_yiaddr m) @ le_store 4 (m_siaddr m) @ le_store 4 (m_giaddr m)
          @ m_chaddr m @ m_sname m @ m_file m"])
       (use assms in \<open>simp_all add: msg_bytes_def msg_header_def msg_sizes_def del: le_store_numeral\<close>)
  show "drop 240 (msg_bytes m) = m_options m" "length (msg_bytes m) = 240 + length (m_options m)"
    using assms by (simp_all add: msg_bytes_def length_msg_header)
qed

text \<open>A reply laid out by a server is read back: the fixed fields and the fold of its options.\<close>

lemma reply_read_back:
  assumes "msg_sizes m" "m_op m = BOOTREPLY" "m_xid m = xid" "m_cookie m = htonl MAGIC"
    and "m_options m = concat (map tlv os) @ OPT_END # pad" "list_all plain_option os"
    and "foldl (\<lambda>st opt. apply_option (fst opt) (snd opt) st) (0, zero_offer) os = (mt, out)" "mt \<noteq> 0"
  shows "parse_dhcp_payload (msg_bytes m) xid = Some (mt, out\<lparr>yiaddr := m_yiaddr m\<rparr>)"
  using assms
  by (simp add: parse_dhcp_payload_iff msg_bytes_fields dhcp_parse_options_def options_read_back)

lemma own_message_ignored:
  "length mac = 6 \<Longrightarrow> parse_dhcp_payload (build_dhcp_discover 600 mac xid) xid' = None"
  "length mac = 6 \<Longrightarrow> parse_dhcp_payload (build_dhcp_request 600 mac xid ip sid) xid' = None"
  by (simp_all add: parse_dhcp_payload_def build_discover_bytes build_request_bytes msg_bytes_fields
      msg_sizes_def build_common_def poke_def)

end
