(* ===== verification/DHCP_Frame.thy ===== *)
theory DHCP_Frame
  imports DHCP_Message
begin

unbundle bit_operations_syntax

text \<open>
  Frames of the DHCP client: the Ethernet, IPv4 and UDP headers around a sent message
  (\<open>send_dhcp_packet\<close>), and the way from a received frame to the DHCP payload
  (\<open>eth_ipv4_payload\<close>, \<open>dhcp_udp_payload_len\<close>, \<open>try_recv_dhcp_packet_once\<close>,
  \<open>try_recv_dhcp_udp_once\<close> of \<^verbatim>\<open>src/tools/edhcpc/edhcpc.c\<close>). A received buffer is the list of
  its \<open>n\<close> bytes; every read of the code is guarded by a length check, so no other byte of the
  2048-byte array is ever looked at.

  The lemmas give the layout of a sent frame, show that both of its checksums verify, and that
  the receive path delivers the payload of every well-formed frame, tagged or not, and nothing
  that is not a UDP datagram from port 67 to port 68.
\<close>

section \<open>Headers\<close>

record ipv4_hdr =
  ip_ver_ihl :: byte
  ip_tos :: byte
  ip_tot_len :: u16
  ip_id :: u16
  ip_frag_off :: u16
  ip_ttl :: byte
  ip_proto :: byte
  ip_check :: u16
  ip_saddr :: u32
  ip_daddr :: u32

record udp_hdr =
  udp_sport :: u16
  udp_dport :: u16
  udp_len :: u16
  udp_check :: u16

definition ipv4_bytes :: "ipv4_hdr \<Rightarrow> byte list" where
  "ipv4_bytes h = [ip_ver_ihl h, ip_tos h] @ le_store 2 (ip_tot_len h) @ le_store 2 (ip_id h)
     @ le_store 2 (ip_frag_off h) @ [ip_ttl h, ip_proto h] @ le_store 2 (ip_check h)
     @ le_store 4 (ip_saddr h) @ le_store 4 (ip_daddr h)"

definition udp_bytes :: "udp_hdr \<Rightarrow> byte list" where
  "udp_bytes h = le_store 2 (udp_sport h) @ le_store 2 (udp_dport h) @ le_store 2 (udp_len h)
     @ le_store 2 (udp_check h)"

definition eth_bytes :: "byte list \<Rightarrow> byte list" where
  "eth_bytes mac = replicate 6 0xff @ take 6 mac @ le_store 2 (htons 0x0800)"

abbreviation (input) DHCP_CLIENT_PORT :: u16 where "DHCP_CLIENT_PORT \<equiv> 68"
abbreviation (input) DHCP_SERVER_PORT :: u16 where "DHCP_SERVER_PORT \<equiv> 67"
abbreviation (input) ETHERTYPE_IP :: u16 where "ETHERTYPE_IP \<equiv> 0x0800"
abbreviation (input) INADDR_BROADCAST :: u32 where "INADDR_BROADCAST \<equiv> 0xffffffff"

section \<open>Sending\<close>

text \<open>The headers that \<open>send_dhcp_packet\<close> fills in, for the identification \<open>xid\<close> it draws.\<close>

definition sent_ipv4 :: "u32 \<Rightarrow> nat \<Rightarrow> ipv4_hdr" where
  "sent_ipv4 xid dhcp_len =
     (let udp_len = of_nat (8 + dhcp_len); ip_len = 20 + udp_len;
          ip = \<lparr>ip_ver_ihl = push_bit 4 4 OR of_nat (20 div 4), ip_tos = 0, ip_tot_len = htons ip_len,
                ip_id = htons (ucast (xid AND 0xffff)), ip_frag_off = htons 0, ip_ttl = 64,
                ip_proto = 17, ip_check = 0, ip_saddr = htonl 0, ip_daddr = htonl INADDR_BROADCAST\<rparr>
      in ip\<lparr>ip_check := csum16 (ipv4_bytes ip)\<rparr>)"

definition sent_udp :: "byte list \<Rightarrow> udp_hdr" where
  "sent_udp dhcp =
     (let udp = \<lparr>udp_sport = htons DHCP_CLIENT_PORT, udp_dport = htons DHCP_SERVER_PORT,
                 udp_len = htons (of_nat (8 + length dhcp)), udp_check = 0\<rparr>
      in udp\<lparr>udp_check := udp_checksum_ipv4 (htonl 0) (htonl INADDR_BROADCAST) (udp_bytes udp) dhcp\<rparr>)"

definition sent_frame :: "u32 \<Rightarrow> byte list \<Rightarrow> byte list \<Rightarrow> byte list" where
  "sent_frame xid mac dhcp =
     (let ip_len = 20 + of_nat (8 + length dhcp) :: u16
      in take (14 + unat ip_len)
           (eth_bytes mac @ ipv4_bytes (sent_ipv4 xid (length dhcp)) @ udp_bytes (sent_udp dhcp) @ dhcp))"

section \<open>Receiving\<close>

datatype rx = RxData "byte list" | RxAgain | RxError

datatype rx_result = Received int dhcp_offer | Nothing | Failed

text \<open>The IPv4 part of an Ethernet frame, with or without an 802.1Q tag.\<close>

definition eth_ipv4_payload :: "byte list \<Rightarrow> byte list option" where
  "eth_ipv4_payload buf =
     (let n = length buf in
      if n < 14 + 20 then None
      else
        let et = ntohs (get16 12 buf) in
        if et = 0x8100
        then (if n < 18 + 20 then None
              else if ntohs (get16 16 buf) \<noteq> ETHERTYPE_IP then None else Some (drop 18 buf))
        else if et \<noteq> ETHERTYPE_IP then None else Some (drop 14 buf))"

definition ihl_of :: "byte list \<Rightarrow> nat" where
  "ihl_of ip = unat ((ip ! 0 AND 0x0f) * 4)"

text \<open>\<open>udp_off\<close> is the offset of the UDP header from the IPv4 header; \<open>avail\<close> is a pointer
  difference converted to \<open>size_t\<close>.\<close>

definition dhcp_udp_payload_len :: "byte list \<Rightarrow> nat \<Rightarrow> nat" where
  "dhcp_udp_payload_len ip udp_off =
     (let ip_data_len = length ip; ihl = ihl_of ip;
          avail = unat (of_int (int ip_data_len - int udp_off - 8) :: u64);
          ulen = unat (ntohs (get16 (udp_off + 4) ip));
          from_udp = (if 8 \<le> ulen then ulen - 8 else 0);
          from_ip = (if ihl + 8 \<le> ip_data_len then ip_data_len - ihl - 8 else 0);
          len = from_udp;
          len = (if len < from_ip then from_ip else len)
      in if avail < len then avail else len)"

text \<open>What follows the extraction of the IPv4 part; \<open>Nothing\<close> is the return value 1.\<close>

definition recv_ipv4 :: "byte list \<Rightarrow> u32 \<Rightarrow> rx_result" where
  "recv_ipv4 ip xid_be =
     (let ihl = ihl_of ip in
      if drop_bit 4 (ip ! 0) \<noteq> 4 \<or> ihl < 20 then Nothing
      else if ip ! 9 \<noteq> 17 then Nothing
      else if length ip < ihl + 8 then Nothing
      else if ntohs (get16 (ihl + 2) ip) \<noteq> DHCP_CLIENT_PORT then Nothing
      else if ntohs (get16 ihl ip) \<noteq> DHCP_SERVER_PORT then Nothing
      else if ntohs (get16 (ihl + 4) ip) < 8 then Nothing
      else
        let payload_len = dhcp_udp_payload_len ip ihl;
            payload = take payload_len (drop (ihl + 8) ip)
        in if payload_len < OPTIONS_OFF then Nothing
           else case parse_dhcp_payload payload xid_be of
                  Some (mt, offer) \<Rightarrow> Received mt offer
                | None \<Rightarrow> Nothing)"

definition try_recv_dhcp_packet_once :: "rx \<Rightarrow> u32 \<Rightarrow> rx_result" where
  "try_recv_dhcp_packet_once r xid_be =
     (case r of RxAgain \<Rightarrow> Nothing | RxError \<Rightarrow> Failed
      | RxData d \<Rightarrow>
          let buf = take 2048 d in
          case eth_ipv4_payload buf of
            Some ip \<Rightarrow> recv_ipv4 ip xid_be
          | None \<Rightarrow> if 20 + 8 \<le> length buf \<and> drop_bit 4 (buf ! 0) = 4 then recv_ipv4 buf xid_be
                    else Nothing)"

definition try_recv_dhcp_udp_once :: "rx \<Rightarrow> u32 \<Rightarrow> rx_result" where
  "try_recv_dhcp_udp_once r xid_be =
     (case r of RxAgain \<Rightarrow> Nothing | RxError \<Rightarrow> Failed
      | RxData d \<Rightarrow>
          let buf = take 2048 d in
          if buf = [] then Nothing
          else case parse_dhcp_payload buf xid_be of
                 Some (mt, offer) \<Rightarrow> Received mt offer
               | None \<Rightarrow> Nothing)"

text \<open>\<open>fd_readable_now\<close>: the result of \<open>poll\<close> and its \<open>revents\<close> (\<open>POLLIN\<close> 1, \<open>POLLERR\<close> 8,
  \<open>POLLHUP\<close> 16, \<open>POLLNVAL\<close> 32).\<close>

definition fd_readable_now :: "int \<Rightarrow> u16 \<Rightarrow> int" where
  "fd_readable_now rc revents =
     (if rc < 0 then - 1
      else if rc = 0 then 0
      else if revents AND (8 OR 16 OR 32) \<noteq> 0 then - 1
      else if revents AND 1 \<noteq> 0 then 1 else 0)"

section \<open>A sent frame\<close>

lemma length_ipv4_bytes [simp]: "length (ipv4_bytes h) = 20"
  by (simp add: ipv4_bytes_def del: le_store_numeral)

lemma length_udp_bytes [simp]: "length (udp_bytes h) = 8"
  by (simp add: udp_bytes_def del: le_store_numeral)

lemma length_eth_bytes: "length mac = 6 \<Longrightarrow> length (eth_bytes mac) = 14"
  by (simp add: eth_bytes_def del: le_store_numeral)

lemma sent_frame_layout:
  assumes "length mac = 6" "length dhcp \<le> 600"
  shows "sent_frame xid mac dhcp
    = eth_bytes mac @ ipv4_bytes (sent_ipv4 xid (length dhcp)) @ udp_bytes (sent_udp dhcp) @ dhcp"
proof -
  have "unat (20 + of_nat (8 + length dhcp) :: u16) = 28 + length dhcp"
    using assms unat_of_nat_eq [of "28 + length dhcp", where 'a = 16] by simp
  then show ?thesis
    using assms by (simp add: sent_frame_def length_eth_bytes Let_def)
qed

lemma ipv4_checksum_verifies: "csum16 (ipv4_bytes (sent_ipv4 xid n)) = 0"
proof -
  define h where "h = sent_ipv4 xid n\<lparr>ip_check := 0\<rparr>"
  have "ip_check (sent_ipv4 xid n) = csum16 (ipv4_bytes h)"
    by (simp add: h_def sent_ipv4_def Let_def)
  then have s: "sent_ipv4 xid n = h\<lparr>ip_check := csum16 (ipv4_bytes h)\<rparr>"
    by (simp add: h_def)
  have zero: "ip_check h = 0" by (simp add: h_def)
  have "le_sum (ipv4_bytes (h\<lparr>ip_check := c\<rparr>)) = le_sum (ipv4_bytes h) + unat c" for c
    using zero by (simp add: ipv4_bytes_def le_sum_append del: le_store_numeral)
  then show ?thesis
    unfolding s
    by (intro csum16_verifies [where n = "le_sum (ipv4_bytes h)" and c = "unat (csum16 (ipv4_bytes h))"])
       (simp_all add: csum16_ones)
qed

lemma ones_add_ones: "ones (ones a + ones b + ones c) = ones (a + b + c)"
proof (rule ones_eqI)
  have "(ones a + ones b + ones c) mod 65535 = ((ones a mod 65535 + ones b mod 65535) mod 65535 + ones c mod 65535) mod 65535"
    by (simp only: mod_add_eq)
  also have "\<dots> = (a + b + c) mod 65535" by (simp only: ones_mod mod_add_eq)
  finally show "(ones a + ones b + ones c) mod 65535 = (a + b + c) mod 65535" .
qed simp

text \<open>\<open>udp_checksum_ipv4\<close> is the complement of the ones' complement sum of the three parts, with
  0 replaced by \<open>0xffff\<close>.\<close>

lemma udp_checksum_value:
  fixes src dst :: u32 and h :: udp_hdr and payload :: "byte list"
  assumes "length payload \<le> 65527"
  defines "n \<equiv> le_sum (pseudo_header src dst (length payload)) + le_sum (udp_bytes h) + le_sum payload"
  defines "c \<equiv> unat (udp_checksum_ipv4 src dst (udp_bytes h) payload)"
  shows "c = 65535 - ones n \<or> ones n = 65535 \<and> c = 65535"
proof -
  let ?ph = "pseudo_header src dst (length payload)"
  let ?acc = "ucast (NOT (csum16 ?ph)) + ucast (NOT (csum16 (udp_bytes h))) + ucast (NOT (csum16 payload)) :: u32"
  have part: "unat (ucast (NOT (csum16 d)) :: u32) = ones (le_sum d)" if "length d \<le> 131070" for d
    using that ones_le [of "le_sum d"]
    by (simp add: unsigned_ucast_eq take_bit_nat_def unat_not16 csum16_ones)
  have ph: "length ?ph = 12" by (simp add: pseudo_header_def del: le_store_numeral)
  have "unat ?acc = ones (le_sum ?ph) + ones (le_sum (udp_bytes h)) + ones (le_sum payload)"
    using assms(1) ph ones_le [of "le_sum ?ph"] ones_le [of "le_sum (udp_bytes h)"] ones_le [of "le_sum payload"]
    by (simp add: unat_word_ariths part)
  then have "ones (unat ?acc) = ones n"
    by (simp add: n_def ones_add_ones)
  then have out: "unat (NOT (ucast (fold16 ?acc)) :: u16) = 65535 - ones n"
    using ones_le [of n] by (simp add: unat_not16 unsigned_ucast_eq take_bit_nat_def fold16_ones)
  show ?thesis
  proof (cases "(NOT (ucast (fold16 ?acc)) :: u16) = 0")
    case True
    then have "65535 - ones n = 0" unfolding out [symmetric] by (simp only: unsigned_0)
    then have "ones n = 65535" using ones_le [of n] by linarith
    moreover have "c = 65535" unfolding c_def udp_checksum_ipv4_def Let_def by (simp only: True if_True) simp
    ultimately show ?thesis by simp
  next
    case False
    then have "c = 65535 - ones n"
      unfolding c_def udp_checksum_ipv4_def Let_def out [symmetric] by (simp only: if_False)
    then show ?thesis ..
  qed
qed

lemma udp_checksum_verifies:
  assumes "length dhcp \<le> 65527"
  shows "csum16 (pseudo_header (htonl 0) (htonl INADDR_BROADCAST) (length dhcp)
                 @ udp_bytes (sent_udp dhcp) @ dhcp) = 0"
proof -
  let ?ph = "pseudo_header (htonl 0) (htonl INADDR_BROADCAST) (length dhcp)"
  define h where "h = sent_udp dhcp\<lparr>udp_check := 0\<rparr>"
  define c where "c = udp_checksum_ipv4 (htonl 0) (htonl INADDR_BROADCAST) (udp_bytes h) dhcp"
  have s: "sent_udp dhcp = h\<lparr>udp_check := c\<rparr>"
    by (simp add: h_def c_def sent_udp_def Let_def)
  have ph: "length ?ph = 12" by (simp add: pseudo_header_def del: le_store_numeral)
  have "udp_check h = 0" by (simp add: h_def)
  then have "le_sum (udp_bytes (h\<lparr>udp_check := c\<rparr>)) = le_sum (udp_bytes h) + unat c"
    by (simp add: udp_bytes_def le_sum_append del: le_store_numeral)
  then have "le_sum (?ph @ udp_bytes (sent_udp dhcp) @ dhcp)
      = le_sum ?ph + le_sum (udp_bytes h) + le_sum dhcp + unat c"
    by (simp add: s le_sum_append ph)
  then show ?thesis
    by (rule csum16_verifies [rotated])
       (use udp_checksum_value [OF assms] assms ph in \<open>simp_all add: c_def\<close>)
qed

section \<open>The receive path\<close>

text \<open>The larger of the two lengths is taken and then cut to the buffer, so that the length field
  of the UDP header never limits the payload.\<close>

lemma dhcp_udp_payload_len_avail:
  assumes "ihl_of ip + 8 \<le> length ip" "length ip \<le> 2048"
  shows "dhcp_udp_payload_len ip (ihl_of ip) = length ip - ihl_of ip - 8"
proof -
  have "int (length ip) - int (ihl_of ip) - 8 = int (length ip - ihl_of ip - 8)"
    using assms by simp
  then have "unat (of_int (int (length ip) - int (ihl_of ip) - 8) :: u64) = length ip - ihl_of ip - 8"
    using assms by (simp only: of_int_of_nat_eq, intro unat_of_nat_eq) simp
  with assms show ?thesis by (simp add: dhcp_udp_payload_len_def Let_def)
qed

definition dhcp_datagram :: "byte list \<Rightarrow> bool" where
  "dhcp_datagram ip \<longleftrightarrow> drop_bit 4 (ip ! 0) = 4 \<and> 20 \<le> ihl_of ip \<and> ip ! 9 = 17 \<and> ihl_of ip + 8 \<le> length ip
     \<and> ntohs (get16 (ihl_of ip + 2) ip) = DHCP_CLIENT_PORT \<and> ntohs (get16 (ihl_of ip) ip) = DHCP_SERVER_PORT
     \<and> 8 \<le> ntohs (get16 (ihl_of ip + 4) ip)"

lemma recv_ipv4_payload:
  assumes "length ip \<le> 2048"
  shows "recv_ipv4 ip xid =
     (if dhcp_datagram ip
      then (case parse_dhcp_payload (drop (ihl_of ip + 8) ip) xid of
              Some (mt, off) \<Rightarrow> Received mt off | None \<Rightarrow> Nothing)
      else Nothing)"
proof (cases "dhcp_datagram ip")
  case True
  then have len: "dhcp_udp_payload_len ip (ihl_of ip) = length ip - ihl_of ip - 8"
    using assms by (simp add: dhcp_udp_payload_len_avail dhcp_datagram_def)
  have short: "parse_dhcp_payload (drop (ihl_of ip + 8) ip) xid = None"
    if "length ip - ihl_of ip - 8 < 240"
    using that by (simp add: parse_dhcp_payload_def)
  from True show ?thesis
    using short by (auto simp: recv_ipv4_def Let_def len dhcp_datagram_def not_le not_less)
next
  case False
  then show ?thesis
    by (auto simp: recv_ipv4_def Let_def dhcp_datagram_def not_le not_less)
qed

lemma recv_ipv4_not_failed: "recv_ipv4 ip xid \<noteq> Failed"
  by (simp add: recv_ipv4_def Let_def split: option.splits)

lemma recv_ipv4_Received:
  assumes "length ip \<le> 2048" "recv_ipv4 ip xid = Received mt off"
  shows "dhcp_datagram ip \<and> parse_dhcp_payload (drop (ihl_of ip + 8) ip) xid = Some (mt, off)"
  using assms by (auto simp: recv_ipv4_payload split: if_splits option.splits)

text \<open>Only DHCP replies to our transaction leave the receive path.\<close>

lemma packet_once_Received:
  assumes "try_recv_dhcp_packet_once r xid = Received mt off"
  shows "\<exists>d k. r = RxData d \<and> dhcp_datagram (drop k (take 2048 d))
     \<and> parse_dhcp_payload (drop (k + ihl_of (drop k (take 2048 d)) + 8) (take 2048 d)) xid = Some (mt, off)"
proof -
  from assms obtain d where d: "r = RxData d"
    by (auto simp: try_recv_dhcp_packet_once_def split: rx.splits)
  let ?b = "take 2048 d"
  have "\<exists>k. recv_ipv4 (drop k ?b) xid = Received mt off"
  proof (cases "eth_ipv4_payload ?b")
    case None
    with assms d have "recv_ipv4 (drop 0 ?b) xid = Received mt off"
      by (simp add: try_recv_dhcp_packet_once_def Let_def split: if_splits)
    then show ?thesis ..
  next
    case (Some ip)
    then have "ip = drop 14 ?b \<or> ip = drop 18 ?b"
      by (auto simp: eth_ipv4_payload_def Let_def split: if_splits)
    with assms d Some show ?thesis
      by (auto simp: try_recv_dhcp_packet_once_def Let_def)
  qed
  then obtain k where k: "recv_ipv4 (drop k ?b) xid = Received mt off" ..
  from recv_ipv4_Received [OF _ this] d show ?thesis
    by (intro exI [of _ d] exI [of _ k]) (simp add: add.commute add.left_commute)
qed

lemma udp_once_Received:
  assumes "try_recv_dhcp_udp_once r xid = Received mt off"
  shows "\<exists>d. r = RxData d \<and> parse_dhcp_payload (take 2048 d) xid = Some (mt, off)"
  using assms
  by (auto simp: try_recv_dhcp_udp_once_def Let_def split: rx.splits if_splits option.splits)

text \<open>A datagram as a server sends it, with any IPv4 options: the parts the client looks at.\<close>

definition ipv4_of_server :: "ipv4_hdr \<Rightarrow> byte list \<Rightarrow> udp_hdr \<Rightarrow> bool" where
  "ipv4_of_server h ipopts u \<longleftrightarrow> (\<exists>k\<le>10. length ipopts = 4 * k \<and> ip_ver_ihl h = of_nat (0x45 + k))
     \<and> ip_proto h = 17 \<and> udp_sport u = htons DHCP_SERVER_PORT \<and> udp_dport u = htons DHCP_CLIENT_PORT
     \<and> 8 \<le> ntohs (udp_len u)"

lemma ver_ihl_values:
  assumes "k \<le> 10"
  shows "unat ((of_nat (0x45 + k) AND 0x0f :: byte) * 4) = 20 + 4 * k"
    "drop_bit 4 (of_nat (0x45 + k) :: byte) = 4"
proof -
  from assms have "k = 0 \<or> k = 1 \<or> k = 2 \<or> k = 3 \<or> k = 4 \<or> k = 5 \<or> k = 6 \<or> k = 7 \<or> k = 8 \<or> k = 9 \<or> k = 10"
    by presburger
  then show "unat ((of_nat (0x45 + k) AND 0x0f :: byte) * 4) = 20 + 4 * k"
    "drop_bit 4 (of_nat (0x45 + k) :: byte) = 4"
    by auto
qed

lemma server_datagram:
  fixes payload :: "byte list"
  assumes "ipv4_of_server h ipopts u"
  defines "ip \<equiv> ipv4_bytes h @ ipopts @ udp_bytes u @ payload"
  shows "ihl_of ip = 20 + length ipopts" "dhcp_datagram ip" "drop_bit 4 (ip ! 0) = 4"
proof -
  obtain k where k: "k \<le> 10" "length ipopts = 4 * k" "ip_ver_ihl h = of_nat (0x45 + k)"
    using assms(1) by (auto simp: ipv4_of_server_def)
  have hd: "ip ! 0 = of_nat (0x45 + k)" by (simp add: ip_def ipv4_bytes_def k del: of_nat_add)
  show ihl: "ihl_of ip = 20 + length ipopts"
    using ver_ihl_values(1) [OF k(1)] k by (simp add: ihl_of_def hd del: of_nat_add)
  show v: "drop_bit 4 (ip ! 0) = 4" using ver_ihl_values(2) [OF k(1)] by (simp add: hd del: of_nat_add)
  have "get16 (ihl_of ip) ip = udp_sport u"
    by (rule get16_at [where a = "ipv4_bytes h @ ipopts"])
       (simp_all add: ip_def [symmetric] ihl, simp add: ip_def udp_bytes_def)
  moreover have "get16 (ihl_of ip + 2) ip = udp_dport u"
    by (rule get16_at [where a = "ipv4_bytes h @ ipopts @ le_store 2 (udp_sport u)"])
       (simp_all add: ip_def [symmetric] ihl, simp add: ip_def udp_bytes_def)
  moreover have "get16 (ihl_of ip + 4) ip = udp_len u"
    by (rule get16_at [where a = "ipv4_bytes h @ ipopts @ le_store 2 (udp_sport u) @ le_store 2 (udp_dport u)"])
       (simp_all add: ip_def [symmetric] ihl, simp add: ip_def udp_bytes_def)
  moreover have "ip ! 9 = ip_proto h" by (simp add: ip_def ipv4_bytes_def nth_append)
  moreover have "ihl_of ip + 8 \<le> length ip" by (simp add: ihl) (simp add: ip_def)
  ultimately show "dhcp_datagram ip"
    using assms(1) ihl v by (simp add: dhcp_datagram_def ipv4_of_server_def)
qed

text \<open>The frame around it, with or without an 802.1Q tag \<open>tci\<close>.\<close>

definition server_frame :: "byte list \<Rightarrow> u16 option \<Rightarrow> byte list \<Rightarrow> byte list" where
  "server_frame macs tag ip = macs
     @ (case tag of None \<Rightarrow> [] | Some tci \<Rightarrow> be_store 2 (0x8100 :: u16) @ be_store 2 tci)
     @ be_store 2 ETHERTYPE_IP @ ip"

lemma ntohs_get16_at: "p = a @ be_store 2 w @ b \<Longrightarrow> off = length a \<Longrightarrow> ntohs (get16 off p) = w"
  using get16_at [of p a "htons w" b off] by (simp del: le_store_numeral)

lemma eth_payload_of_frame:
  assumes "length macs = 12" "20 \<le> length ip"
  shows "eth_ipv4_payload (server_frame macs tag ip) = Some ip"
proof (cases tag)
  case None
  have "ntohs (get16 12 (server_frame macs None ip)) = 0x0800"
    by (rule ntohs_get16_at [where a = macs]) (simp_all add: server_frame_def assms)
  with None assms show ?thesis
    by (simp add: eth_ipv4_payload_def Let_def) (simp add: server_frame_def)
next
  case (Some tci)
  have "ntohs (get16 12 (server_frame macs (Some tci) ip)) = 0x8100"
    by (rule ntohs_get16_at [where a = macs]) (simp_all add: server_frame_def assms)
  moreover have "ntohs (get16 16 (server_frame macs (Some tci) ip)) = 0x0800"
    by (rule ntohs_get16_at [where a = "macs @ be_store 2 (0x8100 :: u16) @ be_store 2 tci"])
       (simp_all add: server_frame_def assms)
  ultimately show ?thesis
    using Some assms by (simp add: eth_ipv4_payload_def Let_def) (simp add: server_frame_def)
qed

lemma packet_once_server_frame:
  fixes payload :: "byte list" and tag :: "u16 option"
  assumes "ipv4_of_server h ipopts u" "length macs = 12"
  defines "frame \<equiv> server_frame macs tag (ipv4_bytes h @ ipopts @ udp_bytes u @ payload)"
  assumes "length frame \<le> 2048"
  shows "try_recv_dhcp_packet_once (RxData frame) xid =
     (case parse_dhcp_payload payload xid of Some (mt, off) \<Rightarrow> Received mt off | None \<Rightarrow> Nothing)"
proof -
  let ?ip = "ipv4_bytes h @ ipopts @ udp_bytes u @ payload"
  have "length ?ip \<le> 2048" using assms(4) by (simp add: frame_def server_frame_def)
  moreover have "eth_ipv4_payload frame = Some ?ip"
    unfolding frame_def by (rule eth_payload_of_frame) (use assms(2) in simp_all)
  ultimately show ?thesis
    using server_datagram [OF assms(1), of payload] assms(4)
    by (simp add: try_recv_dhcp_packet_once_def recv_ipv4_payload)
qed

end
