(* ===== verification/DHCP_Netlink.thy ===== *)
theory DHCP_Netlink
  imports DHCP_Frame "HOL-Library.Monad_Syntax"
begin

unbundle bit_operations_syntax

text \<open>
  The rtnetlink messages of \<^verbatim>\<open>src/tools/edhcpc/edhcpc.c\<close>: \<open>rta_put\<close>, the RTM_NEWADDR request
  of \<open>apply_ipv4_addr\<close>, the RTM_NEWROUTE request of \<open>apply_default_route\<close>, and the walk over the
  answer in \<open>nl_recv_ack\<close>. The requests are written into a zeroed buffer of 512 bytes the way the
  code does; \<open>rta_parse\<close> is the documented attribute walk of a receiver, with which they are read
  back. The walk over an answer may leave the 8192-byte buffer or run forever, because the
  remaining length is cast to \<open>unsigned int\<close>: both are outcomes of the model.
\<close>

section \<open>Constants of the headers\<close>

abbreviation (input) NLMSG_ERROR :: u16 where "NLMSG_ERROR \<equiv> 2"
abbreviation (input) NLMSG_DONE :: u16 where "NLMSG_DONE \<equiv> 3"
abbreviation (input) RTM_NEWADDR :: u16 where "RTM_NEWADDR \<equiv> 20"
abbreviation (input) RTM_NEWROUTE :: u16 where "RTM_NEWROUTE \<equiv> 24"
abbreviation (input) IFA_ADDRESS :: u16 where "IFA_ADDRESS \<equiv> 1"
abbreviation (input) IFA_LOCAL :: u16 where "IFA_LOCAL \<equiv> 2"
abbreviation (input) IFA_LABEL :: u16 where "IFA_LABEL \<equiv> 3"
abbreviation (input) RTA_OIF :: u16 where "RTA_OIF \<equiv> 4"
abbreviation (input) RTA_GATEWAY :: u16 where "RTA_GATEWAY \<equiv> 5"
abbreviation (input) IFNAMSIZ :: nat where "IFNAMSIZ \<equiv> 16"

text \<open>\<open>NLM_F_REQUEST | NLM_F_ACK | NLM_F_CREATE | NLM_F_REPLACE\<close>.\<close>

abbreviation (input) NL_FLAGS :: u16 where "NL_FLAGS \<equiv> 0x505"

definition align4 :: "nat \<Rightarrow> nat" where
  "align4 n = (n + 3) div 4 * 4"

definition nlmsg_bytes :: "u32 \<Rightarrow> u16 \<Rightarrow> u16 \<Rightarrow> u32 \<Rightarrow> u32 \<Rightarrow> byte list" where
  "nlmsg_bytes len type flags seq pid =
     le_store 4 len @ le_store 2 type @ le_store 2 flags @ le_store 4 seq @ le_store 4 pid"

section \<open>Building requests\<close>

definition rta_put :: "byte list \<Rightarrow> nat \<Rightarrow> u16 \<Rightarrow> byte list \<Rightarrow> nat \<Rightarrow> byte list" where
  "rta_put buf off type data len =
     poke (poke buf off (le_store 2 (of_nat (4 + len) :: u16) @ le_store 2 type)) (off + 4) (take len data)"

text \<open>The zero-padded copy that \<open>strncpy(label, ifname, IFNAMSIZ - 1)\<close> leaves, and the attribute
  length \<open>strnlen(label, IFNAMSIZ - 1) + 1\<close>.\<close>

definition if_label :: "string \<Rightarrow> byte list" where
  "if_label ifname = (let s = map of_char (take (IFNAMSIZ - 1) ifname) in s @ replicate (IFNAMSIZ - length s) 0)"

definition if_label_len :: "string \<Rightarrow> nat" where
  "if_label_len ifname = length (takeWhile (\<lambda>b. b \<noteq> 0) (take (IFNAMSIZ - 1) (if_label ifname))) + 1"

definition newaddr_request :: "u32 \<Rightarrow> string \<Rightarrow> u32 \<Rightarrow> int \<Rightarrow> u32 \<Rightarrow> byte list" where
  "newaddr_request ifindex ifname ip_be prefix_len pid =
     (let buf = replicate 512 0;
          len = 16 + 8;
          buf = poke buf 0 (nlmsg_bytes (of_nat len) RTM_NEWADDR NL_FLAGS 100 pid);
          buf = poke buf 16 ([2, of_int prefix_len, 0, 0] @ le_store 4 ifindex);
          off = align4 len;
          buf = rta_put buf off IFA_LOCAL (le_store 4 ip_be) 4;
          off = off + align4 (4 + 4);
          buf = rta_put buf off IFA_ADDRESS (le_store 4 ip_be) 4;
          off = off + align4 (4 + 4);
          n = if_label_len ifname;
          buf = rta_put buf off IFA_LABEL (if_label ifname) n;
          off = off + align4 (4 + n);
          buf = poke buf 0 (le_store 4 (of_nat off :: u32))
      in take off buf)"

definition newroute_request :: "u32 \<Rightarrow> u32 \<Rightarrow> u32 \<Rightarrow> byte list" where
  "newroute_request ifindex gw_be pid =
     (let buf = replicate 512 0;
          len = 16 + 12;
          buf = poke buf 0 (nlmsg_bytes (of_nat len) RTM_NEWROUTE NL_FLAGS 101 pid);
          buf = poke buf 16 [2, 0, 0, 0, 254, 3, 0, 1];
          off = align4 len;
          buf = rta_put buf off RTA_GATEWAY (le_store 4 gw_be) 4;
          off = off + align4 (4 + 4);
          buf = rta_put buf off RTA_OIF (le_store 4 ifindex) 4;
          off = off + align4 (4 + 4);
          buf = poke buf 0 (le_store 4 (of_nat off :: u32))
      in take off buf)"

section \<open>Reading the answer\<close>

datatype nl_result = NlAcked | NlError | NlMore | NlOutOfBounds

text \<open>\<open>NLMSG_ALIGN\<close> on the 32-bit length field.\<close>

definition nlmsg_align :: "u32 \<Rightarrow> u32" where
  "nlmsg_align len = (len + 3) AND NOT 3"

text \<open>The inner loop of \<open>nl_recv_ack\<close> at byte \<open>pos\<close> of the buffer with \<open>n\<close> bytes left. \<open>None\<close>:
  the loop does not end. \<open>NlOutOfBounds\<close>: it reads past the buffer.\<close>

partial_function (option) nl_walk :: "byte list \<Rightarrow> u32 \<Rightarrow> nat \<Rightarrow> int \<Rightarrow> nl_result option" where
  "nl_walk buf seq pos n =
     (if of_int n < (16 :: u32) then Some NlMore
      else if length buf < pos + 16 then Some NlOutOfBounds
      else
        let len = get32 pos buf in
        if len < 16 \<or> of_int n < len then Some NlMore
        else
          let al = nlmsg_align len; type = get16 (pos + 4) buf in
          if get32 (pos + 8) buf = seq \<and> type = NLMSG_ERROR
          then (if length buf < pos + 20 then Some NlOutOfBounds
                else if get32 (pos + 16) buf = 0 then Some NlAcked else Some NlError)
          else if get32 (pos + 8) buf = seq \<and> type = NLMSG_DONE then Some NlAcked
          else nl_walk buf seq (pos + unat al) (n - int (unat al)))"

declare nl_walk.simps [code]

section \<open>What the requests say\<close>

lemma align4_ge: "n \<le> align4 n"
  by (simp add: align4_def)

lemma align4_less: "align4 n < n + 4"
  by (simp add: align4_def)

lemma align4_add4 [simp]: "align4 (4 + n) = 4 + align4 n"
  by (simp add: align4_def) presburger

lemma align4_multiple [simp]: "n mod 4 = 0 \<Longrightarrow> align4 n = n"
  by (simp add: align4_def) presburger

text \<open>The attribute walk of a receiver (\<open>RTA_OK\<close> / \<open>RTA_NEXT\<close>).\<close>

function rta_parse :: "byte list \<Rightarrow> (u16 \<times> byte list) list" where
  "rta_parse bs =
     (let l = unat (get16 0 bs) in
      if length bs < 4 \<or> l < 4 \<or> length bs < l then []
      else (get16 2 bs, take (l - 4) (drop 4 bs)) # rta_parse (drop (align4 l) bs))"
  by auto
termination
proof (relation "measure length")
  fix bs :: "byte list" and l
  assume l: "l = unat (get16 0 bs)" "\<not> (length bs < 4 \<or> l < 4 \<or> length bs < l)"
  then have "0 < align4 l" using align4_ge [of l] by linarith
  moreover have "0 < length bs" using l by auto
  ultimately show "(drop (align4 l) bs, bs) \<in> measure length" by simp
qed simp

declare rta_parse.simps [simp del]

definition rta_bytes :: "u16 \<Rightarrow> byte list \<Rightarrow> byte list" where
  "rta_bytes type d = le_store 2 (of_nat (4 + length d) :: u16) @ le_store 2 type @ d
     @ replicate (align4 (length d) - length d) 0"

lemma length_rta_bytes [simp]: "length (rta_bytes type d) = 4 + align4 (length d)"
  using align4_ge [of "length d"] by (simp add: rta_bytes_def del: le_store_numeral)

lemma rta_parse_bytes:
  assumes "length d < 65532"
  shows "rta_parse (rta_bytes type d @ rest) = (type, d) # rta_parse rest"
proof -
  have "get16 0 (rta_bytes type d @ rest) = of_nat (4 + length d)"
    by (rule get16_at [where a = "[]"]) (simp_all add: rta_bytes_def del: le_store_numeral of_nat_add)
  then have l: "unat (get16 0 (rta_bytes type d @ rest)) = 4 + length d"
    using assms by (simp add: unat_of_nat_eq del: of_nat_add)
  have t: "get16 2 (rta_bytes type d @ rest) = type"
    by (rule get16_at [where a = "le_store 2 (of_nat (4 + length d) :: u16)"])
       (simp_all add: rta_bytes_def del: le_store_numeral)
  have "drop (4 + align4 (length d)) (rta_bytes type d @ rest) = rest" by simp
  moreover have "take (length d) (drop 4 (rta_bytes type d @ rest)) = d"
    by (simp add: rta_bytes_def del: le_store_numeral)
  ultimately show ?thesis
    using align4_ge [of "length d"] by (subst rta_parse.simps) (simp add: l t)
qed

lemma rta_parse_Nil [simp]: "rta_parse [] = []"
  by (simp add: rta_parse.simps)

text \<open>The buffer after the bytes \<open>d\<close> have been written; the rest is still zero.\<close>

definition nl_state :: "byte list \<Rightarrow> byte list" where
  "nl_state d = d @ replicate (512 - length d) 0"

lemma nl_state_Nil: "replicate 512 0 = nl_state []"
  by (simp add: nl_state_def)

lemma poke_nl_state:
  "length d + length bs \<le> 512 \<Longrightarrow> off = length d \<Longrightarrow> poke (nl_state d) off bs = nl_state (d @ bs)"
  by (simp add: nl_state_def poke_def)

lemma poke_nl_front:
  "length h = length bs \<Longrightarrow> poke (nl_state (h @ r)) 0 bs = nl_state (bs @ r)"
  by (simp add: nl_state_def poke_def)

lemma nl_state_pad: "length d + k \<le> 512 \<Longrightarrow> nl_state (d @ replicate k 0) = nl_state d"
  by (simp add: nl_state_def flip: replicate_add)

lemma rta_put_state:
  assumes "len \<le> length data" "length d + 4 + align4 len \<le> 512" "off = length d"
  shows "rta_put (nl_state d) off type data len = nl_state (d @ rta_bytes type (take len data))"
proof -
  have "rta_put (nl_state d) off type data len
      = nl_state (d @ le_store 2 (of_nat (4 + len) :: u16) @ le_store 2 type @ take len data)"
    using assms align4_ge [of len]
    by (simp add: rta_put_def poke_nl_state del: le_store_numeral of_nat_add)
  also have "\<dots> = nl_state ((d @ le_store 2 (of_nat (4 + len) :: u16) @ le_store 2 type @ take len data)
      @ replicate (align4 len - len) 0)"
    using assms align4_ge [of len] by (subst nl_state_pad) (simp_all del: le_store_numeral)
  finally show ?thesis using assms by (simp add: rta_bytes_def del: le_store_numeral of_nat_add)
qed

lemma take_nl_state [simp]: "n = length d \<Longrightarrow> take n (nl_state d) = d"
  by (simp add: nl_state_def)

text \<open>The label attribute: the first 15 characters of the name and a NUL.\<close>

definition label_bytes :: "string \<Rightarrow> byte list" where
  "label_bytes ifname = map of_char (take 15 ifname) @ [0]"

lemma unat_of_char: "unat (of_char c :: byte) = ord c"
proof -
  have "(of_char c :: byte) = of_nat (ord c)" by (simp add: ord_def of_char_def horner_sum_eq_sum_funpow)
  moreover have "ord c < 256" by (simp add: ord_def)
  ultimately show ?thesis by (simp add: unat_of_nat_eq)
qed

lemma of_char_byte_eq_0: "of_char c = (0 :: byte) \<longleftrightarrow> c = NUL"
proof -
  have "of_char c = (0 :: byte) \<longleftrightarrow> ord c = 0"
    by (simp only: unat_of_char [symmetric] unat_eq_zero)
  also have "\<dots> \<longleftrightarrow> ord c = ord NUL" by (simp add: ord_def)
  finally show ?thesis by (simp only: ord_eq_iff)
qed

lemma if_label_take:
  assumes "NUL \<notin> set ifname"
  shows "take (if_label_len ifname) (if_label ifname) = label_bytes ifname"
    "if_label_len ifname = length (label_bytes ifname)"
proof -
  let ?s = "map of_char (take 15 ifname) :: byte list"
  have "0 \<notin> set ?s" using assms by (auto simp: of_char_byte_eq_0 dest: in_set_takeD)
  then have "takeWhile (\<lambda>b. b \<noteq> 0) (?s @ replicate k 0) = ?s" for k
    by (subst takeWhile_append2; cases k) auto
  moreover have "take 15 (if_label ifname) = ?s @ replicate (15 - length ?s) 0"
    by (simp add: if_label_def)
  ultimately have len: "if_label_len ifname = length ?s + 1" by (simp add: if_label_len_def)
  then show "if_label_len ifname = length (label_bytes ifname)" by (simp add: label_bytes_def)
  obtain k where "16 - length ?s = Suc k" by (cases "16 - length ?s") auto
  with len show "take (if_label_len ifname) (if_label ifname) = label_bytes ifname"
    by (simp add: if_label_def label_bytes_def)
qed

lemma length_nlmsg_bytes [simp]: "length (nlmsg_bytes len type flags seq pid) = 16"
  by (simp add: nlmsg_bytes_def del: le_store_numeral)

lemma poke_nl_len:
  "poke (nl_state (nlmsg_bytes len type flags seq pid @ r)) 0 (le_store 4 len')
     = nl_state (nlmsg_bytes len' type flags seq pid @ r)"
  unfolding nlmsg_bytes_def append_assoc by (rule poke_nl_front) (simp del: le_store_numeral)

lemma length_label_bytes: "length (label_bytes ifname) \<le> 16"
  by (simp add: label_bytes_def)

lemma newaddr_request_bytes:
  assumes "NUL \<notin> set ifname"
  defines "n \<equiv> length (label_bytes ifname)"
  shows "newaddr_request ifindex ifname ip prefix pid =
     nlmsg_bytes (of_nat (44 + align4 n)) RTM_NEWADDR NL_FLAGS 100 pid
     @ ([2, of_int prefix, 0, 0] @ le_store 4 ifindex)
     @ rta_bytes IFA_LOCAL (le_store 4 ip) @ rta_bytes IFA_ADDRESS (le_store 4 ip)
     @ rta_bytes IFA_LABEL (label_bytes ifname)"
proof -
  have n: "align4 n < 20" using align4_less [of n] length_label_bytes [of ifname] by (simp add: n_def)
  have label: "n \<le> length (if_label ifname)" "take n (if_label ifname) = label_bytes ifname" "if_label_len ifname = n"
    using if_label_take [OF assms(1)] by (simp_all add: n_def if_label_def label_bytes_def)
  show ?thesis
    using n label
    by (simp add: newaddr_request_def nl_state_Nil poke_nl_state rta_put_state poke_nl_len n_def
        del: le_store_numeral of_nat_add flip: append_assoc)
       (simp add: poke_nl_len del: le_store_numeral of_nat_add)
qed

lemma newroute_request_bytes:
  "newroute_request ifindex gw pid =
     nlmsg_bytes 44 RTM_NEWROUTE NL_FLAGS 101 pid @ [2, 0, 0, 0, 254, 3, 0, 1, 0, 0, 0, 0]
     @ rta_bytes RTA_GATEWAY (le_store 4 gw) @ rta_bytes RTA_OIF (le_store 4 ifindex)"
proof -
  have pad: "nl_state (h @ [2, 0, 0, 0, 254, 3, 0, 1]) = nl_state (h @ [2, 0, 0, 0, 254, 3, 0, 1, 0, 0, 0, 0])"
    if "length h = 16" for h
    using nl_state_pad [of "h @ [2, 0, 0, 0, 254, 3, 0, 1]" 4] that by (simp add: numeral_eq_Suc)
  show ?thesis
    by (simp add: newroute_request_def nl_state_Nil poke_nl_state pad rta_put_state
        del: le_store_numeral of_nat_add flip: append_assoc)
       (simp add: poke_nl_len del: le_store_numeral of_nat_add)
qed

section \<open>Answers of the kernel\<close>

text \<open>A message of an answer: type, sequence number and payload. The first message with our
  sequence number that is an error report or the end marker decides.\<close>

definition nl_msg :: "u16 \<times> u32 \<times> byte list \<Rightarrow> byte list" where
  "nl_msg m = (case m of (type, seq, payload) \<Rightarrow>
     nlmsg_bytes (of_nat (16 + length payload)) type 0 seq 0 @ payload)"

definition nl_msg_ok :: "u16 \<times> u32 \<times> byte list \<Rightarrow> bool" where
  "nl_msg_ok m = (case m of (type, seq, payload) \<Rightarrow>
     length payload mod 4 = 0 \<and> length payload \<le> 8192 \<and> (type = NLMSG_ERROR \<longrightarrow> 4 \<le> length payload))"

fun nl_verdict :: "u32 \<Rightarrow> (u16 \<times> u32 \<times> byte list) list \<Rightarrow> nl_result" where
  "nl_verdict seq [] = NlMore"
| "nl_verdict seq ((type, s, payload) # ms) =
     (if s = seq \<and> type = NLMSG_ERROR then (if get32 0 payload = 0 then NlAcked else NlError)
      else if s = seq \<and> type = NLMSG_DONE then NlAcked
      else nl_verdict seq ms)"

lemma get32_at: "p = a @ q \<Longrightarrow> off = length a + i \<Longrightarrow> get32 off p = get32 i q"
  by (simp add: get32_def)

lemma nl_msg_fields:
  fixes payload :: "byte list"
  assumes "buf = pre @ nl_msg (type, seq, payload) @ rest"
  shows "get32 (length pre) buf = of_nat (16 + length payload)"
    "get16 (length pre + 4) buf = type" "get32 (length pre + 8) buf = seq"
    "4 \<le> length payload \<Longrightarrow> get32 (length pre + 16) buf = get32 0 payload"
proof -
  show "get32 (length pre) buf = of_nat (16 + length payload)"
    using assms by (intro get32_header [where a = pre]) (simp_all add: nl_msg_def nlmsg_bytes_def del: of_nat_add)
  show "get16 (length pre + 4) buf = type"
    using assms by (intro get16_at [where a = "pre @ le_store 4 (of_nat (16 + length payload) :: u32)"])
      (simp_all add: nl_msg_def nlmsg_bytes_def del: of_nat_add)
  show "get32 (length pre + 8) buf = seq"
    using assms by (intro get32_header [where a = "pre @ le_store 4 (of_nat (16 + length payload) :: u32) @ le_store 2 type @ le_store 2 0"])
      (simp_all add: nl_msg_def nlmsg_bytes_def del: of_nat_add)
  show "get32 (length pre + 16) buf = get32 0 payload" if "4 \<le> length payload"
    using assms that by (simp add: get32_def nl_msg_def)
qed

lemma and_not_minus: "a AND NOT b = a - (a AND b)" for a b :: u32
proof -
  have "(a AND NOT b) + (a AND b) = (a AND NOT b) OR (a AND b)"
    by (rule disjunctive_add_eq_or, rule bit_word_eqI) (auto simp: bit_simps)
  also have "\<dots> = a" by (rule bit_word_eqI) (auto simp: bit_simps)
  finally show ?thesis by (simp add: eq_diff_eq)
qed

lemma align_word:
  assumes "k mod 4 = 0" "k < 2 ^ 31"
  shows "unat (nlmsg_align (of_nat k)) = k"
proof -
  have u: "unat (of_nat k + 3 :: u32) = k + 3"
    using assms(2) unat_of_nat_eq [of "k + 3", where 'a = 32] by simp
  have "(of_nat k + 3 :: u32) AND 3 = take_bit 2 (of_nat k + 3)"
    by (simp add: take_bit_eq_mask mask_eq_exp_minus_1)
  then have m: "unat ((of_nat k + 3 :: u32) AND 3) = 3"
    using assms(1) by (simp add: unsigned_take_bit_eq take_bit_nat_def u) presburger
  have "(of_nat k + 3 :: u32) AND NOT 3 = (of_nat k + 3) - ((of_nat k + 3) AND 3)"
    by (rule and_not_minus)
  then show ?thesis by (simp only: nlmsg_align_def unat_sub_if' m u) simp
qed

lemma length_nl_msg [simp]: "length (nl_msg (type, s, payload)) = 16 + length payload"
  by (simp add: nl_msg_def)

lemma nl_walk_messages:
  assumes "buf = pre @ concat (map nl_msg ms) @ rest" "list_all nl_msg_ok ms" "length buf \<le> 8192"
    and "n = int (length (concat (map nl_msg ms)))"
  shows "nl_walk buf seq (length pre) n = Some (nl_verdict seq ms)"
  using assms
proof (induction ms arbitrary: pre n)
  case Nil
  then show ?case by (simp add: nl_walk.simps)
next
  case (Cons m ms)
  obtain type s payload where m: "m = (type, s, payload)" by (cases m)
  let ?l = "16 + length payload"
  have buf: "buf = pre @ nl_msg (type, s, payload) @ (concat (map nl_msg ms) @ rest)"
    using Cons.prems by (simp add: m)
  note f = nl_msg_fields [OF buf]
  have ok: "length payload mod 4 = 0" "type = NLMSG_ERROR \<longrightarrow> 4 \<le> length payload"
    using Cons.prems by (simp_all add: m nl_msg_ok_def)
  have lens: "n = int (?l + length (concat (map nl_msg ms)))" "length pre + ?l + length (concat (map nl_msg ms)) \<le> 8192"
    using Cons.prems by (simp_all add: m)
  have un: "unat (of_int n :: u32) = ?l + length (concat (map nl_msg ms))"
    using lens unat_of_nat_eq [of "?l + length (concat (map nl_msg ms))", where 'a = 32] by simp
  have ul: "unat (of_nat ?l :: u32) = ?l" using lens by (intro unat_of_nat_eq) simp
  have al: "unat (nlmsg_align (of_nat ?l)) = ?l"
    using ok lens by (intro align_word) (simp_all add: mod_add_eq [of 16, symmetric] del: of_nat_add)
  have guards: "\<not> of_int n < (16 :: u32)" "\<not> (of_nat ?l :: u32) < 16" "\<not> of_int n < (of_nat ?l :: u32)"
    unfolding word_less_nat_alt un ul by simp_all
  have len_buf: "\<not> length buf < length pre + 16" "type = NLMSG_ERROR \<longrightarrow> \<not> length buf < length pre + 20"
    using buf ok by auto
  have "nl_walk buf seq (length (pre @ nl_msg m)) (n - int ?l) = Some (nl_verdict seq ms)"
    by (rule Cons.IH) (use Cons.prems lens m in auto)
  then have rec: "nl_walk buf seq (length pre + ?l) (n - int ?l) = Some (nl_verdict seq ms)"
    by (simp add: m)
  show ?case
    using guards len_buf ok f rec
    by (subst nl_walk.simps) (auto simp: m al Let_def simp del: of_nat_add)
qed

end
