(* ===== verification/DHCP_Client.thy ===== *)
theory DHCP_Client
  imports DHCP_Netlink
begin

unbundle bit_operations_syntax

text \<open>
  The DHCP client itself: \<open>recv_dhcp_message_any\<close>, \<open>nl_recv_ack\<close>, \<open>apply_ipv4_addr\<close>,
  \<open>apply_default_route\<close>, \<open>write_resolv_conf\<close> and \<open>main\<close> of \<^verbatim>\<open>src/tools/edhcpc/edhcpc.c\<close>.

  The record \<open>net\<close> is the world of the client. The results of the calls whose outcome the program
  cannot determine are given in advance as sequences, with a counter of how many have been used:
  \<open>clock\<close> for \<open>gettimeofday\<close>, \<open>pkt_in\<close>, \<open>udp_in\<close> and \<open>nl_in\<close> for \<open>recv\<close> on the three sockets and
  \<open>tx_ret\<close> for \<open>send\<close> and \<open>sendto\<close>. \<open>call_ok\<close> tells which of the set-up calls succeed. \<open>tx_log\<close>
  records what was handed to \<open>send\<close> and \<open>sendto\<close>, in order, and \<open>resolv_conf\<close> the contents of
  \<^verbatim>\<open>/etc/resolv.conf\<close>. Waiting in \<open>poll\<close> (\<open>wait_for_rx_ms\<close>) and printing change nothing here:
  time passes between two readings of the clock in any case.

  The loops that wait are partial functions in the option monad; \<open>None\<close> means that the program
  does not end.
\<close>

section \<open>The world\<close>

datatype syscall = SockInet | IoctlHwaddr | IoctlIndex | SockUdp | BindUdp | FcntlGetUdp | FcntlSetUdp
  | SockPacket | BindPacket | FcntlGetPacket | FcntlSetPacket | SockNetlink u32 | BindNetlink u32 | OpenResolv

datatype channel = PacketCh | UdpCh | NetlinkCh

record net =
  clock :: "nat \<Rightarrow> u64 \<times> u64"
  clock_reads :: nat
  pkt_in :: "nat \<Rightarrow> rx"
  pkt_reads :: nat
  udp_in :: "nat \<Rightarrow> rx"
  udp_reads :: nat
  nl_in :: "nat \<Rightarrow> rx"
  nl_reads :: nat
  nl_stack :: "byte list"
  call_ok :: "syscall \<Rightarrow> bool"
  tx_ret :: "nat \<Rightarrow> int"
  tx_log :: "(channel \<times> byte list) list"
  hw_addr :: "byte list"
  if_index :: u32
  pid :: u32
  resolv_conf :: "string option"

definition gettimeofday :: "net \<Rightarrow> (u64 \<times> u64) \<times> net" where
  "gettimeofday w = (clock w (clock_reads w), w\<lparr>clock_reads := clock_reads w + 1\<rparr>)"

definition now_ms :: "net \<Rightarrow> u64 \<times> net" where
  "now_ms w = (let ((tv_sec, tv_usec), w) = gettimeofday w in (tv_sec * 1000 + tv_usec div 1000, w))"

definition weak_xid :: "net \<Rightarrow> u32 \<times> net" where
  "weak_xid w = (let ((tv_sec, tv_usec), w) = gettimeofday w
     in (ucast (tv_sec XOR tv_usec XOR ucast (pid w) XOR 0x9e3779b9), w))"

text \<open>\<open>send\<close>/\<open>sendto\<close>: the returned count, and what was handed over.\<close>

definition transmit :: "channel \<Rightarrow> byte list \<Rightarrow> net \<Rightarrow> int \<times> net" where
  "transmit ch bs w = (tx_ret w (length (tx_log w)), w\<lparr>tx_log := tx_log w @ [(ch, bs)]\<rparr>)"

definition recv_pkt :: "net \<Rightarrow> rx \<times> net" where
  "recv_pkt w = (pkt_in w (pkt_reads w), w\<lparr>pkt_reads := pkt_reads w + 1\<rparr>)"

definition recv_udp :: "net \<Rightarrow> rx \<times> net" where
  "recv_udp w = (udp_in w (udp_reads w), w\<lparr>udp_reads := udp_reads w + 1\<rparr>)"

definition recv_nl :: "net \<Rightarrow> rx \<times> net" where
  "recv_nl w = (nl_in w (nl_reads w), w\<lparr>nl_reads := nl_reads w + 1\<rparr>)"

section \<open>Sending and receiving\<close>

definition send_dhcp_packet :: "byte list \<Rightarrow> byte list \<Rightarrow> net \<Rightarrow> int \<times> net" where
  "send_dhcp_packet mac dhcp w =
     (if dhcp = [] then (- 1, w)
      else
        let (xid, w) = weak_xid w;
            frame = sent_frame xid mac dhcp;
            (n, w) = transmit PacketCh frame w
        in (if n < 0 then - 1 else if n = int (length frame) then 0 else - 1, w))"

definition send_dhcp_udp_broadcast :: "byte list \<Rightarrow> net \<Rightarrow> int \<times> net" where
  "send_dhcp_udp_broadcast dhcp w =
     (let (n, w) = transmit UdpCh dhcp w
      in (if n < 0 then - 1 else if n = int (length dhcp) then 0 else - 1, w))"

text \<open>Both ways of sending; the results only select a message.\<close>

definition send_both :: "byte list \<Rightarrow> byte list \<Rightarrow> net \<Rightarrow> net" where
  "send_both mac dhcp w =
     (let (sent_packet, w) = send_dhcp_packet mac dhcp w;
          (sent_udp, w) = send_dhcp_udp_broadcast dhcp w
      in w)"

partial_function (option) recv_dhcp_message_any :: "u32 \<Rightarrow> u64 \<Rightarrow> net \<Rightarrow> (rx_result \<times> net) option" where
  "recv_dhcp_message_any xid_be deadline w =
     (let (t, w) = now_ms w in
      if deadline \<le> t then Some (Failed, w)
      else
        let (p, w) = recv_pkt w; packet_result = try_recv_dhcp_packet_once p xid_be in
        if packet_result \<noteq> Nothing then Some (packet_result, w)
        else
          let (u, w) = recv_udp w; udp_result = try_recv_dhcp_udp_once u xid_be in
          if udp_result \<noteq> Nothing then Some (udp_result, w)
          else recv_dhcp_message_any xid_be deadline w)"

text \<open>The loops of \<open>main\<close> that wait for a message of a certain type: messages of other types are
  ignored, the deadline and a failed receive end the loop.\<close>

partial_function (option) await_message ::
    "(int \<Rightarrow> bool) \<Rightarrow> u32 \<Rightarrow> u64 \<Rightarrow> net \<Rightarrow> ((int \<times> dhcp_offer) option \<times> net) option" where
  "await_message wanted xid_be deadline w =
     (let (t, w) = now_ms w in
      if \<not> t < deadline then Some (None, w)
      else
        Option.bind (recv_dhcp_message_any xid_be deadline w) (\<lambda>(r, w).
          case r of
            Received mt m \<Rightarrow> if wanted mt then Some (Some (mt, m), w) else await_message wanted xid_be deadline w
          | _ \<Rightarrow> Some (None, w)))"

definition await_offer :: "u32 \<Rightarrow> u64 \<Rightarrow> net \<Rightarrow> ((int \<times> dhcp_offer) option \<times> net) option" where
  "await_offer = await_message (\<lambda>mt. mt = DHCPOFFER)"

definition await_ack :: "u32 \<Rightarrow> u64 \<Rightarrow> net \<Rightarrow> ((int \<times> dhcp_offer) option \<times> net) option" where
  "await_ack = await_message (\<lambda>mt. mt = DHCPACK \<or> mt = DHCPNAK)"

declare recv_dhcp_message_any.simps [code] await_message.simps [code]

section \<open>Applying the configuration\<close>

partial_function (option) nl_recv_ack :: "u32 \<Rightarrow> byte list \<Rightarrow> net \<Rightarrow> (nl_result \<times> net) option" where
  "nl_recv_ack seq buf w =
     (let (r, w) = recv_nl w in
      case r of
        RxData d \<Rightarrow>
          let d = take 8192 d; buf = poke buf 0 d in
          Option.bind (nl_walk buf seq 0 (int (length d))) (\<lambda>v.
            if v = NlMore then nl_recv_ack seq buf w else Some (v, w))
      | _ \<Rightarrow> Some (NlError, w))"

declare nl_recv_ack.simps [code]

text \<open>Open, bind, send and wait for the acknowledgement: the frame of \<open>apply_ipv4_addr\<close> and
  \<open>apply_default_route\<close>. \<open>NlAcked\<close> is the return value 0, \<open>NlError\<close> is -1.\<close>

definition nl_request :: "u32 \<Rightarrow> byte list \<Rightarrow> net \<Rightarrow> (nl_result \<times> net) option" where
  "nl_request seq req w =
     (if \<not> call_ok w (SockNetlink seq) then Some (NlError, w)
      else if \<not> call_ok w (BindNetlink seq) then Some (NlError, w)
      else
        let (n, w) = transmit NetlinkCh req w
        in if n < 0 then Some (NlError, w) else nl_recv_ack seq (nl_stack w) w)"

definition apply_ipv4_addr :: "u32 \<Rightarrow> string \<Rightarrow> u32 \<Rightarrow> int \<Rightarrow> net \<Rightarrow> (nl_result \<times> net) option" where
  "apply_ipv4_addr ifindex ifname ip_be prefix_len w =
     nl_request 100 (newaddr_request ifindex ifname ip_be prefix_len (pid w)) w"

definition apply_default_route :: "u32 \<Rightarrow> u32 \<Rightarrow> net \<Rightarrow> (nl_result \<times> net) option" where
  "apply_default_route ifindex gw_be w =
     nl_request 101 (newroute_request ifindex gw_be (pid w)) w"

definition inet_ntoa :: "u32 \<Rightarrow> string" where
  "inet_ntoa be = (case le_store 4 be of [a, b, c, d] \<Rightarrow>
     show_nat (unat a) @ ''.'' @ show_nat (unat b) @ ''.'' @ show_nat (unat c) @ ''.'' @ show_nat (unat d))"

definition resolv_text :: "u32 list \<Rightarrow> int \<Rightarrow> string" where
  "resolv_text servers n = concat (map (\<lambda>a. ''nameserver '' @ inet_ntoa a @ [NL]) (take (nat n) servers))"

definition write_resolv_conf :: "u32 list \<Rightarrow> int \<Rightarrow> net \<Rightarrow> net" where
  "write_resolv_conf servers n w =
     (if call_ok w OpenResolv then w\<lparr>resolv_conf := Some (resolv_text servers n)\<rparr> else w)"

section \<open>Main\<close>

text \<open>\<open>atoi\<close> on a 32-bit \<open>int\<close>.\<close>

definition atoi :: "string \<Rightarrow> int" where
  "atoi s = sint (of_int (strtol s) :: u32)"

text \<open>The argument loop; \<open>None\<close> is \<open>usage\<close>, which exits with 2.\<close>

fun edhcpc_args :: "string list \<Rightarrow> string option \<Rightarrow> int \<Rightarrow> (string option \<times> int) option" where
  "edhcpc_args [] ifname timeout_sec = Some (ifname, timeout_sec)"
| "edhcpc_args [a] ifname timeout_sec = None"
| "edhcpc_args (a # b # rest) ifname timeout_sec =
     (if a = ''-i'' \<or> a = ''--iface'' then edhcpc_args rest (Some b) timeout_sec
      else if a = ''--timeout''
      then edhcpc_args rest ifname (if atoi b \<le> 0 then 10 else atoi b)
      else None)"

datatype outcome = Exit int | Undefined

definition udp_setup_ok :: "net \<Rightarrow> bool" where
  "udp_setup_ok w \<longleftrightarrow> call_ok w SockInet \<and> call_ok w IoctlHwaddr \<and> call_ok w IoctlIndex
     \<and> call_ok w SockUdp \<and> call_ok w BindUdp \<and> call_ok w FcntlGetUdp \<and> call_ok w FcntlSetUdp"

definition packet_setup_ok :: "net \<Rightarrow> bool" where
  "packet_setup_ok w \<longleftrightarrow> call_ok w SockPacket \<and> call_ok w BindPacket \<and> call_ok w FcntlGetPacket
     \<and> call_ok w FcntlSetPacket"

text \<open>What is configured from the ACK, with the OFFER as fallback: address, prefix length, gateway
  and name servers with their count.\<close>

definition lease_ip :: "dhcp_offer \<Rightarrow> dhcp_offer \<Rightarrow> u32" where
  "lease_ip ack offer = (if yiaddr ack \<noteq> 0 then yiaddr ack else yiaddr offer)"

definition lease_prefix :: "dhcp_offer \<Rightarrow> dhcp_offer \<Rightarrow> int" where
  "lease_prefix ack offer =
     (let mask_be = (if subnet_mask ack \<noteq> 0 then subnet_mask ack else subnet_mask offer);
          pfx = prefix_len_from_netmask mask_be
      in if mask_be \<noteq> 0 then (if 0 \<le> pfx then pfx else 24) else 24)"

definition lease_gateway :: "dhcp_offer \<Rightarrow> dhcp_offer \<Rightarrow> u32" where
  "lease_gateway ack offer = (if router ack \<noteq> 0 then router ack else router offer)"

definition lease_dns :: "dhcp_offer \<Rightarrow> dhcp_offer \<Rightarrow> u32 list \<times> int" where
  "lease_dns ack offer =
     (let dns0 = (if dns_count ack > 0 then dns ack ! 0 else if dns_count offer > 0 then dns offer ! 0 else 0);
          dns1 = (if dns_count ack > 1 then dns ack ! 1 else if dns_count offer > 1 then dns offer ! 1 else 0)
      in ([dns0, dns1], (if dns0 \<noteq> 0 then 1 else 0) + (if dns1 \<noteq> 0 then 1 else 0)))"

definition finish_lease :: "string \<Rightarrow> dhcp_offer \<Rightarrow> dhcp_offer \<Rightarrow> net \<Rightarrow> (outcome \<times> net) option" where
  "finish_lease ifname ack offer w =
     (let ip_be = lease_ip ack offer; gw_be = lease_gateway ack offer; (servers, n) = lease_dns ack offer;
          write_dns = (\<lambda>w. if n \<noteq> 0 then write_resolv_conf servers n w else w)
      in if ip_be = 0 then Some (Exit 1, w)
         else
           Option.bind (apply_ipv4_addr (if_index w) ifname ip_be (lease_prefix ack offer) w) (\<lambda>(r, w).
             if r = NlOutOfBounds then Some (Undefined, w)
             else if r \<noteq> NlAcked then Some (Exit 1, w)
             else if gw_be \<noteq> 0
             then Option.bind (apply_default_route (if_index w) gw_be w) (\<lambda>(r, w).
               if r = NlOutOfBounds then Some (Undefined, w)
               else if r \<noteq> NlAcked then Some (Exit 1, w)
               else Some (Exit 0, write_dns w))
             else Some (Exit 0, write_dns w)))"

text \<open>From the OFFER on: the request, the wait for its answer and the configuration.\<close>

definition request_lease :: "string \<Rightarrow> byte list \<Rightarrow> u32 \<Rightarrow> dhcp_offer \<Rightarrow> net \<Rightarrow> (outcome \<times> net) option" where
  "request_lease ifname mac xid_be offer w =
     (if server_id offer = 0 then Some (Exit 1, w)
      else
        let dhcp = build_dhcp_request 600 mac xid_be (yiaddr offer) (server_id offer) in
        if dhcp = [] then Some (Exit 1, w)
        else
          let w = send_both mac dhcp w; (now, w) = now_ms w in
          Option.bind (await_ack xid_be (now + 15000) w) (\<lambda>(r, w).
            case r of
              None \<Rightarrow> Some (Exit 1, w)
            | Some (mt2, ack) \<Rightarrow>
                if mt2 = DHCPNAK then Some (Exit 1, w)
                else if mt2 \<noteq> DHCPACK then Some (Exit 1, w)
                else finish_lease ifname ack offer w))"

definition edhcpc_main :: "string list \<Rightarrow> net \<Rightarrow> (outcome \<times> net) option" where
  "edhcpc_main args w =
     (case edhcpc_args args None 10 of
        Some (Some ifname, timeout_sec) \<Rightarrow>
          if \<not> udp_setup_ok w then Some (Exit 1, w)
          else
            let mac = take 6 (hw_addr w); (xid, w) = weak_xid w; xid_be = htonl xid in
            if \<not> packet_setup_ok w then Some (Exit 1, w)
            else
              let dhcp = build_dhcp_discover 600 mac xid_be in
              if dhcp = [] then Some (Exit 1, w)
              else
                let w = send_both mac dhcp w; (now, w) = now_ms w in
                Option.bind (await_offer xid_be (now + 120000) w) (\<lambda>(r, w).
                  case r of None \<Rightarrow> Some (Exit 1, w)
                  | Some (mt, offer) \<Rightarrow> request_lease ifname mac xid_be offer w)
      | _ \<Rightarrow> Some (Exit 2, w))"

end
