(* ===== verification/DHCP_Correct.thy ===== *)
theory DHCP_Correct
  imports DHCP_Client
begin

unbundle bit_operations_syntax

text \<open>
  The client's loops and its course as a whole. \<open>listens\<close> is what the waiting loops may change,
  \<open>heard\<close> that a message was read from a socket in between. The partial-correctness facts are by
  the induction rules of the partial functions; that the loops return follows from a reading of
  the clock past the deadline, because every reading belongs to exactly one loop test.
\<close>

section \<open>Waiting\<close>

definition ms_at :: "net \<Rightarrow> nat \<Rightarrow> u64" where
  "ms_at w k = fst (clock w k) * 1000 + snd (clock w k) div 1000"

lemma now_ms_eq: "now_ms w = (ms_at w (clock_reads w), w\<lparr>clock_reads := clock_reads w + 1\<rparr>)"
  by (simp add: now_ms_def gettimeofday_def ms_at_def split: prod.splits)

lemma ms_at_update [simp]:
  "ms_at (w\<lparr>clock_reads := c\<rparr>) k = ms_at w k" "ms_at (w\<lparr>pkt_reads := p\<rparr>) k = ms_at w k"
  "ms_at (w\<lparr>udp_reads := u\<rparr>) k = ms_at w k" "ms_at (w\<lparr>tx_log := l\<rparr>) k = ms_at w k"
  by (simp_all add: ms_at_def)

definition idle :: "net \<Rightarrow> net" where
  "idle w = w\<lparr>clock_reads := 0, pkt_reads := 0, udp_reads := 0\<rparr>"

definition listens :: "net \<Rightarrow> net \<Rightarrow> bool" where
  "listens w w' \<longleftrightarrow> idle w' = idle w
     \<and> clock_reads w \<le> clock_reads w' \<and> pkt_reads w \<le> pkt_reads w' \<and> udp_reads w \<le> udp_reads w'"

definition heard :: "u32 \<Rightarrow> int \<Rightarrow> dhcp_offer \<Rightarrow> net \<Rightarrow> net \<Rightarrow> bool" where
  "heard xid mt off w w' \<longleftrightarrow>
     (\<exists>i. pkt_reads w \<le> i \<and> i < pkt_reads w' \<and> try_recv_dhcp_packet_once (pkt_in w i) xid = Received mt off) \<or>
     (\<exists>i. udp_reads w \<le> i \<and> i < udp_reads w' \<and> try_recv_dhcp_udp_once (udp_in w i) xid = Received mt off)"

lemma listens_refl [simp]: "listens w w"
  by (simp add: listens_def)

lemma listens_trans: "listens w w1 \<Longrightarrow> listens w1 w2 \<Longrightarrow> listens w w2"
  by (auto simp: listens_def)

lemma listens_reads:
  "listens w (w\<lparr>clock_reads := Suc (clock_reads w)\<rparr>)"
  "listens w (w\<lparr>clock_reads := Suc (clock_reads w), pkt_reads := Suc (pkt_reads w)\<rparr>)"
  "listens w (w\<lparr>clock_reads := Suc (clock_reads w), pkt_reads := Suc (pkt_reads w), udp_reads := Suc (udp_reads w)\<rparr>)"
  by (simp_all add: listens_def idle_def)

lemma listens_fields:
  assumes "listens w w'"
  shows "clock w' = clock w" "pkt_in w' = pkt_in w" "udp_in w' = udp_in w" "nl_in w' = nl_in w"
    "nl_reads w' = nl_reads w" "nl_stack w' = nl_stack w" "call_ok w' = call_ok w" "tx_ret w' = tx_ret w"
    "tx_log w' = tx_log w" "hw_addr w' = hw_addr w" "if_index w' = if_index w" "pid w' = pid w"
    "resolv_conf w' = resolv_conf w" "clock_reads w \<le> clock_reads w'" "pkt_reads w \<le> pkt_reads w'"
    "udp_reads w \<le> udp_reads w'" "ms_at w' = ms_at w"
proof -
  have e: "idle w' = idle w" and le: "clock_reads w \<le> clock_reads w'" "pkt_reads w \<le> pkt_reads w'" "udp_reads w \<le> udp_reads w'"
    using assms by (simp_all add: listens_def)
  note f = arg_cong [OF e]
  show c: "clock w' = clock w" using f [of clock] by (simp add: idle_def)
  show "pkt_in w' = pkt_in w" using f [of pkt_in] by (simp add: idle_def)
  show "udp_in w' = udp_in w" using f [of udp_in] by (simp add: idle_def)
  show "nl_in w' = nl_in w" using f [of nl_in] by (simp add: idle_def)
  show "nl_reads w' = nl_reads w" using f [of nl_reads] by (simp add: idle_def)
  show "nl_stack w' = nl_stack w" using f [of nl_stack] by (simp add: idle_def)
  show "call_ok w' = call_ok w" using f [of call_ok] by (simp add: idle_def)
  show "tx_ret w' = tx_ret w" using f [of tx_ret] by (simp add: idle_def)
  show "tx_log w' = tx_log w" using f [of tx_log] by (simp add: idle_def)
  show "hw_addr w' = hw_addr w" using f [of hw_addr] by (simp add: idle_def)
  show "if_index w' = if_index w" using f [of if_index] by (simp add: idle_def)
  show "pid w' = pid w" using f [of pid] by (simp add: idle_def)
  show "resolv_conf w' = resolv_conf w" using f [of resolv_conf] by (simp add: idle_def)
  show "ms_at w' = ms_at w" by (simp add: fun_eq_iff ms_at_def c)
qed (use assms in \<open>simp_all add: listens_def\<close>)

lemma heard_mono:
  assumes "heard xid mt off w1 w2" "listens w w1" "listens w2 w3"
  shows "heard xid mt off w w3"
  using assms(1) unfolding heard_def listens_fields(2,3) [OF assms(2)]
  using listens_fields(15,16) [OF assms(2)] listens_fields(15,16) [OF assms(3)]
  by (meson le_trans less_le_trans)

lemma recv_any_heard:
  "recv_dhcp_message_any xid deadline w = Some rw \<Longrightarrow>
     listens w (snd rw) \<and> (\<forall>mt off. fst rw = Received mt off \<longrightarrow> heard xid mt off w (snd rw))"
proof (induction xid deadline w rw rule: recv_dhcp_message_any.raw_induct [rotated, consumes 1, case_names step])
  case (step rec xid deadline w rw)
  let ?w1 = "w\<lparr>clock_reads := Suc (clock_reads w)\<rparr>"
  let ?w2 = "?w1\<lparr>pkt_reads := Suc (pkt_reads w)\<rparr>"
  let ?w3 = "?w2\<lparr>udp_reads := Suc (udp_reads w)\<rparr>"
  let ?p = "try_recv_dhcp_packet_once (pkt_in w (pkt_reads w)) xid"
  let ?u = "try_recv_dhcp_udp_once (udp_in w (udp_reads w)) xid"
  note l = listens_reads [of w]
  have body: "(if deadline \<le> ms_at w (clock_reads w) then Some (Failed, ?w1)
      else if ?p \<noteq> Nothing then Some (?p, ?w2) else if ?u \<noteq> Nothing then Some (?u, ?w3)
      else rec xid deadline ?w3) = Some rw"
    using step(2) by (simp add: now_ms_eq recv_pkt_def recv_udp_def Let_def cong: if_cong)
  consider (late) "rw = (Failed, ?w1)" | (packet) "rw = (?p, ?w2)" | (udp) "rw = (?u, ?w3)"
    | (again) "rec xid deadline ?w3 = Some rw"
    using body by (metis option.inject)
  then show ?case
  proof cases
    case late
    with l show ?thesis by simp
  next
    case packet
    with l show ?thesis by (auto simp: heard_def)
  next
    case udp
    with l show ?thesis by (auto simp: heard_def)
  next
    case again
    from step(1) [OF this] l show ?thesis by (auto intro: listens_trans heard_mono)
  qed
qed

text \<open>One round of the loop, and its return before the reading \<open>k\<close> of the clock has been passed.\<close>

lemma recv_any_step:
  "recv_dhcp_message_any xid deadline w =
     (let p = try_recv_dhcp_packet_once (pkt_in w (pkt_reads w)) xid;
          u = try_recv_dhcp_udp_once (udp_in w (udp_reads w)) xid;
          w1 = w\<lparr>clock_reads := Suc (clock_reads w)\<rparr>;
          w2 = w1\<lparr>pkt_reads := Suc (pkt_reads w)\<rparr>; w3 = w2\<lparr>udp_reads := Suc (udp_reads w)\<rparr>
      in if deadline \<le> ms_at w (clock_reads w) then Some (Failed, w1)
         else if p \<noteq> Nothing then Some (p, w2)
         else if u \<noteq> Nothing then Some (u, w3)
         else recv_dhcp_message_any xid deadline w3)"
  by (subst recv_dhcp_message_any.simps)
     (simp add: now_ms_eq recv_pkt_def recv_udp_def Let_def cong: if_cong)

lemma recv_any_returns:
  assumes "clock_reads w \<le> k" "deadline \<le> ms_at w k"
  shows "\<exists>r w'. recv_dhcp_message_any xid deadline w = Some (r, w') \<and> (r = Failed \<or> clock_reads w' \<le> k)"
  using assms
proof (induction "k - clock_reads w" arbitrary: w)
  case 0
  then have "clock_reads w = k" by simp
  with 0 show ?case by (subst recv_any_step) (simp add: Let_def)
next
  case (Suc d)
  define w3 where "w3 = w\<lparr>clock_reads := Suc (clock_reads w), pkt_reads := Suc (pkt_reads w),
    udp_reads := Suc (udp_reads w)\<rparr>"
  have "\<exists>r w'. recv_dhcp_message_any xid deadline w3 = Some (r, w') \<and> (r = Failed \<or> clock_reads w' \<le> k)"
    by (rule Suc.hyps(1)) (use Suc in \<open>simp_all add: w3_def\<close>)
  then show ?case
    using Suc.hyps(2) by (subst recv_any_step) (auto simp: Let_def w3_def)
qed

lemma recv_any_not_Nothing:
  assumes "recv_dhcp_message_any xid deadline w = Some rw"
  shows "fst rw \<noteq> Nothing"
  using assms
proof (induction xid deadline w rw rule: recv_dhcp_message_any.raw_induct [rotated, consumes 1, case_names step])
  case (step rec xid deadline w rw)
  then show ?case
    by (auto simp: Let_def split: prod.splits if_splits)
qed

lemma await_step:
  "await_message wanted xid deadline w =
     (let w1 = w\<lparr>clock_reads := Suc (clock_reads w)\<rparr> in
      if ms_at w (clock_reads w) < deadline
      then (case recv_dhcp_message_any xid deadline w1 of
              None \<Rightarrow> None
            | Some (Received mt m, w2) \<Rightarrow>
                if wanted mt then Some (Some (mt, m), w2) else await_message wanted xid deadline w2
            | Some (_, w2) \<Rightarrow> Some (None, w2))
      else Some (None, w1))"
  by (subst await_message.simps) (simp add: now_ms_eq Let_def Option.bind_def split: option.splits rx_result.splits)

lemma await_heard:
  assumes "await_message wanted xid deadline w = Some rw"
  shows "listens w (snd rw) \<and> (\<forall>mt m. fst rw = Some (mt, m) \<longrightarrow> wanted mt \<and> heard xid mt m w (snd rw))"
  using assms
proof (induction wanted xid deadline w rw rule: await_message.raw_induct [rotated, consumes 1, case_names step])
  case (step rec wanted xid deadline w rw)
  let ?w1 = "w\<lparr>clock_reads := Suc (clock_reads w)\<rparr>"
  note l1 = listens_reads(1) [of w]
  show ?case
  proof (cases "ms_at w (clock_reads w) < deadline")
    case False
    with step(2) have "rw = (None, ?w1)" by (simp add: now_ms_eq)
    with l1 show ?thesis by simp
  next
    case True
    with step(2) obtain r2 w2 where q: "recv_dhcp_message_any xid deadline ?w1 = Some (r2, w2)"
      and body: "(case r2 of Received mt m \<Rightarrow>
          if wanted mt then Some (Some (mt, m), w2) else rec wanted xid deadline w2
        | _ \<Rightarrow> Some (None, w2)) = Some rw"
      by (cases "recv_dhcp_message_any xid deadline ?w1") (auto simp: now_ms_eq)
    note h = recv_any_heard [OF q, unfolded fst_conv snd_conv]
    from h l1 have l2: "listens w w2" by (blast intro: listens_trans)
    show ?thesis
    proof (cases r2)
      case (Received mt m)
      with h l1 have got: "heard xid mt m w w2" by (blast intro: heard_mono listens_refl)
      show ?thesis
      proof (cases "wanted mt")
        case True
        with body Received got l2 show ?thesis by auto
      next
        case False
        with body Received have "rec wanted xid deadline w2 = Some rw" by simp
        from step(1) [OF this] l2 show ?thesis
          by (blast intro: listens_trans heard_mono listens_refl)
      qed
    qed (use body l2 in auto)
  qed
qed

lemma await_returns:
  assumes "clock_reads w \<le> k" "deadline \<le> ms_at w k"
  shows "\<exists>r w'. await_message wanted xid deadline w = Some (r, w')"
  using assms
proof (induction "Suc k - clock_reads w" arbitrary: w rule: less_induct)
  case less
  let ?w1 = "w\<lparr>clock_reads := Suc (clock_reads w)\<rparr>"
  show ?case
  proof (cases "ms_at w (clock_reads w) < deadline")
    case False
    then show ?thesis by (subst await_step) (simp add: Let_def)
  next
    case True
    with less.prems have "clock_reads w \<noteq> k" by auto
    with less.prems have k: "clock_reads ?w1 \<le> k" by simp
    with recv_any_returns [OF this] less.prems obtain r w2 where
      q: "recv_dhcp_message_any xid deadline ?w1 = Some (r, w2)" "r = Failed \<or> clock_reads w2 \<le> k"
      by (metis ms_at_update(1))
    have l: "listens ?w1 w2" using recv_any_heard [OF q(1)] by simp
    show ?thesis
    proof (cases r)
      case (Received mt m)
      have "\<exists>r w'. await_message wanted xid deadline w2 = Some (r, w')"
        by (rule less.hyps)
           (use q Received less.prems listens_fields(14,17) [OF l] in \<open>auto simp: ms_at_def\<close>)
      with True q Received show ?thesis by (subst await_step) (simp add: Let_def)
    qed (use True q in \<open>subst await_step, simp add: Let_def\<close>)+
  qed
qed

section \<open>Netlink requests\<close>

lemma nl_recv_ack_world:
  assumes "nl_recv_ack seq buf w = Some rw"
  shows "\<exists>k. snd rw = w\<lparr>nl_reads := k\<rparr>"
  using assms
proof (induction seq buf w rw rule: nl_recv_ack.raw_induct [rotated, consumes 1, case_names step])
  case (step rec seq buf w rw)
  let ?w1 = "w\<lparr>nl_reads := Suc (nl_reads w)\<rparr>"
  show ?case
  proof (cases "nl_in w (nl_reads w)")
    case (RxData d)
    let ?buf = "poke buf 0 (take 8192 d)"
    from step(2) RxData obtain v where
      "(if v = NlMore then rec seq ?buf ?w1 else Some (v, ?w1)) = Some rw"
      by (auto simp: recv_nl_def Let_def bind_eq_Some_conv)
    then have "rec seq ?buf ?w1 = Some rw \<or> rw = (v, ?w1)"
      by (cases "v = NlMore") simp_all
    then show ?thesis
    proof
      assume "rec seq ?buf ?w1 = Some rw"
      from step(1) [OF this] obtain k where "snd rw = ?w1\<lparr>nl_reads := k\<rparr>" ..
      then have "snd rw = w\<lparr>nl_reads := k\<rparr>" by simp
      then show ?thesis ..
    next
      assume "rw = (v, ?w1)"
      then have "snd rw = ?w1" by simp
      then show ?thesis ..
    qed
  next
    case RxAgain
    with step(2) have "snd rw = ?w1" by (simp add: recv_nl_def) (metis snd_conv)
    then show ?thesis ..
  next
    case RxError
    with step(2) have "snd rw = ?w1" by (simp add: recv_nl_def) (metis snd_conv)
    then show ?thesis ..
  qed
qed

lemma nl_recv_ack_reads:
  assumes "nl_in w (nl_reads w) = RxData (concat (map nl_msg ms))" "list_all nl_msg_ok ms"
    and "length (concat (map nl_msg ms)) \<le> 8192" "length buf = 8192" "nl_verdict seq ms \<noteq> NlMore"
  shows "nl_recv_ack seq buf w = Some (nl_verdict seq ms, w\<lparr>nl_reads := Suc (nl_reads w)\<rparr>)"
proof -
  let ?d = "concat (map nl_msg ms)"
  have "nl_walk (poke buf 0 ?d) seq (length ([] :: byte list)) (int (length ?d)) = Some (nl_verdict seq ms)"
    by (rule nl_walk_messages [where rest = "drop (length ?d) buf"]) (use assms in \<open>simp_all add: poke_def\<close>)
  then show ?thesis
    using assms by (subst nl_recv_ack.simps) (simp add: recv_nl_def Let_def)
qed

text \<open>A request leaves at most itself in the log, and exactly itself if it was acknowledged.\<close>

lemma nl_request_world:
  assumes "nl_request seq req w = Some (r, w')"
  shows "\<exists>k l. w' = w\<lparr>tx_log := tx_log w @ l, nl_reads := k\<rparr> \<and> (l = [] \<or> l = [(NetlinkCh, req)])
     \<and> (r = NlAcked \<longrightarrow> l = [(NetlinkCh, req)])"
proof (cases "call_ok w (SockNetlink seq) \<and> call_ok w (BindNetlink seq)")
  case False
  with assms have "w' = w\<lparr>tx_log := tx_log w @ [], nl_reads := nl_reads w\<rparr>" "r = NlError"
    by (simp_all add: nl_request_def split: if_splits)
  then show ?thesis by blast
next
  case True
  let ?w1 = "w\<lparr>tx_log := tx_log w @ [(NetlinkCh, req)]\<rparr>"
  have "(if tx_ret w (length (tx_log w)) < 0 then Some (NlError, ?w1)
      else nl_recv_ack seq (nl_stack w) ?w1) = Some (r, w')"
    using assms True by (simp add: nl_request_def transmit_def cong: if_cong)
  then have "r = NlError \<and> w' = ?w1 \<or> nl_recv_ack seq (nl_stack w) ?w1 = Some (r, w')"
    by (cases "tx_ret w (length (tx_log w)) < 0") simp_all
  then show ?thesis
  proof (elim disjE conjE)
    assume "r = NlError" "w' = ?w1"
    then have "w' = w\<lparr>tx_log := tx_log w @ [(NetlinkCh, req)], nl_reads := nl_reads w\<rparr>" by simp
    then show ?thesis by blast
  next
    assume "nl_recv_ack seq (nl_stack w) ?w1 = Some (r, w')"
    from nl_recv_ack_world [OF this] obtain k where "w' = ?w1\<lparr>nl_reads := k\<rparr>" unfolding snd_conv ..
    then show ?thesis by blast
  qed
qed

lemma nl_request_returns:
  assumes "nl_in w (nl_reads w) = RxData (concat (map nl_msg ms))" "list_all nl_msg_ok ms"
    and "length (concat (map nl_msg ms)) \<le> 8192" "length (nl_stack w) = 8192" "nl_verdict seq ms \<in> {NlAcked, NlError}"
  shows "\<exists>r w'. nl_request seq req w = Some (r, w') \<and> r \<in> {NlAcked, NlError} \<and>
     (r = NlAcked \<longrightarrow> nl_reads w' = Suc (nl_reads w))"
proof -
  let ?w1 = "w\<lparr>tx_log := tx_log w @ [(NetlinkCh, req)]\<rparr>"
  have "nl_recv_ack seq (nl_stack w) ?w1 = Some (nl_verdict seq ms, ?w1\<lparr>nl_reads := Suc (nl_reads ?w1)\<rparr>)"
    by (rule nl_recv_ack_reads) (use assms in auto)
  with assms(5) show ?thesis
    by (auto simp: nl_request_def transmit_def)
qed

section \<open>The course of the client\<close>

text \<open>\<open>runs l w w'\<close>: besides listening, the client handed \<open>l\<close> to \<open>send\<close> and \<open>sendto\<close>.\<close>

definition runs :: "(channel \<times> byte list) list \<Rightarrow> net \<Rightarrow> net \<Rightarrow> bool" where
  "runs l w w' \<longleftrightarrow> listens (w\<lparr>tx_log := tx_log w @ l\<rparr>) w'"

lemma runs_listens: "runs l w w1 \<Longrightarrow> listens w1 w2 \<Longrightarrow> runs l w w2"
  unfolding runs_def by (rule listens_trans)

lemma runs_fields:
  assumes "runs l w w'"
  shows "clock w' = clock w" "nl_in w' = nl_in w"
    "nl_reads w' = nl_reads w" "nl_stack w' = nl_stack w" "call_ok w' = call_ok w"
    "tx_log w' = tx_log w @ l" "hw_addr w' = hw_addr w" "if_index w' = if_index w" "pid w' = pid w"
    "resolv_conf w' = resolv_conf w" "clock_reads w \<le> clock_reads w'"
  using listens_fields [OF assms [unfolded runs_def]] by simp_all

lemma heard_from_log: "heard xid mt off (w\<lparr>tx_log := l\<rparr>) w' = heard xid mt off w w'"
  by (simp add: heard_def)

lemma heard_runs:
  assumes "runs l w w1" "heard xid mt off w1 w2"
  shows "heard xid mt off w w2"
  using heard_mono [OF assms(2) assms(1) [unfolded runs_def] listens_refl]
  by (simp add: heard_from_log)

lemma weak_xid_world: "snd (weak_xid w) = w\<lparr>clock_reads := Suc (clock_reads w)\<rparr>"
  by (simp add: weak_xid_def gettimeofday_def split: prod.splits)

lemma send_both_runs:
  assumes "dhcp \<noteq> []"
  shows "\<exists>id. runs [(PacketCh, sent_frame id mac dhcp), (UdpCh, dhcp)] w (send_both mac dhcp w)"
proof -
  obtain id where x: "weak_xid w = (id, w\<lparr>clock_reads := Suc (clock_reads w)\<rparr>)"
    using weak_xid_world [of w] by (metis prod.collapse)
  let ?f = "sent_frame id mac dhcp"
  have "send_both mac dhcp w = w\<lparr>clock_reads := Suc (clock_reads w),
      tx_log := tx_log w @ [(PacketCh, ?f), (UdpCh, dhcp)]\<rparr>"
    using assms by (simp add: send_both_def send_dhcp_packet_def send_dhcp_udp_broadcast_def transmit_def x Let_def)
  then have "runs [(PacketCh, ?f), (UdpCh, dhcp)] w (send_both mac dhcp w)"
    by (simp add: runs_def listens_def idle_def)
  then show ?thesis ..
qed

lemma builds_nonempty:
  assumes "length mac = 6"
  shows "build_dhcp_discover 600 mac xid \<noteq> []" "build_dhcp_request 600 mac xid ip sid \<noteq> []"
  using assms by (simp_all add: build_discover_bytes build_request_bytes msg_bytes_def)

text \<open>What the configuration of a lease leaves behind.\<close>

definition lease_requests :: "string \<Rightarrow> dhcp_offer \<Rightarrow> dhcp_offer \<Rightarrow> net \<Rightarrow> (channel \<times> byte list) list" where
  "lease_requests ifname ack offer w =
     (NetlinkCh, newaddr_request (if_index w) ifname (lease_ip ack offer) (lease_prefix ack offer) (pid w))
     # (if lease_gateway ack offer \<noteq> 0
        then [(NetlinkCh, newroute_request (if_index w) (lease_gateway ack offer) (pid w))] else [])"

definition lease_resolv :: "dhcp_offer \<Rightarrow> dhcp_offer \<Rightarrow> net \<Rightarrow> string option" where
  "lease_resolv ack offer w =
     (case lease_dns ack offer of (servers, n) \<Rightarrow>
        if n \<noteq> 0 \<and> call_ok w OpenResolv then Some (resolv_text servers n) else resolv_conf w)"

lemma finish_lease_exit0:
  assumes "finish_lease ifname ack offer w = Some (Exit 0, w')"
  shows "lease_ip ack offer \<noteq> 0 \<and> tx_log w' = tx_log w @ lease_requests ifname ack offer w
     \<and> resolv_conf w' = lease_resolv ack offer w"
proof -
  let ?ip = "lease_ip ack offer" and ?gw = "lease_gateway ack offer"
  obtain servers n where d: "lease_dns ack offer = (servers, n)" by (cases "lease_dns ack offer")
  let ?dns = "\<lambda>w. if n \<noteq> 0 then write_resolv_conf servers n w else w"
  have ip: "?ip \<noteq> 0" using assms by (auto simp: finish_lease_def d)
  with assms obtain w1 where a: "apply_ipv4_addr (if_index w) ifname ?ip (lease_prefix ack offer) w = Some (NlAcked, w1)"
    and rest: "(if ?gw \<noteq> 0 then Option.bind (apply_default_route (if_index w1) ?gw w1) (\<lambda>(r, w).
               if r = NlOutOfBounds then Some (Undefined, w)
               else if r \<noteq> NlAcked then Some (Exit 1, w) else Some (Exit 0, ?dns w))
             else Some (Exit 0, ?dns w1)) = Some (Exit 0, w')"
    by (auto simp: finish_lease_def d Let_def bind_eq_Some_conv split: if_splits)
  from nl_request_world [OF a [unfolded apply_ipv4_addr_def]] obtain k where
    w1: "w1 = w\<lparr>tx_log := tx_log w @ [(NetlinkCh, newaddr_request (if_index w) ifname ?ip (lease_prefix ack offer) (pid w))],
      nl_reads := k\<rparr>" by blast
  have out: "tx_log (?dns v) = tx_log v"
    "resolv_conf (?dns v) = (if n \<noteq> 0 \<and> call_ok v OpenResolv then Some (resolv_text servers n) else resolv_conf v)" for v
    by (simp_all add: write_resolv_conf_def)
  show ?thesis
  proof (cases "?gw = 0")
    case True
    with rest have "w' = ?dns w1" by simp
    with ip True show ?thesis by (simp add: out w1 lease_requests_def lease_resolv_def d)
  next
    case False
    with rest obtain w2 where b: "apply_default_route (if_index w1) ?gw w1 = Some (NlAcked, w2)" and w': "w' = ?dns w2"
      by (auto simp: bind_eq_Some_conv split: if_splits)
    from nl_request_world [OF b [unfolded apply_default_route_def]] obtain k2 where
      "w2 = w1\<lparr>tx_log := tx_log w1 @ [(NetlinkCh, newroute_request (if_index w1) ?gw (pid w1))], nl_reads := k2\<rparr>"
      by blast
    with ip False w' show ?thesis by (simp add: out w1 lease_requests_def lease_resolv_def d)
  qed
qed

text \<open>The request phase: either it ends without an acknowledgement and nothing is configured, or
  an ACK of the transaction was read after the REQUEST was sent.\<close>

lemma request_lease_cases:
  assumes "request_lease ifname mac xid offer w = Some (oc, w')" "length mac = 6"
  defines "req \<equiv> build_dhcp_request 600 mac xid (yiaddr offer) (server_id offer)"
  shows "(\<exists>l. oc = Exit 1 \<and> runs l w w' \<and> (\<forall>e\<in>set l. fst e \<noteq> NetlinkCh)) \<or>
    (\<exists>id w2 ack. server_id offer \<noteq> 0 \<and> runs [(PacketCh, sent_frame id mac req), (UdpCh, req)] w w2
       \<and> heard xid DHCPACK ack w w2 \<and> finish_lease ifname ack offer w2 = Some (oc, w'))"
proof (cases "server_id offer = 0")
  case True
  with assms(1) have "oc = Exit 1" "w' = w" by (simp_all add: request_lease_def)
  moreover have "runs [] w w" by (simp add: runs_def)
  ultimately show ?thesis by force
next
  case False
  have req: "req \<noteq> []" using assms(2) by (simp add: req_def builds_nonempty)
  let ?w0 = "send_both mac req w"
  let ?w1 = "?w0\<lparr>clock_reads := Suc (clock_reads ?w0)\<rparr>"
  obtain id where r0: "runs [(PacketCh, sent_frame id mac req), (UdpCh, req)] w ?w0"
    using send_both_runs [OF req] by blast
  then have r1: "runs [(PacketCh, sent_frame id mac req), (UdpCh, req)] w ?w1"
    by (rule runs_listens) (rule listens_reads(1))
  from assms(1) False req obtain dl r w2 where
    aw: "await_ack xid dl ?w1 = Some (r, w2)" and
    rest: "(case r of None \<Rightarrow> Some (Exit 1, w2)
            | Some (mt2, ack) \<Rightarrow>
                if mt2 = DHCPNAK then Some (Exit 1, w2)
                else if mt2 \<noteq> DHCPACK then Some (Exit 1, w2)
                else finish_lease ifname ack offer w2) = Some (oc, w')"
    by (auto simp: request_lease_def req_def [symmetric] now_ms_eq Let_def bind_eq_Some_conv)
  note h = await_heard [OF aw [unfolded await_ack_def], unfolded fst_conv snd_conv]
  have r2: "runs [(PacketCh, sent_frame id mac req), (UdpCh, req)] w w2"
    using r1 h by (blast intro: runs_listens)
  consider (no) "oc = Exit 1" "w' = w2" | (ack) ack where "r = Some (DHCPACK, ack)" "finish_lease ifname ack offer w2 = Some (oc, w')"
    using rest h by (cases r) (auto split: if_splits)
  then show ?thesis
  proof cases
    case no
    with r2 show ?thesis by force
  next
    case (ack a)
    then have "heard xid DHCPACK a w w2" using h heard_runs [OF r1] by blast
    with ack r2 False show ?thesis by blast
  qed
qed

text \<open>The first half of \<open>main\<close>: it stops, or an OFFER was read after the DISCOVER was sent.\<close>

definition no_config :: "outcome \<Rightarrow> net \<Rightarrow> net \<Rightarrow> bool" where
  "no_config oc w w' \<longleftrightarrow> (oc = Exit 1 \<or> oc = Exit 2) \<and>
     (\<exists>l. runs l w w' \<and> (\<forall>e\<in>set l. fst e \<noteq> NetlinkCh))"

lemma no_configI: "oc = Exit 1 \<or> oc = Exit 2 \<Longrightarrow> runs l w w' \<Longrightarrow> \<forall>e\<in>set l. fst e \<noteq> NetlinkCh \<Longrightarrow> no_config oc w w'"
  by (auto simp: no_config_def)

lemma listens_log: "listens w w' \<Longrightarrow> listens (w\<lparr>tx_log := x\<rparr>) (w'\<lparr>tx_log := x\<rparr>)"
proof -
  assume l: "listens w w'"
  have "idle (v\<lparr>tx_log := x\<rparr>) = (idle v)\<lparr>tx_log := x\<rparr>" for v by (simp add: idle_def)
  with l show ?thesis by (simp add: listens_def)
qed

lemma runs_append:
  assumes "runs l w w1" "runs m w1 w2"
  shows "runs (l @ m) w w2"
proof -
  have "tx_log w1 = tx_log w @ l" using assms(1) by (rule runs_fields)
  then have "listens (w\<lparr>tx_log := tx_log w @ l @ m\<rparr>) (w1\<lparr>tx_log := tx_log w1 @ m\<rparr>)"
    using listens_log [OF assms(1) [unfolded runs_def], of "tx_log w @ l @ m"] by simp
  then show ?thesis using assms(2) unfolding runs_def by (rule listens_trans)
qed

lemma runs_Nil: "listens w w' \<Longrightarrow> runs [] w w'"
  by (simp add: runs_def)

lemma edhcpc_main_started:
  assumes "edhcpc_main args w = Some (oc, w')"
  defines "w1 \<equiv> snd (weak_xid w)"
  shows "no_config oc w w' \<or> (\<exists>ifname t. edhcpc_args args None 10 = Some (Some ifname, t)
    \<and> udp_setup_ok w \<and> packet_setup_ok w1)"
proof -
  have l: "listens w w1" by (simp add: w1_def weak_xid_world listens_reads)
  have "(oc = Exit 1 \<or> oc = Exit 2) \<and> (w' = w \<or> w' = w1) \<or> (\<exists>ifname t. edhcpc_args args None 10 = Some (Some ifname, t)
    \<and> udp_setup_ok w \<and> packet_setup_ok w1)"
    using assms(1) by (auto simp: edhcpc_main_def w1_def Let_def split: option.splits prod.splits if_splits)
  then show ?thesis
    using l runs_Nil listens_refl no_configI [of oc "[]" w w'] by fastforce
qed

lemma edhcpc_main_offer:
  assumes "edhcpc_main args w = Some (oc, w')" "6 \<le> length (hw_addr w)"
  defines "mac \<equiv> take 6 (hw_addr w)" and "xid \<equiv> htonl (fst (weak_xid w))"
  defines "disc \<equiv> build_dhcp_discover 600 mac xid"
  shows "no_config oc w w' \<or>
    (\<exists>ifname t id w1 offer. edhcpc_args args None 10 = Some (Some ifname, t)
       \<and> runs [(PacketCh, sent_frame id mac disc), (UdpCh, disc)] w w1
       \<and> heard xid DHCPOFFER offer w w1 \<and> request_lease ifname mac xid offer w1 = Some (oc, w'))"
proof (cases "no_config oc w w'")
  case False
  note cfg = this
  with edhcpc_main_started [OF assms(1)] obtain ifname t where
    args: "edhcpc_args args None 10 = Some (Some ifname, t)" and
    ready: "udp_setup_ok w" "packet_setup_ok (snd (weak_xid w))" by blast
  let ?x = "w\<lparr>clock_reads := Suc (clock_reads w)\<rparr>"
  obtain id0 where x: "weak_xid w = (id0, ?x)" using weak_xid_world [of w] by (metis prod.collapse)
  have xid: "htonl id0 = xid" by (simp add: xid_def x)
  have disc': "build_dhcp_discover 600 mac (htonl id0) = disc" by (simp add: disc_def xid)
  have disc: "disc \<noteq> []" using assms(2) by (simp add: disc_def mac_def builds_nonempty)
  let ?w0 = "send_both mac disc ?x"
  let ?w1 = "?w0\<lparr>clock_reads := Suc (clock_reads ?w0)\<rparr>"
  obtain id where r0: "runs [(PacketCh, sent_frame id mac disc), (UdpCh, disc)] ?x ?w0"
    using send_both_runs [OF disc] by blast
  have r1: "runs [(PacketCh, sent_frame id mac disc), (UdpCh, disc)] w ?w1"
    using runs_append [OF runs_Nil [OF listens_reads(1)] runs_listens [OF r0 listens_reads(1)]] by simp
  from assms(1) args x ready disc obtain dl r w2 where
    await: "await_offer (htonl id0) dl ?w1 = Some (r, w2)" and
    offered: "(case r of None \<Rightarrow> Some (Exit 1, w2)
            | Some (mt, offer) \<Rightarrow> request_lease ifname mac (htonl id0) offer w2) = Some (oc, w')"
    by (auto simp: edhcpc_main_def mac_def [symmetric] disc' now_ms_eq Let_def bind_eq_Some_conv)
  note aw = await [unfolded xid] and rest = offered [unfolded xid]
  note h = await_heard [OF aw [unfolded await_offer_def], unfolded fst_conv snd_conv]
  have r2: "runs [(PacketCh, sent_frame id mac disc), (UdpCh, disc)] w w2"
    using r1 h by (blast intro: runs_listens)
  have "r \<noteq> None" using rest cfg no_configI [OF _ r2] by (cases r) auto
  then obtain offer where q: "r = Some (DHCPOFFER, offer)" using h by auto
  then have "heard xid DHCPOFFER offer w w2" using h heard_runs [OF r1] by blast
  with q rest args r2 show ?thesis by fastforce
qed simp

text \<open>The whole run: without an OFFER and an ACK of its own transaction the client sends its two
  DHCP messages at most and configures nothing.\<close>

lemma edhcpc_main_cases:
  assumes "edhcpc_main args w = Some (oc, w')" "6 \<le> length (hw_addr w)"
  defines "mac \<equiv> take 6 (hw_addr w)" and "xid \<equiv> htonl (fst (weak_xid w))"
  defines "disc \<equiv> build_dhcp_discover 600 mac xid"
  shows "no_config oc w w' \<or>
    (\<exists>ifname t id w1 offer id2 w2 ack.
       edhcpc_args args None 10 = Some (Some ifname, t)
       \<and> runs [(PacketCh, sent_frame id mac disc), (UdpCh, disc)] w w1
       \<and> heard xid DHCPOFFER offer w w1 \<and> server_id offer \<noteq> 0
       \<and> runs [(PacketCh, sent_frame id2 mac (build_dhcp_request 600 mac xid (yiaddr offer) (server_id offer))),
               (UdpCh, build_dhcp_request 600 mac xid (yiaddr offer) (server_id offer))] w1 w2
       \<and> heard xid DHCPACK ack w1 w2 \<and> finish_lease ifname ack offer w2 = Some (oc, w'))"
  using edhcpc_main_offer [OF assms(1,2), folded mac_def xid_def, folded disc_def]
proof (elim disjE exE conjE)
  fix ifname t id w1 offer
  assume args: "edhcpc_args args None 10 = Some (Some ifname, t)"
    and r: "runs [(PacketCh, sent_frame id mac disc), (UdpCh, disc)] w w1"
    and h: "heard xid DHCPOFFER offer w w1" and rl: "request_lease ifname mac xid offer w1 = Some (oc, w')"
  have "length mac = 6" using assms(2) by (simp add: mac_def)
  from request_lease_cases [OF rl this] show ?thesis
  proof (elim disjE exE conjE)
    fix l assume l: "oc = Exit 1" "runs l w1 w'" "\<forall>e\<in>set l. fst e \<noteq> NetlinkCh"
    have "no_config oc w w'"
      by (rule no_configI [OF _ runs_append [OF r l(2)]]) (use l in auto)
    then show ?thesis ..
  qed (use args r h in blast)
qed simp

section \<open>The client returns\<close>

text \<open>The clock gets past every deadline the client sets.\<close>

definition clock_advances :: "net \<Rightarrow> bool" where
  "clock_advances w \<longleftrightarrow> (\<forall>n. \<exists>k>n. ms_at w n + 120000 \<le> ms_at w k) \<and> (\<forall>n. \<exists>k>n. ms_at w n + 15000 \<le> ms_at w k)"

text \<open>The kernel answers the request with sequence number \<open>seq\<close> in its first datagram.\<close>

definition nl_answers :: "net \<Rightarrow> nat \<Rightarrow> u32 \<Rightarrow> bool" where
  "nl_answers w i seq \<longleftrightarrow> (\<exists>ms. nl_in w i = RxData (concat (map nl_msg ms)) \<and> list_all nl_msg_ok ms
     \<and> length (concat (map nl_msg ms)) \<le> 8192 \<and> nl_verdict seq ms \<noteq> NlMore)"

lemma nl_verdict_cases: "nl_verdict seq ms \<noteq> NlMore \<Longrightarrow> nl_verdict seq ms \<in> {NlAcked, NlError}"
  by (induction seq ms rule: nl_verdict.induct) (auto split: if_splits)

lemma nl_request_answered:
  assumes "nl_answers w (nl_reads w) seq" "length (nl_stack w) = 8192"
  shows "\<exists>r w'. nl_request seq req w = Some (r, w') \<and> r \<in> {NlAcked, NlError} \<and>
     (r = NlAcked \<longrightarrow> nl_reads w' = Suc (nl_reads w))"
  using assms nl_request_returns nl_verdict_cases unfolding nl_answers_def by blast

lemma finish_lease_returns:
  assumes "nl_answers w (nl_reads w) 100" "nl_answers w (Suc (nl_reads w)) 101" "length (nl_stack w) = 8192"
  shows "\<exists>c w'. finish_lease ifname ack offer w = Some (Exit c, w')"
proof (cases "lease_ip ack offer = 0")
  case True
  then show ?thesis by (simp add: finish_lease_def split: prod.splits)
next
  case False
  obtain r w1 where a: "apply_ipv4_addr (if_index w) ifname (lease_ip ack offer) (lease_prefix ack offer) w = Some (r, w1)"
    and r: "r \<in> {NlAcked, NlError}" "r = NlAcked \<longrightarrow> nl_reads w1 = Suc (nl_reads w)"
    using nl_request_answered [OF assms(1,3)] unfolding apply_ipv4_addr_def by blast
  from nl_request_world [OF a [unfolded apply_ipv4_addr_def]]
  have keep: "nl_in w1 = nl_in w" "nl_stack w1 = nl_stack w" by auto
  have route: "\<exists>r2 w2. apply_default_route (if_index w1) (lease_gateway ack offer) w1 = Some (r2, w2) \<and> r2 \<in> {NlAcked, NlError}"
    if "r = NlAcked"
    using nl_request_answered [of w1 101] that r assms keep unfolding apply_default_route_def nl_answers_def
    by fastforce
  show ?thesis
  proof (cases "r = NlAcked")
    case True
    from route [OF True] obtain r2 w2 where
      "apply_default_route (if_index w1) (lease_gateway ack offer) w1 = Some (r2, w2)" "r2 \<in> {NlAcked, NlError}"
      by blast
    with False a True show ?thesis
      by (cases "lease_gateway ack offer = 0"; cases "lease_dns ack offer") (auto simp: finish_lease_def)
  next
    case False
    with r have "r = NlError" by simp
    with \<open>lease_ip ack offer \<noteq> 0\<close> a show ?thesis
      by (cases "lease_dns ack offer") (simp add: finish_lease_def)
  qed
qed

lemma await_returns_later:
  assumes "clock_advances w" "clock_reads w = Suc n" "d = 120000 \<or> d = 15000"
  shows "\<exists>r w'. await_message wanted xid (ms_at w n + d) w = Some (r, w')"
proof -
  from assms(1,3) obtain k where "k > n" "ms_at w n + d \<le> ms_at w k"
    by (auto simp: clock_advances_def)
  then show ?thesis using assms(2) by (intro await_returns [of _ k]) auto
qed

lemma request_lease_returns:
  assumes "clock_advances w" "nl_answers w (nl_reads w) 100" "nl_answers w (Suc (nl_reads w)) 101"
    and "length (nl_stack w) = 8192" "length mac = 6"
  shows "\<exists>c w'. request_lease ifname mac xid offer w = Some (Exit c, w')"
proof (cases "server_id offer = 0")
  case True
  then show ?thesis by (simp add: request_lease_def)
next
  case False
  define req where "req = build_dhcp_request 600 mac xid (yiaddr offer) (server_id offer)"
  have req: "req \<noteq> []" using assms(5) by (simp add: req_def builds_nonempty)
  define w0 where "w0 = send_both mac req w"
  define w1 where "w1 = w0\<lparr>clock_reads := Suc (clock_reads w0)\<rparr>"
  obtain l where r0: "runs l w w0" using send_both_runs [OF req] by (metis w0_def)
  have r1: "runs l w w1" unfolding w1_def by (rule runs_listens [OF r0 listens_reads(1)])
  have ms: "ms_at w1 = ms_at w0" by (simp add: w1_def fun_eq_iff)
  have "clock_advances w1" using assms(1) runs_fields(1) [OF r1] by (simp add: clock_advances_def ms_at_def)
  then have "\<exists>r w2. await_ack xid (ms_at w0 (clock_reads w0) + 15000) w1 = Some (r, w2)"
    unfolding await_ack_def ms [symmetric] by (rule await_returns_later) (simp_all add: w1_def)
  then obtain r w2 where aw: "await_ack xid (ms_at w0 (clock_reads w0) + 15000) w1 = Some (r, w2)" by blast
  have step: "request_lease ifname mac xid offer w =
      (case r of None \<Rightarrow> Some (Exit 1, w2)
       | Some (mt2, ack) \<Rightarrow> if mt2 = DHCPNAK then Some (Exit 1, w2)
           else if mt2 \<noteq> DHCPACK then Some (Exit 1, w2) else finish_lease ifname ack offer w2)"
    using False req aw
    by (simp add: request_lease_def flip: req_def w0_def) (simp add: now_ms_eq flip: w1_def)
  have "runs l w w2"
    using await_heard [OF aw [unfolded await_ack_def]] runs_listens [OF r1] by simp
  from runs_fields [OF this] assms have "\<exists>c w'. finish_lease ifname ack offer w2 = Some (Exit c, w')" for ack
    by (intro finish_lease_returns) (simp_all add: nl_answers_def)
  then show ?thesis unfolding step by (auto split: option.splits)
qed

lemma edhcpc_main_returns:
  assumes "clock_advances w" "nl_answers w (nl_reads w) 100" "nl_answers w (Suc (nl_reads w)) 101"
    and "length (nl_stack w) = 8192" "6 \<le> length (hw_addr w)"
  shows "\<exists>c w'. edhcpc_main args w = Some (Exit c, w')"
proof (cases "\<exists>ifname t. edhcpc_args args None 10 = Some (Some ifname, t)")
  case False
  then show ?thesis by (auto simp: edhcpc_main_def split: option.splits)
next
  case True
  then obtain ifname t where args: "edhcpc_args args None 10 = Some (Some ifname, t)" by blast
  define mac where "mac = take 6 (hw_addr w)"
  have mac: "length mac = 6" using assms(5) by (simp add: mac_def)
  obtain id x where x: "weak_xid w = (id, x)" by (cases "weak_xid w")
  have rx: "runs [] w x" using x weak_xid_world [of w] runs_Nil [OF listens_reads(1)] by simp
  show ?thesis
  proof (cases "udp_setup_ok w \<and> packet_setup_ok x")
    case False
    then show ?thesis using args x by (auto simp: edhcpc_main_def)
  next
    case True
    define disc where "disc = build_dhcp_discover 600 mac (htonl id)"
    have disc: "disc \<noteq> []" using mac by (simp add: disc_def builds_nonempty)
    define w0 where "w0 = send_both mac disc x"
    define w1 where "w1 = w0\<lparr>clock_reads := Suc (clock_reads w0)\<rparr>"
    obtain l where r0: "runs l x w0" using send_both_runs [OF disc] by (metis w0_def)
    have r1: "runs l w w1"
      using runs_append [OF rx runs_listens [OF r0 listens_reads(1)]] by (simp add: w1_def)
    have ms: "ms_at w1 = ms_at w0" by (simp add: w1_def fun_eq_iff)
    have "clock_advances w1" using assms(1) runs_fields(1) [OF r1] by (simp add: clock_advances_def ms_at_def)
    then have "\<exists>r w2. await_offer (htonl id) (ms_at w0 (clock_reads w0) + 120000) w1 = Some (r, w2)"
      unfolding await_offer_def ms [symmetric] by (rule await_returns_later) (simp_all add: w1_def)
    then obtain r w2 where aw: "await_offer (htonl id) (ms_at w0 (clock_reads w0) + 120000) w1 = Some (r, w2)" by blast
    have step: "edhcpc_main args w =
        (case r of None \<Rightarrow> Some (Exit 1, w2) | Some (mt, offer) \<Rightarrow> request_lease ifname mac (htonl id) offer w2)"
      using True args x disc aw
      by (simp add: edhcpc_main_def flip: mac_def) (simp flip: disc_def w0_def add: now_ms_eq, simp flip: w1_def)
    have "runs l w w2"
      using await_heard [OF aw [unfolded await_offer_def]] runs_listens [OF r1] by simp
    note f = runs_fields [OF this]
    have "\<exists>c w'. request_lease ifname mac (htonl id) offer w2 = Some (Exit c, w')" for offer
      by (rule request_lease_returns) (use f assms mac in \<open>simp_all add: nl_answers_def clock_advances_def ms_at_def\<close>)
    then show ?thesis unfolding step by (auto split: option.splits)
  qed
qed

end
