(* ===== verification/DHCP_Examples.thy ===== *)
theory DHCP_Examples
  imports DHCP_Correct
begin

unbundle bit_operations_syntax

text \<open>
  A concrete exchange: a server that answers the DISCOVER with an OFFER and the REQUEST with an ACK
  on the UDP socket, and a kernel that acknowledges both netlink requests. The clock moves by 5
  seconds between two readings. The witnesses of the client's properties are taken here.
\<close>

definition ex_xid :: u32 where "ex_xid = htonl 0x9e3779b8"

definition ex_offer_options :: "(byte \<times> byte list) list" where
  "ex_offer_options = [(OPT_MSG_TYPE, [2]), (OPT_SUBNET_MASK, [255, 255, 255, 0]),
     (OPT_ROUTER, [192, 168, 1, 1]), (OPT_DNS, [192, 168, 1, 1]), (OPT_SERVER_ID, [192, 168, 1, 1])]"

definition ex_ack_options :: "(byte \<times> byte list) list" where
  "ex_ack_options = [(OPT_MSG_TYPE, [5]), (OPT_SUBNET_MASK, [255, 255, 255, 0]), (OPT_ROUTER, [192, 168, 1, 1])]"

definition ex_reply :: "(byte \<times> byte list) list \<Rightarrow> dhcp_msg" where
  "ex_reply os = \<lparr>m_op = BOOTREPLY, m_htype = 1, m_hlen = 6, m_hops = 0, m_xid = ex_xid, m_secs = 0,
      m_flags = 0, m_ciaddr = 0, m_yiaddr = le_load [192, 168, 1, 42], m_siaddr = 0, m_giaddr = 0,
      m_chaddr = replicate 16 0, m_sname = replicate 64 0, m_file = replicate 128 0,
      m_cookie = htonl MAGIC, m_options = concat (map tlv os) @ OPT_END # []\<rparr>"

definition ex_offer :: dhcp_offer where
  "ex_offer = \<lparr>yiaddr = le_load [192, 168, 1, 42], subnet_mask = le_load [255, 255, 255, 0],
     router = le_load [192, 168, 1, 1], dns = [le_load [192, 168, 1, 1], 0], dns_count = 1,
     server_id = le_load [192, 168, 1, 1], lease_time = 0\<rparr>"

definition ex_ack :: dhcp_offer where
  "ex_ack = \<lparr>yiaddr = le_load [192, 168, 1, 42], subnet_mask = le_load [255, 255, 255, 0],
     router = le_load [192, 168, 1, 1], dns = [0, 0], dns_count = 0, server_id = 0, lease_time = 0\<rparr>"

definition ex_nl :: "u32 \<Rightarrow> (u16 \<times> u32 \<times> byte list) list" where
  "ex_nl seq = [(NLMSG_ERROR, seq, [0, 0, 0, 0])]"

definition ex_net :: net where
  "ex_net = \<lparr>clock = (\<lambda>n. (of_nat (5 * n), 0)), clock_reads = 0, pkt_in = (\<lambda>_. RxAgain), pkt_reads = 0,
     udp_in = (\<lambda>n. if n = 0 then RxData (msg_bytes (ex_reply ex_offer_options))
                   else RxData (msg_bytes (ex_reply ex_ack_options))), udp_reads = 0,
     nl_in = (\<lambda>n. RxData (concat (map nl_msg (ex_nl (if n = 0 then 100 else 101))))), nl_reads = 0,
     nl_stack = replicate 8192 0, call_ok = (\<lambda>_. True), tx_ret = (\<lambda>_. 0), tx_log = [],
     hw_addr = [2, 0, 0, 0, 0, 1, 0, 0, 0, 0, 0, 0, 0, 0], if_index = 2, pid = 1, resolv_conf = None\<rparr>"

definition ex_ip :: ipv4_hdr where
  "ex_ip = \<lparr>ip_ver_ihl = 0x45, ip_tos = 0, ip_tot_len = 0, ip_id = 0, ip_frag_off = 0, ip_ttl = 64,
     ip_proto = 17, ip_check = 0, ip_saddr = 0, ip_daddr = 0\<rparr>"

definition ex_udp :: udp_hdr where
  "ex_udp = \<lparr>udp_sport = htons 67, udp_dport = htons 68, udp_len = htons 300, udp_check = 0\<rparr>"

lemma ex_ms: "ms_at ex_net n = of_nat (5000 * n)"
  by (simp add: ms_at_def ex_net_def)

lemma ex_clock: "clock_advances ex_net"
proof -
  have "ms_at ex_net n + 15000 = ms_at ex_net (n + 3)" "ms_at ex_net n + 120000 = ms_at ex_net (n + 24)" for n
    by (simp_all add: ex_ms algebra_simps)
  then show ?thesis unfolding clock_advances_def
    by (metis less_add_same_cancel1 order_refl zero_less_numeral)
qed

lemma ex_nl_answers: "nl_answers ex_net 0 100" "nl_answers ex_net 1 101"
  unfolding nl_answers_def
  by (rule exI [of _ "ex_nl 100"], simp add: ex_net_def ex_nl_def nl_msg_ok_def get32_def)
     (rule exI [of _ "ex_nl 101"], simp add: ex_net_def ex_nl_def nl_msg_ok_def get32_def)

lemma ex_reply_sizes [simp]: "msg_sizes (ex_reply os)"
  by (simp add: msg_sizes_def ex_reply_def)

lemma dns_loop_2: "dns_loop 2 0 val out =
   (if 4 \<le> length val then
      let out = out\<lparr>dns := (dns out)[0 := get32 0 val], dns_count := dns_count out + 1\<rparr>
      in if 8 \<le> length val
         then out\<lparr>dns := (dns out)[1 := get32 4 val], dns_count := dns_count out + 1\<rparr> else out
    else out)"
  by (simp add: numeral_2_eq_2)

lemmas option_eval = apply_option_def zero_offer_def get32_def dns_loop_2 plain_option_def

lemma ex_offer_read: "parse_dhcp_payload (msg_bytes (ex_reply ex_offer_options)) ex_xid = Some (2, ex_offer)"
proof -
  have "parse_dhcp_payload (msg_bytes (ex_reply ex_offer_options)) ex_xid
      = Some (2, ex_offer\<lparr>yiaddr := 0\<rparr>\<lparr>yiaddr := m_yiaddr (ex_reply ex_offer_options)\<rparr>)"
    by (rule reply_read_back [where os = ex_offer_options and pad = "[]"])
       (simp_all add: ex_reply_def ex_offer_options_def ex_offer_def option_eval msg_sizes_def del: le_load.simps)
  then show ?thesis by (simp add: ex_reply_def ex_offer_def)
qed

lemma ex_ack_read: "parse_dhcp_payload (msg_bytes (ex_reply ex_ack_options)) ex_xid = Some (5, ex_ack)"
proof -
  have "parse_dhcp_payload (msg_bytes (ex_reply ex_ack_options)) ex_xid
      = Some (5, ex_ack\<lparr>yiaddr := 0\<rparr>\<lparr>yiaddr := m_yiaddr (ex_reply ex_ack_options)\<rparr>)"
    by (rule reply_read_back [where os = ex_ack_options and pad = "[]"])
       (simp_all add: ex_reply_def ex_ack_options_def ex_ack_def option_eval msg_sizes_def del: le_load.simps)
  then show ?thesis by (simp add: ex_reply_def ex_ack_def)
qed

text \<open>A wanted message at the head of the UDP queue ends the wait at once.\<close>

lemma await_udp:
  assumes "ms_at w (clock_reads w) < deadline" "ms_at w (Suc (clock_reads w)) < deadline"
    and "pkt_in w (pkt_reads w) = RxAgain" "udp_in w (udp_reads w) = RxData d"
    and "parse_dhcp_payload d xid = Some (mt, m)" "length d \<le> 2048" "wanted mt"
  shows "await_message wanted xid deadline w = Some (Some (mt, m),
     w\<lparr>clock_reads := clock_reads w + 2, pkt_reads := Suc (pkt_reads w), udp_reads := Suc (udp_reads w)\<rparr>)"
proof -
  have "d \<noteq> []" using assms(5) by (auto simp: parse_dhcp_payload_def)
  then have u: "try_recv_dhcp_udp_once (RxData d) xid = Received mt m"
    using assms by (simp add: try_recv_dhcp_udp_once_def)
  have p: "try_recv_dhcp_packet_once RxAgain xid = Nothing" by (simp add: try_recv_dhcp_packet_once_def)
  have "recv_dhcp_message_any xid deadline (w\<lparr>clock_reads := Suc (clock_reads w)\<rparr>) = Some (Received mt m,
     w\<lparr>clock_reads := clock_reads w + 2, pkt_reads := Suc (pkt_reads w), udp_reads := Suc (udp_reads w)\<rparr>)"
    using assms p u by (subst recv_any_step) (simp add: Let_def not_le)
  then show ?thesis using assms by (subst await_step) simp
qed

lemma send_both_world:
  assumes "dhcp \<noteq> []"
  shows "\<exists>f. send_both mac dhcp w = w\<lparr>clock_reads := Suc (clock_reads w), tx_log := tx_log w @ [f, (UdpCh, dhcp)]\<rparr>"
proof -
  obtain id where x: "weak_xid w = (id, w\<lparr>clock_reads := Suc (clock_reads w)\<rparr>)"
    using weak_xid_world [of w] by (metis prod.collapse)
  have "send_both mac dhcp w = w\<lparr>clock_reads := Suc (clock_reads w),
      tx_log := tx_log w @ [(PacketCh, sent_frame id mac dhcp), (UdpCh, dhcp)]\<rparr>"
    using assms by (simp add: send_both_def send_dhcp_packet_def send_dhcp_udp_broadcast_def transmit_def x Let_def)
  then show ?thesis ..
qed

lemma length_ex_reply: "length (msg_bytes (ex_reply ex_offer_options)) \<le> 2048"
  "length (msg_bytes (ex_reply ex_ack_options)) \<le> 2048"
  by (simp_all add: msg_bytes_def length_msg_header) (simp_all add: ex_reply_def ex_offer_options_def ex_ack_options_def)

lemma ex_nl_request:
  assumes "call_ok w = (\<lambda>_. True)" "tx_ret w = (\<lambda>_. 0)" "length (nl_stack w) = 8192"
    and "nl_in w (nl_reads w) = RxData (concat (map nl_msg (ex_nl seq)))"
  shows "nl_request seq req w =
    Some (NlAcked, w\<lparr>tx_log := tx_log w @ [(NetlinkCh, req)], nl_reads := Suc (nl_reads w)\<rparr>)"
proof -
  let ?w1 = "w\<lparr>tx_log := tx_log w @ [(NetlinkCh, req)]\<rparr>"
  have v: "nl_verdict seq (ex_nl seq) = NlAcked" by (simp add: ex_nl_def get32_def)
  have "nl_recv_ack seq (nl_stack w) ?w1 = Some (nl_verdict seq (ex_nl seq), ?w1\<lparr>nl_reads := Suc (nl_reads ?w1)\<rparr>)"
    by (rule nl_recv_ack_reads) (use assms v in \<open>simp_all add: ex_nl_def nl_msg_ok_def\<close>)
  with v assms show ?thesis by (simp add: nl_request_def transmit_def)
qed

lemma ex_request:
  assumes "w = ex_net\<lparr>clock_reads := 5, pkt_reads := 1, udp_reads := 1, tx_log := l\<rparr>" "length mac = 6"
  shows "\<exists>w'. request_lease ''eth0'' mac ex_xid ex_offer w = Some (Exit 0, w')"
proof -
  define req where "req = build_dhcp_request 600 mac ex_xid (yiaddr ex_offer) (server_id ex_offer)"
  have req: "req \<noteq> []" using assms(2) by (simp add: req_def builds_nonempty)
  obtain f where s: "send_both mac req w = w\<lparr>clock_reads := 6, tx_log := l @ [f, (UdpCh, req)]\<rparr>"
    using send_both_world [OF req, of mac w] by (auto simp: assms(1))
  define w1 where "w1 = w\<lparr>clock_reads := 7, tx_log := l @ [f, (UdpCh, req)]\<rparr>"
  have now: "now_ms (send_both mac req w) = (30000, w1)"
    unfolding now_ms_eq s w1_def by (simp add: assms(1) ex_ms)
  define w2 where "w2 = w1\<lparr>clock_reads := 9, pkt_reads := 2, udp_reads := 2\<rparr>"
  have "await_ack ex_xid 45000 w1 = Some (Some (5, ex_ack), w1\<lparr>clock_reads := clock_reads w1 + 2,
      pkt_reads := Suc (pkt_reads w1), udp_reads := Suc (udp_reads w1)\<rparr>)"
    unfolding await_ack_def
    by (rule await_udp [where d = "msg_bytes (ex_reply ex_ack_options)"])
       (simp_all add: w1_def assms(1) ex_ms ex_ack_read length_ex_reply, simp_all add: ex_net_def)
  then have aw: "await_ack ex_xid 45000 w1 = Some (Some (5, ex_ack), w2)"
    by (simp add: w2_def w1_def assms(1) numeral_2_eq_2)
  have f2: "nl_in w2 = nl_in ex_net" "nl_reads w2 = 0" "nl_stack w2 = replicate 8192 0" "call_ok w2 = (\<lambda>_. True)"
    "tx_ret w2 = (\<lambda>_. 0)"
    by (simp_all add: w2_def w1_def assms(1)) (simp_all add: ex_net_def)
  have nl: "nl_in ex_net 0 = RxData (concat (map nl_msg (ex_nl 100)))"
    "nl_in ex_net (Suc 0) = RxData (concat (map nl_msg (ex_nl 101)))"
    by (simp_all add: ex_net_def)
  have fields: "lease_ip ex_ack ex_offer \<noteq> 0" "lease_gateway ex_ack ex_offer \<noteq> 0"
    by (simp_all add: lease_ip_def lease_gateway_def ex_ack_def ex_offer_def)
  have "\<exists>w'. finish_lease ''eth0'' ex_ack ex_offer w2 = Some (Exit 0, w')"
    using fields
    by (cases "lease_dns ex_ack ex_offer")
       (simp add: finish_lease_def apply_ipv4_addr_def apply_default_route_def ex_nl_request f2 nl Let_def)
  moreover have "server_id ex_offer \<noteq> 0" by (simp add: ex_offer_def)
  ultimately show ?thesis
    using req now aw by (simp add: request_lease_def flip: req_def)
qed

lemma ex_run: "\<exists>w'. edhcpc_main [''-i'', ''eth0''] ex_net = Some (Exit 0, w')"
proof -
  define mac where "mac = take 6 (hw_addr ex_net)"
  have mac: "length mac = 6" by (simp add: mac_def ex_net_def)
  define disc where "disc = build_dhcp_discover 600 mac ex_xid"
  have disc: "disc \<noteq> []" using mac by (simp add: disc_def builds_nonempty)
  have z: "clock_reads ex_net = 0" "pkt_reads ex_net = 0" "udp_reads ex_net = 0" "tx_log ex_net = []"
    by (simp_all add: ex_net_def)
  have x: "weak_xid ex_net = (0x9e3779b8, ex_net\<lparr>clock_reads := 1\<rparr>)"
    by (simp add: weak_xid_def gettimeofday_def z) (simp add: ex_net_def)
  obtain f where s: "send_both mac disc (ex_net\<lparr>clock_reads := 1\<rparr>) = ex_net\<lparr>clock_reads := 2, tx_log := [f, (UdpCh, disc)]\<rparr>"
    using send_both_world [OF disc, of mac "ex_net\<lparr>clock_reads := 1\<rparr>"] by (auto simp: z numeral_2_eq_2)
  define w1 where "w1 = ex_net\<lparr>clock_reads := 3, tx_log := [f, (UdpCh, disc)]\<rparr>"
  have now: "now_ms (send_both mac disc (ex_net\<lparr>clock_reads := 1\<rparr>)) = (10000, w1)"
    unfolding now_ms_eq s w1_def by (simp add: ex_ms)
  have "await_offer ex_xid 130000 w1 = Some (Some (2, ex_offer), w1\<lparr>clock_reads := clock_reads w1 + 2,
      pkt_reads := Suc (pkt_reads w1), udp_reads := Suc (udp_reads w1)\<rparr>)"
    unfolding await_offer_def
    by (rule await_udp [where d = "msg_bytes (ex_reply ex_offer_options)"])
       (simp_all add: w1_def ex_ms ex_offer_read length_ex_reply z, simp_all add: ex_net_def)
  then have aw: "await_offer ex_xid 130000 w1 = Some (Some (2, ex_offer),
      ex_net\<lparr>clock_reads := 5, pkt_reads := 1, udp_reads := 1, tx_log := [f, (UdpCh, disc)]\<rparr>)"
    by (simp add: w1_def z)
  have ok: "udp_setup_ok ex_net" "packet_setup_ok (ex_net\<lparr>clock_reads := 1\<rparr>)"
    by (simp_all add: udp_setup_ok_def packet_setup_ok_def) (simp_all add: ex_net_def)
  obtain w' where "request_lease ''eth0'' mac ex_xid ex_offer
      (ex_net\<lparr>clock_reads := 5, pkt_reads := 1, udp_reads := 1, tx_log := [f, (UdpCh, disc)]\<rparr>) = Some (Exit 0, w')"
    using ex_request [OF refl mac] by blast
  with x disc now aw ok show ?thesis
    by (simp add: edhcpc_main_def ex_xid_def [symmetric] flip: mac_def disc_def)
qed

end
