(* ===== verification/DHCP_Properties.thy ===== *)
theory DHCP_Properties
  imports DHCP_Examples
begin

unbundle bit_operations_syntax

text \<open>
  The properties of the DHCP client, with their witnesses, and the lemmas that show where the code
  deviates from what its comments or its interface promise.
\<close>

section \<open>The client as a whole\<close>







section \<open>Messages and frames\<close>





text \<open>C21: Round trip of messages: a reply whose option area is a sequence of options, \<open>END\<close> and any
  padding is read back as its address and the fold of its options, in order; and the client's own
  REQUEST carries, in this format, its type, the requested address and the server.\<close>

theorem message_roundtrip:
  assumes "msg_sizes m" "m_op m = BOOTREPLY" "m_xid m = xid" "m_cookie m = htonl MAGIC"
    and "m_options m = concat (map tlv os) @ OPT_END # pad" "list_all plain_option os"
    and "foldl (\<lambda>st opt. apply_option (fst opt) (snd opt) st) (0, zero_offer) os = (mt, out)" "mt \<noteq> 0"
    and "length mac = 6"
  shows "parse_dhcp_payload (msg_bytes m) xid = Some (mt, out\<lparr>yiaddr := m_yiaddr m\<rparr>)
    \<and> build_dhcp_request 600 mac xid ip sid = msg_bytes (build_common xid mac
        \<lparr>m_options := concat (map tlv (request_options mac ip sid)) @ [OPT_END]\<rparr>)
    \<and> dhcp_parse_options (drop 240 (build_dhcp_request 600 mac xid ip sid)) = (3, zero_offer\<lparr>server_id := sid\<rparr>)"
proof -
  have "list_all plain_option (request_options mac ip sid)"
    by (simp add: request_options_def plain_option_def client_id_def prl_def)
  then have "dhcp_parse_options (concat (map tlv (request_options mac ip sid)) @ [OPT_END])
      = (3, zero_offer\<lparr>server_id := sid\<rparr>)"
    by (simp add: dhcp_parse_options_def options_read_back)
       (simp add: request_options_def apply_option_def get32_def del: le_store_numeral)
  then show ?thesis
    using reply_read_back [OF assms(1-8)] build_request_bytes [OF assms(9)] assms(9)
    by (simp add: msg_bytes_fields msg_sizes_def build_common_def poke_def)
qed

theorem message_roundtrip_witness:
  "parse_dhcp_payload (msg_bytes (ex_reply ex_ack_options)) ex_xid = Some (5, ex_ack)"
proof -
  have "parse_dhcp_payload (msg_bytes (ex_reply ex_ack_options)) ex_xid
      = Some (5, ex_ack\<lparr>yiaddr := 0\<rparr>\<lparr>yiaddr := m_yiaddr (ex_reply ex_ack_options)\<rparr>)"
    by (rule message_roundtrip [where os = ex_ack_options and pad = "[]" and mac = "replicate 6 0", THEN conjunct1])
       (simp_all add: ex_reply_def ex_ack_options_def ex_ack_def option_eval msg_sizes_def del: le_load.simps)
  then show ?thesis by (simp add: ex_reply_def ex_ack_def)
qed

text \<open>C22: A sent frame is a valid broadcast: for a message of at most 600 bytes its layout is the
  Ethernet, IPv4 and UDP headers and the message, its length fields are right, the header
  checksum and the UDP checksum verify at the receiver.\<close>

theorem sent_frame_valid:
  fixes xid :: u32 and mac dhcp :: "byte list"
  assumes "length mac = 6" "length dhcp \<le> 600"
  defines "ip \<equiv> ipv4_bytes (sent_ipv4 xid (length dhcp))" and "udp \<equiv> udp_bytes (sent_udp dhcp)"
  shows "sent_frame xid mac dhcp = replicate 6 0xff @ mac @ be_store 2 ETHERTYPE_IP @ ip @ udp @ dhcp
    \<and> ntohs (ip_tot_len (sent_ipv4 xid (length dhcp))) = of_nat (28 + length dhcp)
    \<and> ntohs (udp_len (sent_udp dhcp)) = of_nat (8 + length dhcp)
    \<and> csum16 ip = 0
    \<and> csum16 (pseudo_header (htonl 0) (htonl INADDR_BROADCAST) (length dhcp) @ udp @ dhcp) = 0
    \<and> udp_check (sent_udp dhcp) \<noteq> 0"
proof -
  have "udp_check (sent_udp dhcp) \<noteq> 0"
    by (simp add: sent_udp_def Let_def udp_checksum_ipv4_def)
  moreover have "sent_frame xid mac dhcp = replicate 6 0xff @ mac @ be_store 2 ETHERTYPE_IP @ ip @ udp @ dhcp"
    using sent_frame_layout [OF assms(1,2)] assms(1)
    by (simp add: eth_bytes_def ip_def udp_def del: le_store_numeral)
  ultimately show ?thesis
    using assms udp_checksum_verifies [of dhcp] ipv4_checksum_verifies [of xid "length dhcp"]
    by (simp add: sent_ipv4_def sent_udp_def Let_def)
qed

theorem sent_frame_valid_witness:
  "csum16 (ipv4_bytes (sent_ipv4 7 (length [1, 2, 3 :: byte]))) = 0
   \<and> length (sent_frame 7 [2, 0, 0, 0, 0, 1] [1, 2, 3]) = 45"
  using sent_frame_valid [of "[2, 0, 0, 0, 0, 1]" "[1, 2, 3]" 7] by (simp del: le_store_numeral)

text \<open>C23: \<open>csum16\<close> computes the Internet checksum: for data of up to 131070 bytes the two bytes that
  the native store of its result leaves in memory are the RFC 1071 checksum in network order,
  although the words are summed in little-endian order.\<close>

theorem csum16_is_rfc1071:
  assumes "length d \<le> 131070"
  shows "le_store 2 (csum16 d) = be_store 2 (of_nat (rfc1071 d) :: u16)"
  using assms by (rule csum16_stored)

theorem csum16_is_rfc1071_witness:
  "le_store 2 (csum16 [0x45, 0x00, 0x00, 0x73, 0x00, 0x00, 0x40, 0x00, 0x40, 0x11, 0x00, 0x00,
     0xc0, 0xa8, 0x00, 0x01, 0xc0, 0xa8, 0x00, 0xc7]) = [0xb8, 0x61]"
  using csum16_is_rfc1071 [of "[0x45, 0x00, 0x00, 0x73, 0x00, 0x00, 0x40, 0x00, 0x40, 0x11, 0x00, 0x00,
     0xc0, 0xa8, 0x00, 0x01, 0xc0, 0xa8, 0x00, 0xc7]"]
  by (simp add: rfc1071_def ones_def be_store_def del: le_store_numeral) simp

text \<open>\<open>prefix_len_from_netmask\<close> returns the prefix length exactly for the canonical masks
  \<open>/0\<close> to \<open>/32\<close>, and -1 for every other mask.\<close>

theorem netmask_prefix:
  assumes "p \<le> 32"
  shows "(prefix_len_from_netmask m = int p \<longleftrightarrow> ntohl m = canonical_mask p)
     \<and> (prefix_len_from_netmask m = - 1 \<longleftrightarrow> (\<nexists>q. q \<le> 32 \<and> ntohl m = canonical_mask q))"
proof (cases "prefix_len_from_netmask m = - 1")
  case True
  then have "ntohl m \<noteq> canonical_mask q" if "q \<le> 32" for q
    using prefix_len_of_canonical [OF that, of m] by auto
  with True assms show ?thesis by auto
next
  case False
  with prefix_len_cases [of m] obtain q where q: "q \<le> 32" "ntohl m = canonical_mask q" by blast
  then have "prefix_len_from_netmask m = int q" by (rule prefix_len_of_canonical)
  with q assms show ?thesis using prefix_len_of_canonical [OF assms, of m] by auto
qed

theorem netmask_prefix_witness:
  "prefix_len_from_netmask (htonl 0xffffff00) = 24 \<and> prefix_len_from_netmask (htonl 0xffff00ff) \<noteq> 24"
  using netmask_prefix [of 24 "htonl 0xffffff00"] netmask_prefix [of 24 "htonl 0xffff00ff"]
  by (simp add: canonical_mask_def mask_eq_exp_minus_1)

section \<open>Netlink\<close>

text \<open>C24: The netlink requests say what they should: a receiver that walks the attributes finds the
  address twice and the interface label (15 characters and a NUL) in the RTM_NEWADDR request, and
  the gateway and the interface index in the RTM_NEWROUTE request; the length fields are the
  lengths of the messages.\<close>

theorem netlink_requests:
  assumes "NUL \<notin> set ifname"
  shows "get32 0 (newaddr_request ifindex ifname ip prefix pn)
        = of_nat (length (newaddr_request ifindex ifname ip prefix pn))
    \<and> rta_parse (drop 24 (newaddr_request ifindex ifname ip prefix pn))
        = [(IFA_LOCAL, le_store 4 ip), (IFA_ADDRESS, le_store 4 ip), (IFA_LABEL, label_bytes ifname)]
    \<and> get32 0 (newroute_request ifindex gw pn) = of_nat (length (newroute_request ifindex gw pn))
    \<and> rta_parse (drop 28 (newroute_request ifindex gw pn))
        = [(RTA_GATEWAY, le_store 4 gw), (RTA_OIF, le_store 4 ifindex)]"
proof -
  let ?n = "length (label_bytes ifname)"
  have label: "?n < 65532" using length_label_bytes [of ifname] by simp
  have "get32 0 (newaddr_request ifindex ifname ip prefix pn) = of_nat (44 + align4 ?n)"
    unfolding newaddr_request_bytes [OF assms] nlmsg_bytes_def append_assoc
    by (rule get32_header [where a = "[]"]) simp_all
  moreover have "length (newaddr_request ifindex ifname ip prefix pn) = 44 + align4 ?n"
    by (simp add: newaddr_request_bytes [OF assms] del: le_store_numeral)
  moreover have "rta_parse (drop 24 (newaddr_request ifindex ifname ip prefix pn))
        = [(IFA_LOCAL, le_store 4 ip), (IFA_ADDRESS, le_store 4 ip), (IFA_LABEL, label_bytes ifname)]"
    using label rta_parse_bytes [of "label_bytes ifname" IFA_LABEL "[]"]
    by (simp add: newaddr_request_bytes [OF assms] rta_parse_bytes del: le_store_numeral)
  moreover have "get32 0 (newroute_request ifindex gw pn) = 44"
    unfolding newroute_request_bytes nlmsg_bytes_def append_assoc
    by (rule get32_header [where a = "[]"]) simp_all
  moreover have "length (newroute_request ifindex gw pn) = 44"
    by (simp add: newroute_request_bytes del: le_store_numeral)
  moreover have "rta_parse (drop 28 (newroute_request ifindex gw pn))
        = [(RTA_GATEWAY, le_store 4 gw), (RTA_OIF, le_store 4 ifindex)]"
    using rta_parse_bytes [of "le_store 4 ifindex" RTA_OIF "[]"]
    by (simp add: newroute_request_bytes rta_parse_bytes del: le_store_numeral)
  ultimately show ?thesis by (simp only: of_nat_numeral)
qed

theorem netlink_requests_witness:
  "rta_parse (drop 24 (newaddr_request 2 ''eth0'' 7 24 1))
     = [(IFA_LOCAL, [7, 0, 0, 0]), (IFA_ADDRESS, [7, 0, 0, 0]), (IFA_LABEL, [101, 116, 104, 48, 0])]"
  using netlink_requests [of "''eth0''" 2 7 24 1 0] by (simp add: label_bytes_def)

text \<open>\<open>nl_recv_ack\<close> on an answer that is a sequence of well-formed messages decides by the first
  message with the right sequence number that is an error report or the end marker, whatever the
  rest of the buffer holds, and does not read past the buffer.\<close>

theorem netlink_answer:
  assumes "buf = concat (map nl_msg ms) @ rest" "list_all nl_msg_ok ms" "length buf \<le> 8192"
  shows "nl_walk buf seq 0 (int (length (concat (map nl_msg ms)))) = Some (nl_verdict seq ms)"
  using nl_walk_messages [where pre = "[]", OF _ assms(2,3) refl, of rest seq] assms(1) by simp

theorem netlink_answer_witness:
  "nl_walk (concat (map nl_msg [(16, 7, []), (2, 100, [0, 0, 0, 0])]) @ replicate 10 0) 100 0 36 = Some NlAcked"
  using netlink_answer [OF refl, of "[(16, 7, []), (2, 100, [0, 0, 0, 0])]" "replicate 10 0" 100]
  by (simp add: nl_msg_ok_def get32_def)

section \<open>Deviations\<close>

text \<open>The parsed timeout has no influence on the run.\<close>

lemma timeout_ignored:
  "edhcpc_main [''-i'', ifname, ''--timeout'', t] w = edhcpc_main [''-i'', ifname] w"
  by (simp add: edhcpc_main_def)

text \<open>A datagram of 17 bytes with one message of another sequence number: the remaining length
  becomes -3, which the cast makes large, and an acknowledgement left in the buffer by an earlier
  datagram is taken for the answer.\<close>

lemma stale_acknowledgement:
  "nl_walk (nlmsg_bytes 17 0 0 7 0 @ [0, 0, 0, 0] @ nl_msg (NLMSG_ERROR, 100, [0, 0, 0, 0])) 100 0 17 = Some NlAcked"
  by (subst nl_walk.simps, simp add: nlmsg_bytes_def nl_msg_def get32_def get16_def nlmsg_align_def)
     (subst nl_walk.simps, simp add: get32_def get16_def)

text \<open>If only the second name server is non-zero, the file names 0.0.0.0 instead of it.\<close>

lemma second_server_lost:
  assumes "dns_count ack = 2" "dns ack = [0, d]" "d \<noteq> 0"
  shows "case_prod resolv_text (lease_dns ack offer) = ''nameserver 0.0.0.0'' @ [NL]"
  using assms by (simp add: lease_dns_def resolv_text_def inet_ntoa_def show_nat.simps digit_char_def char_of_def bit_Suc_0_iff)

end
