(* ===== verification/INST_Plan.thy ===== *)
theory INST_Plan
  imports Prelude
begin

unbundle bit_operations_syntax

text \<open>
  The partition planner of \<^verbatim>\<open>src/tools/install-eclipse/install-eclipse.c\<close>: the enumerations
  and structures it works on, the alignment helpers, \<open>last_partitionable_lba\<close>,
  \<open>sectors_from_start\<close> and \<open>build_partition_plan\<close>, with the labels and the menu parser that the
  dialogue around it uses. Sector numbers are 64-bit words. The argument \<open>ex\<close> of the definitions that look
  for an image tells which paths \<open>stat\<close> finds.

  The lemmas compute the plan as natural numbers: for a disk whose size in bytes fits 64 bits
  none of the arithmetic wraps, so every plan that is returned is a sequence of aligned, disjoint
  partitions that ends exactly at the last sector the partition table leaves free.
\<close>

section \<open>Data\<close>

datatype install_mode = MODE_UNSET | MODE_NEW | MODE_UPGRADE
datatype layout_mode = LAYOUT_UNSET | LAYOUT_SIMPLE | LAYOUT_ADVANCED
datatype table_mode = TABLE_UNSET | TABLE_MBR | TABLE_GPT

text \<open>\<open>struct partition_plan\<close>; \<open>NULL\<close> image paths are \<open>None\<close>.\<close>

record partition_plan =
  pname :: string
  start_sector :: u64
  sectors :: u64
  mbr_type :: byte
  gpt_type :: string
  image_path :: "string option"
  write_image :: bool
  verify_after_write :: bool

abbreviation SECTOR_SIZE :: u64 where "SECTOR_SIZE \<equiv> 512"
abbreviation PART1_START :: u64 where "PART1_START \<equiv> 2048"
abbreviation PART1_SECTORS :: u64 where "PART1_SECTORS \<equiv> 2097152"
abbreviation GPT_BACKUP_RESERVED_SECTORS :: u64 where "GPT_BACKUP_RESERVED_SECTORS \<equiv> 34"
abbreviation GIB :: u64 where "GIB \<equiv> 1073741824"

definition GPT_ESP_TYPE :: string where
  "GPT_ESP_TYPE = ''C12A7328-F81F-11D2-BA4B-00A0C93EC93B''"

definition GPT_LINUX_TYPE :: string where
  "GPT_LINUX_TYPE = ''0FC63DAF-8483-4772-8E79-3D69D8477DE4''"

definition GPT_SWAP_TYPE :: string where
  "GPT_SWAP_TYPE = ''0657FD6D-A4AB-43C4-84E5-0933C84B4F4F''"

text \<open>The messages before which \<open>build_partition_plan\<close> returns -1.\<close>

datatype plan_error = Disk_too_small | Disk_too_small_GPT | No_room_ROOT | Too_small_advanced
  | No_room_ROOT_advanced | No_room_HOME_advanced

section \<open>Helpers\<close>

definition resolve_image_path :: "(string \<Rightarrow> bool) \<Rightarrow> string \<Rightarrow> string" where
  "resolve_image_path ex path =
     (if take 6 path = ''/boot/''
      then
        let a = take 255 (''ignored/target/'' @ drop 6 path) in
        if ex a then a
        else
          let b = take 255 (''rootfs/x86_64'' @ path) in
          if ex b then b
          else
            let c = take 255 (''boot/'' @ drop 6 path) in
            if ex c then c else path
      else path)"

abbreviation EFI_IMAGE_GZ :: "(string \<Rightarrow> bool) \<Rightarrow> string" where
  "EFI_IMAGE_GZ ex \<equiv> resolve_image_path ex ''/boot/efi.img.gz''"

abbreviation ROOTFS_IMAGE_GZ :: "(string \<Rightarrow> bool) \<Rightarrow> string" where
  "ROOTFS_IMAGE_GZ ex \<equiv> resolve_image_path ex ''/boot/rootfs.btrfs.gz''"

abbreviation HOME_IMAGE_GZ :: "(string \<Rightarrow> bool) \<Rightarrow> string" where
  "HOME_IMAGE_GZ ex \<equiv> resolve_image_path ex ''/boot/home.btrfs.gz''"

text \<open>\<open>parse_menu_index\<close>: 0 for an empty answer, -1 for a rejected one, 1 with the index.\<close>

definition parse_menu_index :: "string \<Rightarrow> int \<Rightarrow> int \<times> int option" where
  "parse_menu_index input max_value =
     (if input = [] then (0, None)
      else
        let (v, rest) = strtol_end input in
        if rest \<noteq> [] \<or> v < 1 \<or> v > max_value then (-1, None) else (1, Some v))"

definition align_up_u64 :: "u64 \<Rightarrow> u64 \<Rightarrow> u64" where
  "align_up_u64 v alignment =
     (if alignment = 0 then v
      else let rem = v mod alignment in if rem = 0 then v else v + (alignment - rem))"

definition align_down_u64 :: "u64 \<Rightarrow> u64 \<Rightarrow> u64" where
  "align_down_u64 v alignment = (if alignment = 0 then v else v - v mod alignment)"

fun mode_label :: "install_mode \<Rightarrow> string" where
  "mode_label MODE_NEW = ''Nueva instalaci'' @ [CHR 0xC3, CHR 0xB3] @ ''n''"
| "mode_label MODE_UPGRADE = ''Actualizaci'' @ [CHR 0xC3, CHR 0xB3] @ ''n''"
| "mode_label MODE_UNSET = ''Sin definir''"

definition part1_size_label :: string where
  "part1_size_label =
     (if (1024::nat) \<ge> 1024 \<and> (1024::nat) mod 1024 = 0 then show_nat (1024 div 1024) @ '' GB''
      else show_nat 1024 @ '' MB'')"

fun layout_label :: "layout_mode \<Rightarrow> string" where
  "layout_label LAYOUT_SIMPLE = ''Simple (EFI '' @ part1_size_label @ '' + ROOT resto)''"
| "layout_label LAYOUT_ADVANCED = ''Avanzado (EFI '' @ part1_size_label @ '' + ROOT + HOME + SWAP)''"
| "layout_label LAYOUT_UNSET = ''Sin definir''"

fun table_label :: "table_mode \<Rightarrow> string" where
  "table_label TABLE_MBR = ''MBR/BIOS''"
| "table_label TABLE_GPT = ''GPT/UEFI''"
| "table_label TABLE_UNSET = ''Sin cambios''"

section \<open>The planner\<close>

definition last_partitionable_lba :: "u64 \<Rightarrow> table_mode \<Rightarrow> u64" where
  "last_partitionable_lba disk_sectors table =
     (if table = TABLE_GPT \<and> disk_sectors > GPT_BACKUP_RESERVED_SECTORS
      then disk_sectors - GPT_BACKUP_RESERVED_SECTORS
      else disk_sectors - 1)"

definition sectors_from_start :: "u64 \<Rightarrow> u64 \<Rightarrow> table_mode \<Rightarrow> u64" where
  "sectors_from_start disk_sectors start table =
     (let last_lba = last_partitionable_lba disk_sectors table in
      if start > last_lba then 0 else last_lba - start + 1)"

definition plan_EFI :: "(string \<Rightarrow> bool) \<Rightarrow> partition_plan" where
  "plan_EFI ex = \<lparr>pname = ''EFI'', start_sector = PART1_START, sectors = PART1_SECTORS, mbr_type = 0xEF,
     gpt_type = GPT_ESP_TYPE, image_path = Some (EFI_IMAGE_GZ ex), write_image = True,
     verify_after_write = True\<rparr>"

definition plan_ROOT :: "(string \<Rightarrow> bool) \<Rightarrow> u64 \<Rightarrow> u64 \<Rightarrow> partition_plan" where
  "plan_ROOT ex start n = \<lparr>pname = ''ROOT'', start_sector = start, sectors = n, mbr_type = 0x83,
     gpt_type = GPT_LINUX_TYPE, image_path = Some (ROOTFS_IMAGE_GZ ex), write_image = True,
     verify_after_write = True\<rparr>"

definition plan_HOME :: "u64 \<Rightarrow> u64 \<Rightarrow> partition_plan" where
  "plan_HOME start n = \<lparr>pname = ''HOME'', start_sector = start, sectors = n, mbr_type = 0x83,
     gpt_type = GPT_LINUX_TYPE, image_path = None, write_image = False, verify_after_write = False\<rparr>"

definition plan_SWAP :: "u64 \<Rightarrow> u64 \<Rightarrow> partition_plan" where
  "plan_SWAP start n = \<lparr>pname = ''SWAP'', start_sector = start, sectors = n, mbr_type = 0x82,
     gpt_type = GPT_SWAP_TYPE, image_path = None, write_image = False, verify_after_write = False\<rparr>"

text \<open>The swap and root sizes the advanced layout asks for.\<close>

definition swap_target :: "u64 \<Rightarrow> u64" where
  "swap_target disk_sectors =
     (let t = disk_sectors * 5 div 100; max_swap = 2 * GIB div SECTOR_SIZE
      in align_up_u64 (if t > max_swap then max_swap else t) 2048)"

definition root_target :: "u64 \<Rightarrow> u64 \<Rightarrow> u64 \<Rightarrow> u64" where
  "root_target disk_sectors last_lba next_start =
     align_up_u64
       (if disk_sectors * SECTOR_SIZE \<ge> 30 * GIB then 10 * GIB div SECTOR_SIZE
        else (last_lba + 1 - next_start) div 2) 2048"

definition build_partition_plan ::
  "(string \<Rightarrow> bool) \<Rightarrow> layout_mode \<Rightarrow> table_mode \<Rightarrow> u64 \<Rightarrow> plan_error + partition_plan list \<times> string" where
  "build_partition_plan ex layout table disk_sectors =
     (let last_lba = last_partitionable_lba disk_sectors table in
      if disk_sectors < PART1_START + PART1_SECTORS + 4096 then Inl Disk_too_small
      else if table = TABLE_GPT \<and> last_lba < PART1_START + PART1_SECTORS + 2048 then Inl Disk_too_small_GPT
      else
        let next_start = align_up_u64 (start_sector (plan_EFI ex) + sectors (plan_EFI ex)) 2048 in
        if layout = LAYOUT_SIMPLE
        then
          let n = sectors_from_start disk_sectors next_start table in
          if n < 2048 then Inl No_room_ROOT
          else Inr ([plan_EFI ex, plan_ROOT ex next_start n],
            ''Simple (EFI '' @ part1_size_label @ '' + ROOT resto)'')
        else
          let swap_t = swap_target disk_sectors;
              root_t = root_target disk_sectors last_lba next_start;
              swap_start = align_down_u64 (last_lba + 1 - swap_t) 2048
          in if swap_start \<le> next_start + 4096 then Inl Too_small_advanced
             else
               let root_t = (if next_start + root_t + 2048 \<ge> swap_start
                             then align_down_u64 ((swap_start - next_start) div 2) 2048 else root_t)
               in if root_t < 2048 then Inl No_room_ROOT_advanced
                  else
                    let home_start = align_up_u64 (next_start + root_t) 2048 in
                    if home_start \<ge> swap_start then Inl No_room_HOME_advanced
                    else Inr ([plan_EFI ex, plan_ROOT ex next_start root_t,
                        plan_HOME home_start (swap_start - home_start),
                        plan_SWAP swap_start (last_lba - swap_start + 1)],
                      ''Avanzado (EFI '' @ part1_size_label @ '' + ROOT + HOME + SWAP)''))"

section \<open>Arithmetic without wrap-around\<close>

named_theorems unat_arith_simps \<open>unsigned arithmetic that does not wrap\<close>

lemma unat_add_no_wrap [unat_arith_simps]: "unat a + unat b < 2 ^ 64 \<Longrightarrow> unat (a + b) = unat a + unat b" for a b :: u64
  by (simp add: unat_word_ariths)

lemma unat_mult_no_wrap [unat_arith_simps]: "unat a * unat b < 2 ^ 64 \<Longrightarrow> unat (a * b) = unat a * unat b" for a b :: u64
  by (simp add: unat_word_ariths)

lemma unat_sub_no_wrap [unat_arith_simps]: "unat b \<le> unat a \<Longrightarrow> unat (a - b) = unat a - unat b" for a b :: u64
  by (simp add: unat_sub word_le_nat_alt)

definition nat_up :: "nat \<Rightarrow> nat" where "nat_up v = (v + 2047) div 2048 * 2048"
definition nat_down :: "nat \<Rightarrow> nat" where "nat_down v = v div 2048 * 2048"

lemma nat_up_bounds: "v \<le> nat_up v" "nat_up v < v + 2048" "nat_up v mod 2048 = 0"
  using div_mult_mod_eq [of "v + 2047" 2048] mod_less_divisor [of 2048 "v + 2047"] by (simp_all add: nat_up_def)

lemma nat_down_bounds: "nat_down v \<le> v" "v < nat_down v + 2048" "nat_down v mod 2048 = 0"
  using div_mult_mod_eq [of v 2048] mod_less_divisor [of 2048 v] by (simp_all add: nat_down_def)

lemma nat_up_id: "v mod 2048 = 0 \<Longrightarrow> nat_up v = v"
  by (auto simp: nat_up_def dest!: mod_0_imp_dvd)

lemma nat_up_eq: "v mod 2048 \<noteq> 0 \<Longrightarrow> nat_up v = v + (2048 - v mod 2048)"
proof -
  assume r: "v mod 2048 \<noteq> 0"
  obtain q t where v: "v = q * 2048 + t" "t < 2048" "v mod 2048 = t"
    by (metis div_mult_mod_eq mod_less_divisor zero_less_numeral)
  then have "v + 2047 = (q + 1) * 2048 + (t - 1)" using r by simp
  then have "(v + 2047) div 2048 = q + 1"
    using v(2) by (metis add.commute div_mult_self3 div_less add_0 less_imp_diff_less zero_neq_numeral)
  then show ?thesis using v by (simp add: nat_up_def)
qed

lemma unat_align_down: "unat (align_down_u64 v 2048) = nat_down (unat v)"
  by (simp add: align_down_u64_def nat_down_def unat_sub word_le_nat_alt unat_mod del: minus_mod_eq_div_mult)
     (simp add: minus_mod_eq_div_mult)

lemma unat_align_up: "unat v < 2 ^ 63 \<Longrightarrow> unat (align_up_u64 v 2048) = nat_up (unat v)"
proof -
  assume v: "unat v < 2 ^ 63"
  let ?r = "unat v mod 2048"
  have r: "?r < 2048" by simp
  have z: "v mod 2048 = 0 \<longleftrightarrow> ?r = 0" by (simp add: unat_mod flip: unat_eq_0)
  show ?thesis
  proof (cases "?r = 0")
    case True
    with z show ?thesis by (simp add: align_up_u64_def nat_up_id)
  next
    case False
    have s: "unat (2048 - v mod 2048) = 2048 - ?r"
      by (subst unat_sub) (use r in \<open>auto simp: word_le_nat_alt unat_mod\<close>)
    have "nat_up (unat v) = unat v + (2048 - ?r)"
      using False by (rule nat_up_eq)
    moreover have "unat (v + (2048 - v mod 2048)) = unat v + (2048 - ?r)"
      using v r by (subst unat_add_no_wrap) (simp_all add: s)
    ultimately show ?thesis using False z by (simp add: align_up_u64_def)
  qed
qed

section \<open>The plan in natural numbers\<close>

definition nat_last :: "table_mode \<Rightarrow> nat \<Rightarrow> nat" where
  "nat_last table n = (if table = TABLE_GPT then n - 34 else n - 1)"

definition nat_swap :: "nat \<Rightarrow> nat" where
  "nat_swap n = nat_up (min (n * 5 div 100) 4194304)"

definition nat_root :: "nat \<Rightarrow> nat \<Rightarrow> nat" where
  "nat_root n L = nat_up (if n * 512 \<ge> 30 * 1073741824 then 20971520 else (L + 1 - 2099200) div 2)"

text \<open>A disk size in sectors that the planner does not refuse at once.\<close>

definition plannable :: "u64 \<Rightarrow> bool" where
  "plannable d \<longleftrightarrow> 2103296 \<le> unat d \<and> unat d < 2 ^ 55"

lemma unat_last: "plannable d \<Longrightarrow> unat (last_partitionable_lba d table) = nat_last table (unat d)"
  by (auto simp: plannable_def last_partitionable_lba_def nat_last_def unat_sub_no_wrap word_less_nat_alt)

lemma last_bounds: "plannable d \<Longrightarrow> nat_last table (unat d) < unat d \<and> unat d - 34 \<le> nat_last table (unat d)"
  by (auto simp: plannable_def nat_last_def)

lemma unat_swap: "plannable d \<Longrightarrow> unat (swap_target d) = nat_swap (unat d)"
proof -
  assume p: "plannable d"
  have "unat (d * 5) = unat d * 5"
    using p by (subst unat_mult_no_wrap) (simp_all add: plannable_def)
  then have t: "unat (d * 5 div 100) = unat d * 5 div 100" by (simp add: unat_div)
  have m: "unat (if d * 5 div 100 > 4194304 then 4194304 else d * 5 div 100) = min (unat d * 5 div 100) 4194304"
    using t by (auto simp: word_less_nat_alt min_def)
  have "swap_target d = align_up_u64 (if d * 5 div 100 > 4194304 then 4194304 else d * 5 div 100) 2048"
    by (simp add: swap_target_def)
  then show ?thesis
    using unat_align_up [of "if d * 5 div 100 > 4194304 then 4194304 else d * 5 div 100"] m
    by (simp add: nat_swap_def)
qed

lemma unat_root:
  assumes p: "plannable d" and L: "unat L = nat_last table (unat d)"
  shows "unat (root_target d L 2099200) = nat_root (unat d) (unat L)"
proof -
  have l: "unat L < unat d" "unat d - 34 \<le> unat L" using last_bounds [OF p, of table] L by auto
  have "unat (d * 512) = unat d * 512"
    using p by (subst unat_mult_no_wrap) (simp_all add: plannable_def)
  then have c: "d * 512 \<ge> 32212254720 \<longleftrightarrow> unat d * 512 \<ge> 32212254720" by (simp add: word_le_nat_alt)
  have L1: "unat (L + 1) = unat L + 1"
    using p l by (subst unat_add_no_wrap) (simp_all add: plannable_def)
  have r: "unat ((L + 1 - 2099200) div 2) = (unat L + 1 - 2099200) div 2"
  proof -
    have "unat (L + 1 - 2099200) = unat L + 1 - 2099200"
      using p l by (subst unat_sub_no_wrap) (auto simp: L1 plannable_def)
    then show ?thesis by (simp only: unat_div) simp
  qed
  let ?t = "if d * 512 \<ge> 32212254720 then 20971520 else (L + 1 - 2099200) div 2"
  have m: "unat ?t = (if unat d * 512 \<ge> 32212254720 then 20971520 else (unat L + 1 - 2099200) div 2)"
    using c r by auto
  moreover have "root_target d L 2099200 = align_up_u64 ?t 2048" by (simp add: root_target_def)
  moreover have "unat ?t < 2 ^ 63" using m l p by (auto simp: plannable_def)
  ultimately show ?thesis by (simp add: unat_align_up nat_root_def)
qed

lemma swap_bound: "plannable d \<Longrightarrow> 105164 \<le> nat_swap (unat d) \<and> nat_swap (unat d) * 20 < unat d + 40960"
  using nat_up_bounds [of "min (unat d * 5 div 100) 4194304"]
  by (auto simp: plannable_def nat_swap_def min_def)

text \<open>Where swap begins.\<close>

lemma unat_swap_start:
  assumes p: "plannable d" and L: "L = last_partitionable_lba d table"
  shows "unat (align_down_u64 (L + 1 - swap_target d) 2048) = nat_down (unat L + 1 - nat_swap (unat d))"
proof -
  have l: "unat L < unat d" "unat d - 34 \<le> unat L"
    using last_bounds [OF p, of table] unat_last [OF p, of table] L by auto
  have L1: "unat (L + 1) = unat L + 1"
    using p l by (subst unat_add_no_wrap) (simp_all add: plannable_def)
  have "unat (L + 1 - swap_target d) = unat L + 1 - nat_swap (unat d)"
    using swap_bound [OF p] p l by (subst unat_sub_no_wrap) (auto simp: L1 unat_swap [OF p] plannable_def)
  then show ?thesis by (simp add: unat_align_down)
qed

section \<open>What the planner returns\<close>

definition part_end :: "partition_plan \<Rightarrow> nat" where
  "part_end p = unat (start_sector p) + unat (sectors p)"

text \<open>Aligned, non-empty partitions in disk order, without overlap, that start after the first
  2048 sectors and end with sector \<open>L\<close>.\<close>

definition plan_fits :: "nat \<Rightarrow> partition_plan list \<Rightarrow> bool" where
  "plan_fits L ps \<longleftrightarrow>
     list_all (\<lambda>p. unat (start_sector p) mod 2048 = 0 \<and> 2048 \<le> unat (start_sector p) \<and> 2048 \<le> unat (sectors p)) ps \<and>
     sorted_wrt (\<lambda>p q. part_end p \<le> unat (start_sector q)) ps \<and> part_end (last ps) = L + 1"

lemma sectors_plannable: "2103296 \<le> unat (size div 512) \<Longrightarrow> plannable (size div 512)" for size :: u64
  using unsigned_less [of size, where 'a = nat] by (simp add: plannable_def unat_div)

lemma plan_next_start: "align_up_u64 (start_sector (plan_EFI ex) + sectors (plan_EFI ex)) 2048 = 2099200"
  by (simp add: plan_EFI_def align_up_u64_def)

lemma plan_checks:
  assumes p: "plannable d"
  shows "\<not> d < PART1_START + PART1_SECTORS + 4096"
    "\<not> last_partitionable_lba d table < PART1_START + PART1_SECTORS + 2048"
    "unat (sectors_from_start d 2099200 table) = nat_last table (unat d) + 1 - 2099200"
proof -
  let ?L = "last_partitionable_lba d table"
  have l: "unat ?L = nat_last table (unat d)" "unat ?L < unat d" "unat d - 34 \<le> unat ?L"
    using last_bounds [OF p, of table] unat_last [OF p, of table] by auto
  then show "\<not> d < PART1_START + PART1_SECTORS + 4096" "\<not> ?L < PART1_START + PART1_SECTORS + 2048"
    using p by (auto simp: plannable_def word_less_nat_alt)
  have s: "unat (?L - 2099200) = unat ?L - 2099200"
    using l p by (subst unat_sub_no_wrap) (auto simp: plannable_def)
  have "unat (?L - 2099200 + 1) = unat ?L - 2099200 + 1"
    using l p by (subst unat_add_no_wrap) (auto simp: plannable_def s)
  then show "unat (sectors_from_start d 2099200 table) = nat_last table (unat d) + 1 - 2099200"
    using l p by (auto simp: sectors_from_start_def word_less_nat_alt plannable_def)
qed

lemma plan_simple:
  assumes p: "plannable d"
  shows "\<exists>root. build_partition_plan ex LAYOUT_SIMPLE table d =
      Inr ([plan_EFI ex, plan_ROOT ex 2099200 root], layout_label LAYOUT_SIMPLE) \<and>
    unat root = nat_last table (unat d) + 1 - 2099200 \<and> 2048 \<le> unat root"
proof -
  let ?n = "sectors_from_start d 2099200 table"
  have n: "2048 \<le> unat ?n"
    using plan_checks(3) [OF p, of table] last_bounds [OF p, of table] p by (auto simp: plannable_def)
  then have "\<not> ?n < 2048" by (simp add: word_less_nat_alt)
  with plan_checks [OF p] plan_next_start have
    "build_partition_plan ex LAYOUT_SIMPLE table d =
      Inr ([plan_EFI ex, plan_ROOT ex 2099200 ?n], layout_label LAYOUT_SIMPLE)"
    by (simp add: build_partition_plan_def)
  then show ?thesis using plan_checks(3) [OF p, of table] n by blast
qed

text \<open>The partition sizes of the advanced layout, given where swap starts.\<close>

definition adv_root :: "nat \<Rightarrow> nat \<Rightarrow> nat" where
  "adv_root r s = (if 2099200 + r + 2048 \<ge> s then nat_down ((s - 2099200) div 2) else r)"

lemma adv_root_bounds:
  assumes "s mod 2048 = 0" "2103296 < s" "2048 \<le> r" "r mod 2048 = 0"
  shows "2048 \<le> adv_root r s" "2099200 + adv_root r s < s" "adv_root r s mod 2048 = 0"
    "2048 \<le> s - (2099200 + adv_root r s)"
proof -
  let ?h = "(s - 2099200) div 2"
  from assms(1) obtain k where k: "s = k * 2048" by (metis mod_0_imp_dvd dvd_def mult.commute)
  with assms(2) have s: "2105344 \<le> s" by simp
  have h: "nat_down ?h \<le> ?h" "?h < nat_down ?h + 2048" "nat_down ?h mod 2048 = 0" by (rule nat_down_bounds)+
  show "2048 \<le> adv_root r s" "adv_root r s mod 2048 = 0"
    using assms h s by (auto simp: adv_root_def nat_down_def)
  show "2099200 + adv_root r s < s" "2048 \<le> s - (2099200 + adv_root r s)"
    using assms h s by (auto simp: adv_root_def)
qed

lemma unat_adv_root:
  assumes "2103296 < unat s" "unat r < 2 ^ 56" "unat s < 2 ^ 56"
  shows "unat (if 2099200 + r + 2048 \<ge> s then align_down_u64 ((s - 2099200) div 2) 2048 else r) =
    adv_root (unat r) (unat s)"
proof -
  have "unat (2099200 + r) = 2099200 + unat r"
    using assms by (subst unat_add_no_wrap) auto
  then have "unat (2099200 + r + 2048) = 2099200 + unat r + 2048"
    using assms by (subst unat_add_no_wrap) auto
  moreover have "unat ((s - 2099200) div 2) = (unat s - 2099200) div 2"
  proof -
    have "unat (s - 2099200) = unat s - 2099200" using assms by (subst unat_sub_no_wrap) auto
    then show ?thesis by (simp only: unat_div) simp
  qed
  ultimately show ?thesis by (simp only: adv_root_def word_le_nat_alt unat_align_down if_distrib [of unat])
qed

lemma root_bounds:
  assumes p: "plannable d"
  shows "2048 \<le> nat_root (unat d) (nat_last table (unat d))" "nat_root (unat d) (nat_last table (unat d)) < 2 ^ 56"
    "nat_root (unat d) (nat_last table (unat d)) mod 2048 = 0"
proof -
  let ?t = "if unat d * 512 \<ge> 30 * 1073741824 then 20971520 else (nat_last table (unat d) + 1 - 2099200) div 2"
  have "2031 \<le> ?t" "?t < 2 ^ 55"
    using last_bounds [OF p, of table] p by (auto simp: plannable_def)
  then show "2048 \<le> nat_root (unat d) (nat_last table (unat d))" "nat_root (unat d) (nat_last table (unat d)) < 2 ^ 56"
    "nat_root (unat d) (nat_last table (unat d)) mod 2048 = 0"
    using nat_up_bounds [of ?t] by (auto simp: nat_root_def nat_up_def)
qed

lemma plan_advanced:
  fixes table :: table_mode and d :: u64
  defines "L \<equiv> nat_last table (unat d)"
  defines "s \<equiv> nat_down (L + 1 - nat_swap (unat d))"
  defines "r \<equiv> adv_root (nat_root (unat d) L) s"
  assumes p: "plannable d" and l: "layout \<noteq> LAYOUT_SIMPLE"
  shows "if s \<le> 2103296 then build_partition_plan ex layout table d = Inl Too_small_advanced
    else \<exists>root home homen swap swapn.
      build_partition_plan ex layout table d =
        Inr ([plan_EFI ex, plan_ROOT ex 2099200 root, plan_HOME home homen, plan_SWAP swap swapn],
          layout_label LAYOUT_ADVANCED) \<and>
      unat root = r \<and> unat home = 2099200 + r \<and> unat homen = s - (2099200 + r) \<and> unat swap = s \<and>
      unat swapn = L + 1 - s"
proof -
  let ?L = "last_partitionable_lba d table"
  let ?s = "align_down_u64 (?L + 1 - swap_target d) 2048"
  let ?t = "root_target d ?L 2099200"
  let ?r = "if 2099200 + ?t + 2048 \<ge> ?s then align_down_u64 ((?s - 2099200) div 2) 2048 else ?t"
  let ?h = "align_up_u64 (2099200 + ?r) 2048"
  have L: "unat ?L = L" "L < unat d" "unat d - 34 \<le> L"
    using last_bounds [OF p, of table] unat_last [OF p, of table] by (auto simp: L_def)
  have s: "unat ?s = s"
    using unat_swap_start [OF p refl, of table] L by (simp add: s_def)
  have sb: "s mod 2048 = 0" "s \<le> L + 1"
    using nat_down_bounds [of "L + 1 - nat_swap (unat d)"] by (auto simp: s_def)
  have t: "unat ?t = nat_root (unat d) L" "2048 \<le> nat_root (unat d) L" "nat_root (unat d) L < 2 ^ 56"
      "nat_root (unat d) L mod 2048 = 0"
    using unat_root [OF p, of ?L table] root_bounds [OF p, of table] L by (simp_all add: L_def)
  have chk: "\<not> d < PART1_START + PART1_SECTORS + 4096" "\<not> ?L < PART1_START + PART1_SECTORS + 2048"
    using plan_checks [OF p] by auto
  have small: "?s \<le> 2099200 + 4096 \<longleftrightarrow> s \<le> 2103296" using s by (simp add: word_le_nat_alt)
  show ?thesis
  proof (cases "s \<le> 2103296")
    case True
    then show ?thesis
      using chk small l by (simp add: build_partition_plan_def plan_next_start)
  next
    case False
    have d: "unat d < 2 ^ 55" using p by (simp add: plannable_def)
    have r: "unat ?r = r"
      using unat_adv_root [of ?s ?t] s sb L t False d by (simp add: r_def)
    have rb: "2048 \<le> r" "2099200 + r < s" "r mod 2048 = 0"
      using adv_root_bounds [OF sb(1) _ t(2) t(4)] False by (simp_all add: r_def)
    have "unat (2099200 + ?r) = 2099200 + r"
      using rb sb L d by (subst unat_add_no_wrap) (simp_all only: r, auto)
    moreover have "nat_up (2099200 + r) = 2099200 + r"
      by (rule nat_up_id) (use rb(3) in \<open>simp add: mod_add_left_eq [symmetric]\<close>)
    ultimately have h: "unat ?h = 2099200 + r"
      using rb sb L d by (simp add: unat_align_up)
    have hn: "unat (?s - ?h) = s - (2099200 + r)"
      using h s rb by (simp only: unat_sub_no_wrap)
    have c: "\<not> ?r < 2048" "\<not> ?h \<ge> ?s"
      unfolding word_less_nat_alt [of ?r 2048] word_le_nat_alt [of ?s ?h] r h s using rb by simp_all
    have swp: "unat (?L - ?s + 1) = L + 1 - s"
    proof (cases "s = L + 1")
      case True
      then have "?s = ?L + 1"
        using s L d by (intro word_unat_eq_iff [THEN iffD2]) (subst unat_add_no_wrap, auto)
      then show ?thesis using True by simp
    next
      case False
      then have "unat (?L - ?s) = L - s" using s L sb by (simp add: unat_sub_no_wrap)
      then show ?thesis using False sb L d by (subst unat_add_no_wrap) auto
    qed
    have "build_partition_plan ex layout table d =
        Inr ([plan_EFI ex, plan_ROOT ex 2099200 ?r, plan_HOME ?h (?s - ?h), plan_SWAP ?s (?L - ?s + 1)],
          layout_label LAYOUT_ADVANCED)"
      using chk small False l c
      unfolding build_partition_plan_def plan_next_start Let_def layout_label.simps by (simp only: if_False simp_thms)
    then show ?thesis using False r h hn s swp by (simp only: if_False) blast
  qed
qed

text \<open>The two shapes of a plan.\<close>

definition sectors_of :: "u64 \<Rightarrow> nat" where
  "sectors_of size_bytes = unat size_bytes div 512"

lemma unat_sectors: "unat (size_bytes div 512 :: u64) = sectors_of size_bytes"
  by (simp add: sectors_of_def unat_div)

lemma plan_small:
  "sectors_of size_bytes < 2103296 \<Longrightarrow> build_partition_plan ex layout table (size_bytes div 512) = Inl Disk_too_small"
  by (simp add: build_partition_plan_def word_less_nat_alt unat_sectors)

definition plan_form :: "(string \<Rightarrow> bool) \<Rightarrow> layout_mode \<Rightarrow> partition_plan list \<Rightarrow> bool" where
  "plan_form ex layout ps \<longleftrightarrow>
     (\<exists>root home homen swap swapn.
        ps = (if layout = LAYOUT_SIMPLE then [plan_EFI ex, plan_ROOT ex 2099200 root]
              else [plan_EFI ex, plan_ROOT ex 2099200 root, plan_HOME home homen, plan_SWAP swap swapn]) \<and>
        2099200 \<le> unat home \<and> 2099200 \<le> unat swap)"

lemma plan_shape:
  assumes "build_partition_plan ex layout table (size_bytes div 512) = Inr (ps, lbl)"
  defines "L \<equiv> nat_last table (sectors_of size_bytes)"
  shows "plan_form ex layout ps"
    and "plan_fits L ps" "2103296 \<le> sectors_of size_bytes" "lbl = layout_label (if layout = LAYOUT_SIMPLE then LAYOUT_SIMPLE else LAYOUT_ADVANCED)"
proof -
  let ?d = "size_bytes div 512"
  show m: "2103296 \<le> sectors_of size_bytes"
    using assms(1) plan_small [of size_bytes ex layout table] by force
  then have p: "plannable ?d" by (intro sectors_plannable) (simp add: unat_sectors)
  have L: "L < sectors_of size_bytes" "sectors_of size_bytes - 34 \<le> L" "sectors_of size_bytes < 2 ^ 55"
    using last_bounds [OF p, of table] p by (auto simp: L_def unat_sectors plannable_def)
  have "plan_form ex layout ps \<and> plan_fits L ps \<and>
    lbl = layout_label (if layout = LAYOUT_SIMPLE then LAYOUT_SIMPLE else LAYOUT_ADVANCED)"
  proof (cases "layout = LAYOUT_SIMPLE")
    case True
    with plan_simple [OF p, of ex table] assms(1) obtain n where
      n: "ps = [plan_EFI ex, plan_ROOT ex 2099200 n]" "unat n = L + 1 - 2099200" "2048 \<le> unat n"
        "lbl = layout_label LAYOUT_SIMPLE"
      by (auto simp: L_def unat_sectors)
    then have "plan_fits L ps"
      using L by (simp add: plan_fits_def part_end_def plan_EFI_def plan_ROOT_def)
    moreover have "plan_form ex layout ps"
      unfolding plan_form_def using True n(1) by (intro exI [of _ n] exI [of _ 2099200]) simp
    ultimately show ?thesis using True n(4) by simp
  next
    case False
    define s where "s = nat_down (L + 1 - nat_swap (unat ?d))"
    define r where "r = adv_root (nat_root (unat ?d) L) s"
    note adv = plan_advanced [OF p False, of table ex, unfolded unat_sectors, folded L_def, unfolded unat_sectors [symmetric],
        folded s_def, folded r_def]
    from adv assms(1) obtain root home homen swap swapn where
      ps: "ps = [plan_EFI ex, plan_ROOT ex 2099200 root, plan_HOME home homen, plan_SWAP swap swapn]"
        "lbl = layout_label LAYOUT_ADVANCED"
      and u: "unat root = r" "unat home = 2099200 + r" "unat homen = s - (2099200 + r)" "unat swap = s"
        "unat swapn = L + 1 - s" and s: "2103296 < s"
      by (auto split: if_splits)
    have sb: "s mod 2048 = 0" "s \<le> L + 1 - nat_swap (unat ?d)"
      using nat_down_bounds [of "L + 1 - nat_swap (unat ?d)"] by (auto simp: s_def)
    have t: "2048 \<le> nat_root (unat ?d) L" "nat_root (unat ?d) L mod 2048 = 0"
      using root_bounds [OF p, of table] by (simp_all add: L_def unat_sectors)
    have r: "2048 \<le> r" "2099200 + r < s" "r mod 2048 = 0" "2048 \<le> s - (2099200 + r)"
      using adv_root_bounds [OF sb(1) s t] by (simp_all add: r_def)
    have sw: "105164 \<le> L + 1 - s" using swap_bound [OF p] sb s by auto
    have al: "(2099200 + r) mod 2048 = 0" using r(3) by (simp add: mod_add_left_eq [symmetric])
    have "plan_fits L ps"
      using r sw sb al u by (simp add: plan_fits_def ps part_end_def plan_EFI_def plan_ROOT_def plan_HOME_def plan_SWAP_def)
    moreover have "plan_form ex layout ps"
      unfolding plan_form_def using False ps(1) u r s
      by (intro exI [of _ root] exI [of _ home] exI [of _ homen] exI [of _ swap] exI [of _ swapn]) simp
    ultimately show ?thesis using False ps(2) by simp
  qed
  then show "plan_form ex layout ps" "plan_fits L ps"
    "lbl = layout_label (if layout = LAYOUT_SIMPLE then LAYOUT_SIMPLE else LAYOUT_ADVANCED)" by blast+
qed

end
