(* ===== verification/INST_Disk.thy ===== *)
theory INST_Disk
  imports INST_Plan
begin

unbundle bit_operations_syntax

text \<open>
  The operating system as \<^verbatim>\<open>src/tools/install-eclipse/install-eclipse.c\<close> sees it, and the functions of
  the installer that read and write devices: \<open>get_disk_size_bytes\<close>, \<open>disk_pread_all\<close>,
  \<open>disk_pwrite_all\<close>, \<open>write_disk_lba\<close>, \<open>is_removable_disk\<close>, \<open>partition_dev_path\<close>.

  The state \<open>inst\<close> is threaded explicitly. Each system call that may fail takes the next answer of
  the list \<open>outs\<close>; when the list is used up every further call fails. A theorem about all \<open>inst\<close> therefore
  covers every sequence of failures, interruptions and short transfers of a run that ends; a kernel that
  interrupts one call forever is the only behaviour left out.

  The lemmas show that \<open>disk_pwrite_all\<close> writes the whole buffer and nothing else when it reports
  success, and that it touches nothing outside the buffer's range when it fails.
\<close>

section \<open>State\<close>

text \<open>The answer of a system call: success (with the number of bytes transferred or the value
  returned), \<open>EINTR\<close>, \<open>EINVAL\<close>/\<open>ENOSYS\<close>/\<open>ESPIPE\<close>, or any other error.\<close>

datatype answer = Done nat | Interrupted | Unsupported | Failed

text \<open>\<open>devs\<close> are the contents of the block devices, \<open>dsize\<close> their sizes in bytes, \<open>fs\<close> the regular files,
  \<open>isdir\<close> the directories, \<open>path_env\<close> the value of \<open>PATH\<close>,
  \<open>cmds\<close> the shell commands run so far, \<open>mounts\<close> the file systems that are
  mounted (source, target), \<open>keys\<close> what will be typed at the terminal.\<close>

record inst =
  devs :: "string \<Rightarrow> nat \<Rightarrow> byte"
  dsize :: "string \<Rightarrow> nat"
  fs :: "string \<Rightarrow> byte list option"
  isdir :: "string \<Rightarrow> bool"
  path_env :: "string option"
  cmds :: "string list"
  mounts :: "(string \<times> string) list"
  keys :: string
  outs :: "answer list"

definition ask :: "inst \<Rightarrow> answer \<times> inst" where
  "ask w = (case outs w of [] \<Rightarrow> (Failed, w) | a # r \<Rightarrow> (a, w\<lparr>outs := r\<rparr>))"

definition ask_ok :: "inst \<Rightarrow> bool \<times> inst" where
  "ask_ok w = (let (a, w) = ask w in (case a of Done _ \<Rightarrow> True | _ \<Rightarrow> False, w))"

text \<open>A call that returns a number, or an error.\<close>

definition ask_val :: "inst \<Rightarrow> nat option \<times> inst" where
  "ask_val w = (let (a, w) = ask w in (case a of Done n \<Rightarrow> Some n | _ \<Rightarrow> None, w))"

definition text_of :: "byte list \<Rightarrow> string" where
  "text_of bs = map (\<lambda>b. char_of (unat b)) bs"

definition bytes_of :: "string \<Rightarrow> byte list" where
  "bytes_of s = map (\<lambda>c. of_nat (ord c)) s"

definition struct_file_exists :: "string \<Rightarrow> inst \<Rightarrow> bool" where
  "struct_file_exists path w \<longleftrightarrow> fs w path \<noteq> None \<or> isdir w path"

definition dev_read :: "(nat \<Rightarrow> byte) \<Rightarrow> nat \<Rightarrow> nat \<Rightarrow> byte list" where
  "dev_read f off n = map f [off..<off + n]"

definition dev_write :: "(nat \<Rightarrow> byte) \<Rightarrow> nat \<Rightarrow> byte list \<Rightarrow> nat \<Rightarrow> byte" where
  "dev_write f off bs = (\<lambda>i. if off \<le> i \<and> i < off + length bs then bs ! (i - off) else f i)"

definition put_dev :: "string \<Rightarrow> nat \<Rightarrow> byte list \<Rightarrow> inst \<Rightarrow> inst" where
  "put_dev path off bs w = w\<lparr>devs := (devs w)(path := dev_write (devs w path) off bs)\<rparr>"

section \<open>Strings\<close>

definition trim_newline_inst :: "string \<Rightarrow> string" where
  "trim_newline_inst s = take (strcspn s {CR, NL}) s"

definition trim_leading_ws :: "string \<Rightarrow> string" where
  "trim_leading_ws s = dropWhile (\<lambda>c. c = CHR '' '' \<or> c = CHR 0x09) s"

definition disk_basename :: "string \<Rightarrow> string" where
  "disk_basename path = rev (takeWhile (\<lambda>c. c \<noteq> CHR ''/'') (rev path))"

fun strstr :: "string \<Rightarrow> string \<Rightarrow> bool" where
  "strstr pat [] = (pat = [])"
| "strstr pat (c # s) = (take (length pat) (c # s) = pat \<or> strstr pat s)"

text \<open>\<open>snprintf\<close> into \<open>out_size\<close> bytes fails when the text and its terminator do not fit.\<close>

definition partition_dev_path :: "string \<Rightarrow> int \<Rightarrow> nat \<Rightarrow> string option" where
  "partition_dev_path disk_path part_num out_size =
     (if part_num \<le> 0 then None
      else
        let s = (if strstr ''nvme'' (disk_basename disk_path) then disk_path @ ''p'' @ show_int part_num
                 else disk_path @ show_int part_num)
        in if length s \<ge> out_size then None else Some s)"

section \<open>Sizes\<close>

text \<open>\<open>fscanf(fp, "%llu", &value)\<close> on a file; 0 when the file cannot be opened or has no number.\<close>

definition read_u64_from_file :: "string \<Rightarrow> inst \<Rightarrow> u64 \<times> inst" where
  "read_u64_from_file path w =
     (let (ok, w) = ask_ok w in
      if \<not> ok then (0, w)
      else case fs w path of
             None \<Rightarrow> (0, w)
           | Some bs \<Rightarrow> (case scan_u (text_of bs) of None \<Rightarrow> (0, w) | Some (v, _) \<Rightarrow> (v, w)))"

definition get_disk_size_raw_sysfs :: "string \<Rightarrow> inst \<Rightarrow> u64 \<times> inst" where
  "get_disk_size_raw_sysfs path w = read_u64_from_file (take 255 (''/sys/class/block/'' @ disk_basename path @ ''/size'')) w"

text \<open>How the size found through the descriptor and the number in sysfs are reconciled: sysfs may
  count sectors or bytes, whichever is closer; a difference of more than a twentieth gives the
  smaller one.\<close>

definition abs_diff :: "u64 \<Rightarrow> u64 \<Rightarrow> u64" where
  "abs_diff a b = (if a > b then a - b else b - a)"

definition reconcile_size :: "u64 \<Rightarrow> u64 \<Rightarrow> u64" where
  "reconcile_size sysfs_raw sz =
     (if sysfs_raw = 0 then sz
      else
        let as_sectors = (if sysfs_raw > - 1 div SECTOR_SIZE then 0 else sysfs_raw * SECTOR_SIZE);
            sysfs_size = (if sz > 0 \<and> abs_diff sz sysfs_raw < abs_diff sz as_sectors
                          then sysfs_raw else as_sectors)
        in if sz = 0 then sysfs_size
           else if sysfs_size = 0 then sz
           else if abs_diff sz sysfs_size > sysfs_size div 20
                then (if sz < sysfs_size then sz else sysfs_size)
           else sz)"

text \<open>\<open>ioctl(BLKGETSIZE64)\<close>, then \<open>fstat\<close> (whose answer is the sz of a block device), then
  \<open>lseek(SEEK_END)\<close>.\<close>

definition get_disk_size_bytes :: "string \<Rightarrow> inst \<Rightarrow> u64 \<times> inst" where
  "get_disk_size_bytes path w =
     (let (sysfs_raw, w) = get_disk_size_raw_sysfs path w;
          (ok, w) = ask_ok w
      in if \<not> ok
         then (if sysfs_raw = 0 then 0 else if sysfs_raw > - 1 div SECTOR_SIZE then sysfs_raw
               else sysfs_raw * SECTOR_SIZE, w)
         else
           let (blk, w) = ask_val w;
               sz = (case blk of Some n \<Rightarrow> of_nat n | None \<Rightarrow> 0);
               (sz, w) = (if sz = 0
                            then let (st, w) = ask_val w in (case st of Some n \<Rightarrow> of_nat n | None \<Rightarrow> 0, w)
                            else (sz, w));
               (sz, w) = (if sz = 0
                            then let (pos, w) = ask_val w in (case pos of Some n \<Rightarrow> of_nat n | None \<Rightarrow> 0, w)
                            else (sz, w))
           in (reconcile_size sysfs_raw sz, w))"

definition is_removable_disk :: "string \<Rightarrow> inst \<Rightarrow> bool \<times> inst" where
  "is_removable_disk path w =
     (let (ok, w) = ask_ok w in
      if \<not> ok then (False, w)
      else case fs w (take 255 (''/sys/block/'' @ disk_basename path @ ''/removable'')) of
             None \<Rightarrow> (False, w)
           | Some bs \<Rightarrow>
               (case fgets 32 (text_of bs) of
                  None \<Rightarrow> (False, w)
                | Some (line, _) \<Rightarrow> (trim_newline_inst (cstr_of line) = ''1'', w)))"

section \<open>Reading and writing devices\<close>

text \<open>One \<open>pread\<close>: at the end of the device it returns fewer bytes, or none.\<close>

definition xfer :: "inst \<Rightarrow> string \<Rightarrow> nat \<Rightarrow> nat \<Rightarrow> nat \<Rightarrow> nat" where
  "xfer w path left off k = min k (min left (dsize w path - off))"

lemma ask_cases: "ask w = (a, w') \<Longrightarrow>
  (outs w = [] \<and> a = Failed \<and> w' = w) \<or> (\<exists>r. outs w = a # r \<and> w' = w\<lparr>outs := r\<rparr>)"
  by (auto simp: ask_def split: list.splits)

lemma ask_shorter: "ask w = (a, w') \<Longrightarrow> a \<noteq> Failed \<Longrightarrow> length (outs w') < length (outs w)"
  by (auto dest!: ask_cases)

function disk_pread_all :: "string \<Rightarrow> nat \<Rightarrow> nat \<Rightarrow> byte list \<Rightarrow> inst \<Rightarrow> byte list option \<times> inst" where
  "disk_pread_all path left off acc w =
     (if left = 0 then (Some acc, w)
      else
        let (a, w') = ask w in
        case a of
          Interrupted \<Rightarrow> disk_pread_all path left off acc w'
        | Done k \<Rightarrow>
            let n = xfer w path left off k in
            if n = 0 then (Some acc, w')
            else disk_pread_all path (left - n) (off + n) (acc @ dev_read (devs w path) off n) w'
        | _ \<Rightarrow> (None, w'))"
  by pat_completeness auto

termination
  by (relation "measure (\<lambda>(path, left, off, acc, w). length (outs w))")
     (auto dest!: ask_shorter [OF sym])

declare disk_pread_all.simps [simp del]

text \<open>One \<open>pwrite\<close>, with the fallback to \<open>lseek\<close> and \<open>write\<close>: the bytes transferred, \<open>Inl True\<close> for
  \<open>EINTR\<close>, \<open>Inl False\<close> for an error.\<close>

definition pwrite_once :: "string \<Rightarrow> nat \<Rightarrow> nat \<Rightarrow> inst \<Rightarrow> (bool + nat) \<times> inst" where
  "pwrite_once path left off w =
     (let (a, w) = ask w in
      case a of
        Done k \<Rightarrow> (Inr (xfer w path left off k), w)
      | Interrupted \<Rightarrow> (Inl True, w)
      | Failed \<Rightarrow> (Inl False, w)
      | Unsupported \<Rightarrow>
          let (ok, w) = ask_ok w in
          if \<not> ok then (Inl False, w)
          else
            let (b, w) = ask w in
            case b of
              Done k \<Rightarrow> (Inr (xfer w path left off k), w)
            | Interrupted \<Rightarrow> (Inl True, w)
            | _ \<Rightarrow> (Inl False, w))"

lemma ask_ok_shorter: "length (outs (snd (ask_ok w))) \<le> length (outs w)"
  by (auto simp: ask_ok_def ask_def split: list.splits)

lemma pwrite_once_shorter:
  "pwrite_once path left off w = (r, w') \<Longrightarrow> r \<noteq> Inl False \<Longrightarrow> length (outs w') < length (outs w)"
  by (auto simp: pwrite_once_def ask_ok_def ask_def split: list.splits answer.splits if_splits prod.splits)

function disk_pwrite_all :: "string \<Rightarrow> byte list \<Rightarrow> nat \<Rightarrow> inst \<Rightarrow> bool \<times> inst" where
  "disk_pwrite_all path buf off w =
     (if buf = [] then (True, w)
      else
        let (r, w') = pwrite_once path (length buf) off w in
        case r of
          Inl True \<Rightarrow> disk_pwrite_all path buf off w'
        | Inl False \<Rightarrow> (False, w')
        | Inr n \<Rightarrow>
            if n = 0 then (False, w')
            else disk_pwrite_all path (drop n buf) (off + n) (put_dev path off (take n buf) w'))"
  by pat_completeness auto

termination
  by (relation "measure (\<lambda>(path, buf, off, w). length (outs w))")
     (auto simp: put_dev_def dest!: pwrite_once_shorter [OF sym])

declare disk_pwrite_all.simps [simp del]

definition write_disk_lba :: "string \<Rightarrow> u64 \<Rightarrow> byte list \<Rightarrow> inst \<Rightarrow> bool \<times> inst" where
  "write_disk_lba path lba buf w = disk_pwrite_all path buf (unat (lba * SECTOR_SIZE)) w"

section \<open>Commands\<close>

text \<open>The answers of \<open>access(candidate, X_OK)\<close> are asked for in the order of \<open>PATH\<close>.\<close>

fun first_access :: "string list \<Rightarrow> inst \<Rightarrow> bool \<times> inst" where
  "first_access [] w = (False, w)"
| "first_access (c # cs) w = (let (ok, w) = ask_ok w in if ok then (True, w) else first_access cs w)"

definition command_exists :: "string \<Rightarrow> inst \<Rightarrow> bool \<times> inst" where
  "command_exists name w =
     (case path_env w of
        None \<Rightarrow> (False, w)
      | Some p \<Rightarrow>
          if p = [] then (False, w)
          else first_access (map (\<lambda>d. take 4095 (d @ ''/'' @ name)) (strtok COLON (take 4095 p))) w)"

text \<open>What a shell command does to the system is the argument \<open>sh\<close>; its output is only logged.\<close>

definition run_command_logged :: "(string \<Rightarrow> inst \<Rightarrow> inst) \<Rightarrow> string \<Rightarrow> bool \<Rightarrow> inst \<Rightarrow> bool \<times> inst" where
  "run_command_logged sh cmd dry_run w =
     (if dry_run then (True, w)
      else
        let full_cmd = take 4095 (cmd @ '' 2>&1'');
            (ok, w) = ask_ok w
        in if \<not> ok then (False, w)
           else
             let w = sh full_cmd (w\<lparr>cmds := cmds w @ [full_cmd]\<rparr>)
             in ask_ok w)"

section \<open>What a write does\<close>

lemma outs_update_id [simp]: "w\<lparr>outs := outs w\<rparr> = w"
  by simp

lemma put_dev_outs: "put_dev path off bs (w\<lparr>outs := r\<rparr>) = (put_dev path off bs w)\<lparr>outs := r\<rparr>"
  by (simp add: put_dev_def)

lemma dev_write_Nil [simp]: "dev_write f off [] = f"
  by (auto simp: dev_write_def fun_eq_iff)

lemma put_dev_Nil [simp]: "put_dev path off [] w = w"
  by (simp add: put_dev_def)

lemma dev_write_append: "dev_write (dev_write f off xs) (off + length xs) ys = dev_write f off (xs @ ys)"
  by (auto simp: dev_write_def fun_eq_iff nth_append)

lemma put_dev_append:
  "put_dev path (off + length xs) ys (put_dev path off xs w) = put_dev path off (xs @ ys) w"
  by (simp add: put_dev_def dev_write_append)

lemma length_dev_read [simp]: "length (dev_read f off n) = n"
  by (simp add: dev_read_def)

lemma dev_read_write_same: "length bs = n \<Longrightarrow> dev_read (dev_write f off bs) off n = bs"
  by (auto simp: dev_read_def dev_write_def intro!: nth_equalityI)

lemma dev_read_write_other:
  "off + n \<le> a \<or> a + length bs \<le> off \<Longrightarrow> dev_read (dev_write f a bs) off n = dev_read f off n"
  by (auto simp: dev_read_def dev_write_def)

lemma dev_read_append: "dev_read f off (m + n) = dev_read f off m @ dev_read f (off + m) n"
  using upt_add_eq_append [of off "off + m" n] by (simp add: dev_read_def add.assoc)

lemma take_dev_read: "m \<le> n \<Longrightarrow> take m (dev_read f off n) = dev_read f off m"
  by (simp add: dev_read_def take_map)

text \<open>A call changes nothing but the list of answers.\<close>

definition same_but_outs :: "inst \<Rightarrow> inst \<Rightarrow> bool" where
  "same_but_outs w w' \<longleftrightarrow> w' = w\<lparr>outs := outs w'\<rparr>"

lemma same_refl [simp, intro]: "same_but_outs w w"
  by (simp add: same_but_outs_def)

lemma same_trans [trans]: "same_but_outs a b \<Longrightarrow> same_but_outs b c \<Longrightarrow> same_but_outs a c"
  unfolding same_but_outs_def by (metis inst.update_convs(9) inst.surjective)

lemma same_outs [simp, intro]: "same_but_outs w (w\<lparr>outs := r\<rparr>)"
  by (simp add: same_but_outs_def)

lemma same_fields:
  assumes "same_but_outs w w'"
  shows "devs w' = devs w" "dsize w' = dsize w" "fs w' = fs w" "isdir w' = isdir w" "path_env w' = path_env w" "cmds w' = cmds w"
    "mounts w' = mounts w" "keys w' = keys w"
  using assms by (metis same_but_outs_def inst.select_convs inst.surjective inst.update_convs(9))+

lemma ask_same: "ask w = (a, w') \<Longrightarrow> same_but_outs w w'"
  by (auto dest!: ask_cases)

lemma ask_ok_same: "ask_ok w = (ok, w') \<Longrightarrow> same_but_outs w w'"
  by (auto simp: ask_ok_def split: prod.splits dest: ask_same)

lemma ask_val_same: "ask_val w = (v, w') \<Longrightarrow> same_but_outs w w'"
  by (auto simp: ask_val_def split: prod.splits dest: ask_same)

lemma pwrite_once_same: "pwrite_once path left off w = (r, w') \<Longrightarrow> same_but_outs w w'"
  by (auto simp: pwrite_once_def split: prod.splits answer.splits if_splits
      dest!: ask_same ask_ok_same intro: same_trans)

lemma pwrite_once_bound:
  "pwrite_once path left off w = (Inr n, w') \<Longrightarrow> n \<le> left \<and> (0 < n \<longrightarrow> off + n \<le> dsize w path)"
proof -
  assume a: "pwrite_once path left off w = (Inr n, w')"
  then obtain k where "n = xfer w' path left off k"
    by (auto simp: pwrite_once_def split: prod.splits answer.splits if_splits)
  with pwrite_once_same [OF a] show ?thesis by (auto simp: xfer_def same_fields)
qed

text \<open>The buffer is written up to some point, and completely when success is reported.\<close>

lemma disk_pwrite_all_effect:
  "disk_pwrite_all path buf off w = (ok, w') \<Longrightarrow>
   \<exists>n. n \<le> length buf \<and> (ok \<longrightarrow> n = length buf) \<and> (0 < n \<longrightarrow> off + n \<le> dsize w path) \<and>
     w' = (put_dev path off (take n buf) w)\<lparr>outs := outs w'\<rparr>"
proof (induction path buf off w arbitrary: ok w' rule: disk_pwrite_all.induct)
  case (1 path buf off w)
  show ?case
  proof (cases "buf = []")
    case True
    with 1 show ?thesis by (auto simp: disk_pwrite_all.simps)
  next
    case False
    obtain r v where p: "pwrite_once path (length buf) off w = (r, v)" by fastforce
    then have s: "v = w\<lparr>outs := outs v\<rparr>" using pwrite_once_same by (simp add: same_but_outs_def)
    then have ds: "dsize v = dsize w" by (metis inst.select_convs(2) inst.surjective inst.update_convs(9))
    consider (intr) "r = Inl True" | (err) "r = Inl False \<or> r = Inr 0" | (ok) n where "r = Inr n" "0 < n"
      by (cases r) auto
    then show ?thesis
    proof cases
      case intr
      then have "disk_pwrite_all path buf off v = (ok, w')"
        using 1(3) False p by (subst (asm) disk_pwrite_all.simps) simp
      from "1.IH"(1) [OF False p [symmetric] refl intr _ this] intr obtain n where
        n: "n \<le> length buf" "ok \<longrightarrow> n = length buf" "0 < n \<longrightarrow> off + n \<le> dsize v path"
           "w' = (put_dev path off (take n buf) v)\<lparr>outs := outs w'\<rparr>" by auto
      then have "w' = (put_dev path off (take n buf) w)\<lparr>outs := outs w'\<rparr>"
        by (subst n(4), subst s) (simp add: put_dev_outs)
      with n ds show ?thesis by auto
    next
      case err
      then have "ok = False" "w' = v"
        using 1(3) False p by (auto simp: disk_pwrite_all.simps)
      then show ?thesis using s by (intro exI [of _ 0]) auto
    next
      case (ok n)
      have b: "n \<le> length buf" "off + n \<le> dsize w path" using pwrite_once_bound p ok by blast+
      have "disk_pwrite_all path (drop n buf) (off + n) (put_dev path off (take n buf) v) = (ok, w')"
        using 1(3) False p ok by (subst (asm) disk_pwrite_all.simps) simp
      from "1.IH"(2) [OF False p [symmetric] refl ok(1) _ this] ok obtain m where
        m: "m \<le> length buf - n" "ok \<longrightarrow> m = length buf - n" "0 < m \<longrightarrow> off + n + m \<le> dsize v path"
           "w' = (put_dev path (off + n) (take m (drop n buf)) (put_dev path off (take n buf) v))\<lparr>outs := outs w'\<rparr>"
        by (auto simp: put_dev_def)
      have "put_dev path (off + n) (take m (drop n buf)) (put_dev path off (take n buf) v) =
          put_dev path off (take (n + m) buf) v"
        using put_dev_append [of path off "take n buf" "take m (drop n buf)" v] b by (simp add: take_add)
      with m(4) have "w' = (put_dev path off (take (n + m) buf) v)\<lparr>outs := outs w'\<rparr>" by simp
      then have "w' = (put_dev path off (take (n + m) buf) w)\<lparr>outs := outs w'\<rparr>"
        by (subst (asm) s) (simp add: put_dev_outs)
      with b m ds show ?thesis by (intro exI [of _ "n + m"]) auto
    qed
  qed
qed

lemma disk_pwrite_all_ok:
  "disk_pwrite_all path buf off w = (True, w') \<Longrightarrow> w' = (put_dev path off buf w)\<lparr>outs := outs w'\<rparr>"
  using disk_pwrite_all_effect [of path buf off w True w'] by auto

text \<open>A kernel that makes progress: interruptions and transfers of at least one byte. The loop then ends
  with success as soon as it has been given one transfer per byte.\<close>

definition progressing :: "answer \<Rightarrow> bool" where
  "progressing a \<longleftrightarrow> (case a of Interrupted \<Rightarrow> True | Done k \<Rightarrow> 0 < k | _ \<Rightarrow> False)"

definition transfers :: "answer list \<Rightarrow> nat" where
  "transfers as = length (filter (\<lambda>a. a \<noteq> Interrupted) as)"

lemma disk_pwrite_all_progress:
  "list_all progressing (outs w) \<Longrightarrow> length buf \<le> transfers (outs w) \<Longrightarrow> off + length buf \<le> dsize w path \<Longrightarrow>
   fst (disk_pwrite_all path buf off w)"
proof (induction "outs w" arbitrary: w buf off)
  case Nil
  then show ?case by (simp add: disk_pwrite_all.simps transfers_def)
next
  case (Cons a as)
  let ?v = "w\<lparr>outs := as\<rparr>"
  have a: "ask w = (a, ?v)" using Cons.hyps(2) by (simp add: ask_def flip: Cons.hyps(2))
  from Cons.prems(1) Cons.hyps(2) have pa: "progressing a" "list_all progressing as"
    by (metis list.pred_inject(2))+
  show ?case
  proof (cases "buf = []")
    case True
    then show ?thesis by (simp add: disk_pwrite_all.simps)
  next
    case False
    show ?thesis
    proof (cases "a = Interrupted")
      case True
      have "length buf \<le> transfers as"
        using Cons.prems(2) Cons.hyps(2) [symmetric] True by (simp add: transfers_def)
      then have "fst (disk_pwrite_all path buf off ?v)"
        using Cons.hyps(1) [of ?v] pa Cons.prems(3) by simp
      then show ?thesis
        using False a True by (subst disk_pwrite_all.simps) (simp add: pwrite_once_def)
    next
      case no: False
      then obtain k where k: "a = Done k" "0 < k" using pa by (auto simp: progressing_def split: answer.splits)
      let ?n = "xfer w path (length buf) off k"
      let ?u = "put_dev path off (take ?n buf) ?v"
      have n: "0 < ?n" "?n \<le> length buf" using k False Cons.prems(3) by (auto simp: xfer_def Suc_le_eq)
      have "length buf \<le> Suc (transfers as)"
        using Cons.prems(2) Cons.hyps(2) [symmetric] no by (simp add: transfers_def)
      then have "fst (disk_pwrite_all path (drop ?n buf) (off + ?n) ?u)"
        using Cons.hyps(1) [of ?u] pa Cons.prems(3) n by (simp add: put_dev_def)
      then show ?thesis
        using False a k n by (subst disk_pwrite_all.simps) (simp add: pwrite_once_def xfer_def)
    qed
  qed
qed

text \<open>A read returns the device's bytes, possibly fewer than asked for.\<close>

lemma disk_pread_all_effect:
  "disk_pread_all path left off acc w = (r, w') \<Longrightarrow>
   same_but_outs w w' \<and> (\<forall>bs. r = Some bs \<longrightarrow> (\<exists>n \<le> left. bs = acc @ dev_read (devs w path) off n))"
proof (induction path left off acc w arbitrary: r w' rule: disk_pread_all.induct)
  case (1 path left off acc w)
  show ?case
  proof (cases "left = 0")
    case True
    with 1 show ?thesis by (auto simp: disk_pread_all.simps dev_read_def)
  next
    case False
    obtain a v where a: "ask w = (a, v)" by fastforce
    then have s: "same_but_outs w v" by (rule ask_same)
    show ?thesis
    proof (cases a)
      case (Done k)
      let ?n = "xfer w path left off k"
      show ?thesis
      proof (cases "?n = 0")
        case True
        then show ?thesis
          using 1(3) False a Done s by (auto simp: disk_pread_all.simps dev_read_def)
      next
        case n: False
        have le: "?n \<le> left" by (simp add: xfer_def)
        have "disk_pread_all path (left - ?n) (off + ?n) (acc @ dev_read (devs w path) off ?n) v = (r, w')"
          using 1(3) False a Done n by (subst (asm) disk_pread_all.simps) (simp add: Let_def)
        from "1.IH"(1) [OF False a [symmetric] refl Done refl n this] have
          ih: "same_but_outs v w'" "\<forall>bs. r = Some bs \<longrightarrow> (\<exists>m \<le> left - ?n. bs = (acc @ dev_read (devs w path) off ?n) @ dev_read (devs w path) (off + ?n) m)"
          by (auto simp: same_fields [OF s])
        show ?thesis
        proof (intro conjI allI impI)
          fix bs assume "r = Some bs"
          with ih(2) obtain m where m: "m \<le> left - ?n"
            "bs = (acc @ dev_read (devs w path) off ?n) @ dev_read (devs w path) (off + ?n) m" by blast
          then show "\<exists>n \<le> left. bs = acc @ dev_read (devs w path) off n"
            using le by (intro exI [of _ "?n + m"]) (simp add: dev_read_append)
        qed (use s ih(1) same_trans in blast)
      qed
    next
      case Interrupted
      then have "disk_pread_all path left off acc v = (r, w')"
        using 1(3) False a by (subst (asm) disk_pread_all.simps) simp
      with "1.IH"(2) [OF False a [symmetric] refl Interrupted this] s show ?thesis
        by (auto simp: same_fields [OF s] intro: same_trans)
    qed (use 1(3) False a s in \<open>auto simp: disk_pread_all.simps\<close>)
  qed
qed

end
