(* ===== verification/INST_Table.thy ===== *)
theory INST_Table
  imports INST_Disk
begin

unbundle bit_operations_syntax

text \<open>
  The partition tables of \<^verbatim>\<open>src/tools/install-eclipse/install-eclipse.c\<close>: GPT headers and entries with
  their CRC-32, UUID parsing, GUID generation, \<open>write_gpt_partition_table_native\<close>,
  \<open>write_mbr_partition_table\<close>, and on the reading side \<open>detect_existing_install\<close> and
  \<open>discover_partitions\<close>. The packed structures are written and read as little-endian bytes.

  \<open>stk\<close> is the content of the uninitialised array \<open>part_name\<close> on the stack, which the program copies
  into an entry past the terminator of the name.
\<close>

section \<open>Structures\<close>

record gpt_header =
  signature :: u64
  revision :: u32
  header_size :: u32
  header_crc32 :: u32
  reserved :: u32
  my_lba :: u64
  alternate_lba :: u64
  first_usable_lba :: u64
  last_usable_lba :: u64
  disk_guid :: "byte list"
  partition_entry_lba :: u64
  num_partition_entries :: u32
  size_of_partition_entry :: u32
  partition_entry_array_crc32 :: u32

record gpt_entry =
  type_guid :: "byte list"
  partition_guid :: "byte list"
  first_lba :: u64
  last_lba :: u64
  attributes :: u64
  ename :: "u16 list"

definition header_bytes :: "gpt_header \<Rightarrow> byte list" where
  "header_bytes h = le_store 8 (signature h) @ le_store 4 (revision h) @ le_store 4 (header_size h)
     @ le_store 4 (header_crc32 h) @ le_store 4 (reserved h) @ le_store 8 (my_lba h)
     @ le_store 8 (alternate_lba h) @ le_store 8 (first_usable_lba h) @ le_store 8 (last_usable_lba h)
     @ disk_guid h @ le_store 8 (partition_entry_lba h) @ le_store 4 (num_partition_entries h)
     @ le_store 4 (size_of_partition_entry h) @ le_store 4 (partition_entry_array_crc32 h)"

definition entry_bytes :: "gpt_entry \<Rightarrow> byte list" where
  "entry_bytes e = type_guid e @ partition_guid e @ le_store 8 (first_lba e) @ le_store 8 (last_lba e)
     @ le_store 8 (attributes e) @ concat (map (le_store 2) (ename e))"

definition empty_entry :: gpt_entry where
  "empty_entry = \<lparr>type_guid = replicate 16 0, partition_guid = replicate 16 0, first_lba = 0, last_lba = 0,
     attributes = 0, ename = replicate 36 0\<rparr>"

definition entries_bytes :: "gpt_entry list \<Rightarrow> byte list" where
  "entries_bytes es = concat (map entry_bytes es)"

abbreviation GPT_ENTRY_SECTORS :: u64 where "GPT_ENTRY_SECTORS \<equiv> 32"

section \<open>CRC, UUIDs and names\<close>

definition crc_shift :: "u32 \<Rightarrow> u32" where
  "crc_shift crc = (if crc AND 1 \<noteq> 0 then drop_bit 1 crc XOR 0xedb88320 else drop_bit 1 crc)"

definition crc_byte :: "u32 \<Rightarrow> byte \<Rightarrow> u32" where
  "crc_byte crc b = (crc_shift ^^ 8) (crc XOR ucast b)"

definition gpt_crc32 :: "byte list \<Rightarrow> u32" where
  "gpt_crc32 data = NOT (foldl crc_byte 0xffffffff data)"

definition is_hex :: "char \<Rightarrow> bool" where
  "is_hex c \<longleftrightarrow> isdigit c \<or> (65 \<le> ord c \<and> ord c \<le> 70) \<or> (97 \<le> ord c \<and> ord c \<le> 102)"

definition hex_val :: "char \<Rightarrow> nat" where
  "hex_val c = (if isdigit c then ord c - 48 else if ord c \<le> 70 then ord c - 55 else ord c - 87)"

text \<open>A \<open>%wx\<close> conversion of \<open>sscanf\<close> with field width \<open>w\<close>: white space, an optional sign, an optional
  \<open>0x\<close>, hexadecimal digits.\<close>

definition scan_x :: "nat \<Rightarrow> string \<Rightarrow> (u32 \<times> string) option" where
  "scan_x w s =
     (let s1 = skip_ws s; s2 = take w s1; (neg, r) = scan_sign s2;
          r = (if length r \<ge> 2 \<and> r ! 0 = CHR ''0'' \<and> (r ! 1 = CHR ''x'' \<or> r ! 1 = CHR ''X'') then drop 2 r else r);
          ds = takeWhile is_hex r;
          used = (length s2 - length r) + length ds;
          v = foldl (\<lambda>a c. 16 * a + hex_val c) 0 ds
      in if ds = [] then None
         else Some (if neg then - of_nat v else of_nat v, drop used s1))"

definition parse_gpt_uuid :: "string \<Rightarrow> byte list option" where
  "parse_gpt_uuid text =
     Option.bind (scan_x 8 text) (\<lambda>(data1, s). Option.bind (scan_lit (CHR ''-'') s) (\<lambda>s.
     Option.bind (scan_x 4 s) (\<lambda>(data2, s). Option.bind (scan_lit (CHR ''-'') s) (\<lambda>s.
     Option.bind (scan_x 4 s) (\<lambda>(data3, s). Option.bind (scan_lit (CHR ''-'') s) (\<lambda>s.
     Option.bind (scan_x 2 s) (\<lambda>(b0, s). Option.bind (scan_x 2 s) (\<lambda>(b1, s).
     Option.bind (scan_lit (CHR ''-'') s) (\<lambda>s.
     Option.bind (scan_x 2 s) (\<lambda>(b2, s). Option.bind (scan_x 2 s) (\<lambda>(b3, s).
     Option.bind (scan_x 2 s) (\<lambda>(b4, s). Option.bind (scan_x 2 s) (\<lambda>(b5, s).
     Option.bind (scan_x 2 s) (\<lambda>(b6, s). Option.bind (scan_x 2 s) (\<lambda>(b7, s).
       Some [ucast data1, ucast (drop_bit 8 data1), ucast (drop_bit 16 data1), ucast (drop_bit 24 data1),
             ucast data2, ucast (drop_bit 8 data2), ucast data3, ucast (drop_bit 8 data3),
             ucast b0, ucast b1, ucast b2, ucast b3, ucast b4, ucast b5, ucast b6, ucast b7])))))))))))))))"

text \<open>The 16-bit code of a character is that of a signed \<open>char\<close>.\<close>

definition utf16_unit :: "char \<Rightarrow> u16" where
  "utf16_unit c = scast (of_nat (ord c) :: byte)"

definition utf16le_name :: "string \<Rightarrow> u16 list \<Rightarrow> u16 list" where
  "utf16le_name ascii out =
     (let t = map utf16_unit (take 35 ascii) in t @ [0] @ drop (length t + 1) out)"

definition guid_step :: "u64 \<Rightarrow> u64" where
  "guid_step t = t * 6364136223846793005 + 1"

definition generate_guid :: "u64 \<Rightarrow> u64 \<Rightarrow> byte list" where
  "generate_guid now salt =
     (let t = now XOR salt;
          guid = map (\<lambda>i. ucast (drop_bit 33 ((guid_step ^^ Suc i) t))) [0..<16];
          guid = guid[6 := (guid ! 6 AND 0x0f) OR 0x40]
      in guid[8 := (guid ! 8 AND 0x3f) OR 0x80])"

text \<open>\<open>time(NULL)\<close>.\<close>

definition sys_time :: "inst \<Rightarrow> u64 \<times> inst" where
  "sys_time w = (let (v, w) = ask_val w in (case v of Some n \<Rightarrow> of_nat n | None \<Rightarrow> - 1, w))"

section \<open>Writing a GPT\<close>

datatype table_error = Too_small_for_GPT | Bad_part_count | Too_small_for_backup | Out_of_range string
  | Bad_type string | Open_failed | Write_failed | Fsync_failed | MBR_limit string | No_tool | Tool_failed

text \<open>The loop that fills the entries; the clock is read once per entry.\<close>

definition new_entry :: "byte list \<Rightarrow> u64 \<Rightarrow> nat \<Rightarrow> u16 list \<Rightarrow> partition_plan \<Rightarrow> u64 \<Rightarrow> gpt_entry" where
  "new_entry g now i stk p end_lba =
     \<lparr>type_guid = g, partition_guid = generate_guid now (of_nat i + 1), first_lba = start_sector p,
      last_lba = end_lba, attributes = 0, ename = utf16le_name (pname p) stk\<rparr>"

fun fill_entries :: "u64 \<Rightarrow> u64 \<Rightarrow> u16 list \<Rightarrow> nat \<Rightarrow> partition_plan list \<Rightarrow> inst \<Rightarrow> (table_error + gpt_entry list) \<times> inst" where
  "fill_entries first_usable last_usable stk i [] w = (Inr [], w)"
| "fill_entries first_usable last_usable stk i (p # ps) w =
     (let end_lba = start_sector p + sectors p - 1 in
      if start_sector p < first_usable \<or> end_lba > last_usable then (Inl (Out_of_range (pname p)), w)
      else case parse_gpt_uuid (gpt_type p) of
             None \<Rightarrow> (Inl (Bad_type (pname p)), w)
           | Some g \<Rightarrow>
               let (now, w) = sys_time w;
                   e = new_entry g now i stk p end_lba;
                   (r, w) = fill_entries first_usable last_usable stk (Suc i) ps w
               in (case r of Inl x \<Rightarrow> Inl x | Inr es \<Rightarrow> Inr (e # es), w))"

definition protective_mbr :: "u64 \<Rightarrow> byte list" where
  "protective_mbr lastl =
     poke (poke (replicate 512 0) 446
       ([0, 0, 0, 0, 0xee, 0, 0, 0] @ le_store 4 (1 :: u32)
        @ le_store 4 (if lastl > 0xffffffff then 0xffffffff else ucast lastl :: u32))) 510 [0x55, 0xaa]"

definition with_crc :: "gpt_header \<Rightarrow> gpt_header" where
  "with_crc h = h\<lparr>header_crc32 := gpt_crc32 (header_bytes h)\<rparr>"

definition primary_header :: "u64 \<Rightarrow> byte list \<Rightarrow> byte list \<Rightarrow> gpt_header" where
  "primary_header lastl guid entries =
     with_crc \<lparr>signature = 0x5452415020494645, revision = 0x00010000, header_size = 92, header_crc32 = 0,
       reserved = 0, my_lba = 1, alternate_lba = lastl, first_usable_lba = GPT_ENTRY_SECTORS + 2,
       last_usable_lba = lastl - GPT_ENTRY_SECTORS - 1, disk_guid = guid, partition_entry_lba = 2,
       num_partition_entries = 128, size_of_partition_entry = 128,
       partition_entry_array_crc32 = gpt_crc32 entries\<rparr>"

definition backup_header :: "u64 \<Rightarrow> gpt_header \<Rightarrow> gpt_header" where
  "backup_header lastl primary =
     with_crc (primary\<lparr>my_lba := lastl, alternate_lba := 1, partition_entry_lba := lastl - GPT_ENTRY_SECTORS,
       header_crc32 := 0\<rparr>)"

text \<open>The writes, in order; the first that fails ends the sequence.\<close>

fun write_lbas :: "string \<Rightarrow> (u64 \<times> byte list) list \<Rightarrow> inst \<Rightarrow> bool \<times> inst" where
  "write_lbas path [] w = (True, w)"
| "write_lbas path ((lba, buf) # rest) w =
     (let (ok, w) = write_disk_lba path lba buf w in if ok then write_lbas path rest w else (False, w))"

definition gpt_writes :: "u64 \<Rightarrow> byte list \<Rightarrow> gpt_entry list \<Rightarrow> (u64 \<times> byte list) list" where
  "gpt_writes lastl guid es =
     (let entries = entries_bytes (es @ replicate (128 - length es) empty_entry);
          primary = primary_header lastl guid entries
      in [(0, protective_mbr lastl), (1, header_bytes primary), (2, entries),
          (lastl - GPT_ENTRY_SECTORS, entries), (lastl, header_bytes (backup_header lastl primary))])"

definition write_gpt_partition_table_native ::
  "u16 list \<Rightarrow> string \<Rightarrow> partition_plan list \<Rightarrow> inst \<Rightarrow> (table_error + unit) \<times> inst" where
  "write_gpt_partition_table_native stk disk_path parts w =
     (let (disk_bytes, w) = get_disk_size_bytes disk_path w in
      if disk_bytes < (PART1_START + PART1_SECTORS + 4096) * SECTOR_SIZE then (Inl Too_small_for_GPT, w)
      else if length parts = 0 \<or> length parts > 128 then (Inl Bad_part_count, w)
      else
        let lastl = disk_bytes div SECTOR_SIZE - 1 in
        if lastl < GPT_ENTRY_SECTORS + 34 then (Inl Too_small_for_backup, w)
        else
          let (now, w) = sys_time w;
              guid = generate_guid now 0x4750545f4449534b;
              (r, w) = fill_entries (GPT_ENTRY_SECTORS + 2) (lastl - GPT_ENTRY_SECTORS - 1) stk 0 parts w
          in case r of
               Inl e \<Rightarrow> (Inl e, w)
             | Inr es \<Rightarrow>
                 let (ok, w) = ask_ok w in
                 if \<not> ok then (Inl Open_failed, w)
                 else
                   let (ok, w) = write_lbas disk_path (gpt_writes lastl guid es) w in
                   if \<not> ok then (Inl Write_failed, w)
                   else
                     let (ok, w) = ask_ok w in
                     if \<not> ok then (Inl Fsync_failed, w) else (Inr (), w))"

section \<open>Writing an MBR\<close>

definition mbr_entry :: "nat \<Rightarrow> partition_plan \<Rightarrow> byte list" where
  "mbr_entry i p = [if i = 0 then 0x80 else 0x00, 0x00, 0x02, 0x00, mbr_type p, 0x00, 0x02, 0x00]
     @ le_store 4 (ucast (start_sector p) :: u32) @ le_store 4 (ucast (sectors p) :: u32)"

fun fill_mbr :: "nat \<Rightarrow> partition_plan list \<Rightarrow> byte list \<Rightarrow> table_error + byte list" where
  "fill_mbr i [] mbr = Inr mbr"
| "fill_mbr i (p # ps) mbr =
     (if i \<ge> 4 then Inr mbr
      else if start_sector p > 0xffffffff \<or> sectors p > 0xffffffff then Inl (MBR_limit (pname p))
      else fill_mbr (Suc i) ps (poke mbr (446 + i * 16) (mbr_entry i p)))"

definition write_mbr_partition_table ::
  "string \<Rightarrow> partition_plan list \<Rightarrow> bool \<Rightarrow> inst \<Rightarrow> (table_error + unit) \<times> inst" where
  "write_mbr_partition_table disk_path parts dry_run w =
     (if dry_run then (Inr (), w)
      else case fill_mbr 0 parts (replicate 512 0) of
             Inl e \<Rightarrow> (Inl e, w)
           | Inr mbr \<Rightarrow>
               let mbr = poke mbr 510 [0x55, 0xAA];
                   (ok, w) = ask_ok w
               in if \<not> ok then (Inl Open_failed, w)
                  else
                    let (n, w) = ask_val w;
                        k = (case n of Some k \<Rightarrow> xfer w disk_path 512 0 k | None \<Rightarrow> 0);
                        w = put_dev disk_path 0 (take k mbr) w
                    in if k \<noteq> 512 then (Inl Write_failed, w)
                       else
                         let (ok, w) = ask_ok w in
                         if \<not> ok then (Inl Fsync_failed, w) else (Inr (), w))"

section \<open>The GPT writer with its fallbacks\<close>

definition sgdisk_part :: "nat \<times> partition_plan \<Rightarrow> string" where
  "sgdisk_part = (\<lambda>(i, p).
     let end_sector = start_sector p + sectors p - 1; n = show_nat (i + 1)
     in '' -n '' @ n @ '':'' @ show_nat (unat (start_sector p)) @ '':'' @ show_nat (unat end_sector)
        @ '' -t '' @ n @ '':'' @ gpt_type p @ '' -c '' @ n @ '':'' @ pname p)"

definition sgdisk_cmd :: "string \<Rightarrow> partition_plan list \<Rightarrow> string" where
  "sgdisk_cmd disk_path parts =
     take 4095 (take 4095 (''sgdisk -og'' @ concat (map sgdisk_part (enumerate 0 parts))) @ '' '' @ disk_path)"

text \<open>The two characters backslash and n, which \<open>printf %b\<close> turns into a newline.\<close>

abbreviation esc_nl :: string where "esc_nl \<equiv> [CHR 0x5C, CHR ''n'']"

definition gdisk_part :: "nat \<times> partition_plan \<Rightarrow> string" where
  "gdisk_part = (\<lambda>(i, p).
     let end_sector = start_sector p + sectors p - 1;
         type_code = (if mbr_type p = 0xEF then ''ef00'' else if mbr_type p = 0x82 then ''8200'' else ''8300'')
     in ''n'' @ esc_nl @ show_nat (i + 1) @ esc_nl @ show_nat (unat (start_sector p)) @ esc_nl
        @ show_nat (unat end_sector) @ esc_nl @ type_code @ esc_nl)"

definition gdisk_cmd :: "string \<Rightarrow> partition_plan list \<Rightarrow> string" where
  "gdisk_cmd disk_path parts =
     (let script = take 2047 (take 2047 (''o'' @ esc_nl @ ''y'' @ esc_nl @ concat (map gdisk_part (enumerate 0 parts)))
                     @ ''w'' @ esc_nl @ ''y'' @ esc_nl)
      in take 4095 (''sh -c '' @ [CHR 0x22] @ ''printf %b '' @ script @ '' | gdisk '' @ disk_path @ [CHR 0x22]))"

definition write_gpt_partition_table ::
  "(string \<Rightarrow> inst \<Rightarrow> inst) \<Rightarrow> u16 list \<Rightarrow> string \<Rightarrow> partition_plan list \<Rightarrow> bool \<Rightarrow> inst \<Rightarrow> (table_error + unit) \<times> inst" where
  "write_gpt_partition_table sh stk disk_path parts dry_run w =
     (if dry_run then (Inr (), w)
      else
        let (r, w) = write_gpt_partition_table_native stk disk_path parts w in
        case r of
          Inr _ \<Rightarrow> (Inr (), w)
        | Inl _ \<Rightarrow>
            let (ex, w) = command_exists ''sgdisk'' w in
            if ex
            then let (ok, w) = run_command_logged sh (sgdisk_cmd disk_path parts) dry_run w
                 in (if ok then Inr () else Inl Tool_failed, w)
            else
              let (ex, w) = command_exists ''gdisk'' w in
              if ex
              then let (ok, w) = run_command_logged sh (gdisk_cmd disk_path parts) dry_run w
                   in (if ok then Inr () else Inl Tool_failed, w)
              else (Inl No_tool, w))"

section \<open>Reading the tables\<close>

text \<open>A single \<open>pread\<close>: \<open>None\<close> when it fails, otherwise the bytes it returned.\<close>

definition sys_pread :: "string \<Rightarrow> nat \<Rightarrow> nat \<Rightarrow> inst \<Rightarrow> byte list option \<times> inst" where
  "sys_pread path n off w =
     (let (v, w) = ask_val w
      in (case v of Some k \<Rightarrow> Some (dev_read (devs w path) off (xfer w path n off k)) | None \<Rightarrow> None, w))"

record existing_install_info =
  has_valid_mbr :: bool
  has_efi_partition :: bool
  has_gpt_header :: bool
  suggest_upgrade :: bool

definition efi_part :: "byte list" where
  "efi_part = bytes_of ''EFI PART''"

definition has_signature :: "byte list option \<Rightarrow> bool" where
  "has_signature r \<longleftrightarrow> (case r of Some s \<Rightarrow> length s = 512 \<and> take 8 s = efi_part | None \<Rightarrow> False)"

definition detect_existing_install :: "string \<Rightarrow> inst \<Rightarrow> existing_install_info option \<times> inst" where
  "detect_existing_install disk_path w =
     (let (ok, w) = ask_ok w in
      if \<not> ok then (None, w)
      else
        let (r, w) = sys_pread disk_path 512 0 w in
        case r of
          None \<Rightarrow> (None, w)
        | Some sector0 \<Rightarrow>
            if length sector0 \<noteq> 512 then (None, w)
            else
              let valid = (sector0 ! 510 = 0x55 \<and> sector0 ! 511 = 0xAA);
                  efi = (sector0 ! (446 + 4) = 0xEF);
                  (r, w) = sys_pread disk_path 512 512 w;
                  gpt = has_signature r
              in (Some \<lparr>has_valid_mbr = valid, has_efi_partition = efi, has_gpt_header = gpt,
                    suggest_upgrade = (valid \<and> efi) \<or> gpt\<rparr>, w))"

text \<open>An entry as \<open>discover_partitions\<close> looks at it: its type and its first and last sector.\<close>

definition gpt_entry_is_type :: "byte list \<Rightarrow> string \<Rightarrow> bool" where
  "gpt_entry_is_type e type_uuid =
     (let first = (le_load (take 8 (drop 32 e)) :: u64); lst = (le_load (take 8 (drop 40 e)) :: u64) in
      if first = 0 \<and> lst = 0 then False
      else case parse_gpt_uuid type_uuid of None \<Rightarrow> False | Some expected \<Rightarrow> take 16 e = expected)"

text \<open>The loop over the GPT entries; the state is the EFI number, the root number and the first
  sector of the root candidate.\<close>

definition scan_gpt_entry :: "byte list \<Rightarrow> nat \<Rightarrow> nat \<times> nat \<times> u64 \<Rightarrow> nat \<Rightarrow> nat \<times> nat \<times> u64" where
  "scan_gpt_entry table entry_size = (\<lambda>(efi, root, root_first) i.
     let e = drop (i * entry_size) table;
         first = (le_load (take 8 (drop 32 e)) :: u64);
         efi = (if gpt_entry_is_type e GPT_ESP_TYPE then i + 1 else efi)
     in if gpt_entry_is_type e GPT_LINUX_TYPE \<and> first < root_first then (efi, i + 1, first)
        else (efi, root, root_first))"

definition scan_mbr_entry :: "byte list \<Rightarrow> nat \<times> nat \<Rightarrow> nat \<Rightarrow> nat \<times> nat" where
  "scan_mbr_entry sector0 = (\<lambda>(efi, root) i.
     let e = drop (446 + i * 16) sector0;
         n = (le_load (take 4 (drop 12 e)) :: u32);
         efi = (if e ! 4 = 0xEF \<and> n > 0 then i + 1 else efi)
     in (efi, if e ! 4 = 0x83 \<and> n > 0 \<and> root = 0 then i + 1 else root))"

definition default_parts :: "nat \<times> nat \<Rightarrow> nat \<times> nat" where
  "default_parts = (\<lambda>(efi, root). (if efi = 0 then 1 else efi, if root = 0 then 2 else root))"

definition discover_partitions :: "string \<Rightarrow> inst \<Rightarrow> (nat \<times> nat) option \<times> inst" where
  "discover_partitions disk_path w =
     (let (ok, w) = ask_ok w in
      if \<not> ok then (None, w)
      else
        let (r, w) = sys_pread disk_path 512 512 w in
        if has_signature r
        then
          let sector1 = the r;
              entry_lba = (le_load (take 8 (drop 72 sector1)) :: u64);
              num_entries = unat (le_load (take 4 (drop 80 sector1)) :: u32);
              entry_size = unat (le_load (take 4 (drop 84 sector1)) :: u32)
          in if entry_size < 128 \<or> num_entries = 0 \<or> num_entries > 128 then (Some (1, 2), w)
             else
               let (ok, w) = ask_ok w in
               if \<not> ok then (None, w)
               else
                 let (t, w) = sys_pread disk_path (num_entries * entry_size) (unat (entry_lba * SECTOR_SIZE)) w
                 in case t of
                      None \<Rightarrow> (Some (1, 2), w)
                    | Some table \<Rightarrow>
                        if length table \<noteq> num_entries * entry_size then (Some (1, 2), w)
                        else
                          let (efi, root, _) = foldl (scan_gpt_entry table entry_size) (0, 0, - 1) [0..<num_entries]
                          in (Some (default_parts (efi, root)), w)
        else
          let (r, w) = sys_pread disk_path 512 0 w in
          case r of
            None \<Rightarrow> (None, w)
          | Some sector0 \<Rightarrow>
              if length sector0 \<noteq> 512 then (None, w)
              else (Some (default_parts (foldl (scan_mbr_entry sector0) (0, 0) [0..<4])), w))"

end
