(* ===== verification/INST_Table_Correct.thy ===== *)
theory INST_Table_Correct
  imports INST_Table
begin

unbundle bit_operations_syntax

text \<open>
  Facts about the partition tables: the CRC against the bit-serial definition, the layout of the
  packed structures, what the five writes of \<open>write_gpt_partition_table_native\<close> leave on the disk,
  that the planned partitions pass its checks, and what \<open>discover_partitions\<close> finds afterwards.
\<close>

section \<open>CRC-32\<close>

text \<open>The bit-serial definition: the register takes one message bit at a time, least significant
  bit of each byte first.\<close>

definition crc_bit :: "u32 \<Rightarrow> bool \<Rightarrow> u32" where
  "crc_bit c b = (if bit c 0 \<noteq> b then drop_bit 1 c XOR 0xedb88320 else drop_bit 1 c)"

definition byte_bits :: "byte \<Rightarrow> bool list" where
  "byte_bits b = map (bit b) [0..<8]"

definition crc32_spec :: "byte list \<Rightarrow> u32" where
  "crc32_spec data = NOT (foldl crc_bit 0xffffffff (concat (map byte_bits data)))"

lemma and_one_bit: "(c :: u32) AND 1 \<noteq> 0 \<longleftrightarrow> bit c 0"
  by (simp add: and_one_eq bit_0 even_iff_mod_2_eq_zero)

lemma crc_shift_xor: "crc_shift (c XOR x) = crc_bit c (bit x 0) XOR drop_bit 1 x"
  unfolding crc_shift_def and_one_bit crc_bit_def bit_xor_iff drop_bit_xor
  by (cases "bit c 0"; cases "bit x 0") (simp_all add: xor.assoc xor.commute xor.left_commute)

lemma crc_shifts_xor:
  "(crc_shift ^^ n) (c XOR x) = foldl crc_bit c (map (bit x) [0..<n]) XOR drop_bit n x"
proof (induction n)
  case (Suc n)
  have "(crc_shift ^^ Suc n) (c XOR x) = crc_shift (foldl crc_bit c (map (bit x) [0..<n]) XOR drop_bit n x)"
    using Suc by simp
  also have "\<dots> = crc_bit (foldl crc_bit c (map (bit x) [0..<n])) (bit x n) XOR drop_bit (Suc n) x"
    by (simp add: crc_shift_xor bit_drop_bit_eq drop_bit_drop_bit)
  finally show ?case by simp
qed simp

lemma crc_byte_bits: "crc_byte c b = foldl crc_bit c (byte_bits b)"
proof -
  have "drop_bit 8 (ucast b :: u32) = 0"
    by (rule bit_word_eqI) (simp add: bit_simps)
  moreover have "map (bit (ucast b :: u32)) [0..<8] = byte_bits b"
    by (simp add: byte_bits_def bit_simps)
  ultimately show ?thesis
    using crc_shifts_xor [of 8 c "ucast b"] by (simp add: crc_byte_def)
qed

lemma gpt_crc32_spec: "gpt_crc32 data = crc32_spec data"
proof -
  have "foldl crc_byte c data = foldl crc_bit c (concat (map byte_bits data))" for c
    by (induction data arbitrary: c) (simp_all add: crc_byte_bits)
  then show ?thesis by (simp add: gpt_crc32_def crc32_spec_def)
qed

section \<open>Layout of the structures\<close>

lemma length_generate_guid [simp]: "length (generate_guid now salt) = 16"
  by (simp add: generate_guid_def Let_def)

lemma length_header_bytes: "length (disk_guid h) = 16 \<Longrightarrow> length (header_bytes h) = 92"
  by (simp add: header_bytes_def del: le_store_numeral)

definition wf_entry :: "gpt_entry \<Rightarrow> bool" where
  "wf_entry e \<longleftrightarrow> length (type_guid e) = 16 \<and> length (partition_guid e) = 16 \<and> length (ename e) = 36"

lemma wf_empty_entry [simp]: "wf_entry empty_entry"
  by (simp add: wf_entry_def empty_entry_def)

lemma length_concat_le2: "length (concat (map (le_store 2) us)) = 2 * length us"
  by (induction us) (simp_all del: le_store_numeral)

lemma length_entry_bytes: "wf_entry e \<Longrightarrow> length (entry_bytes e) = 128"
  by (simp add: entry_bytes_def wf_entry_def length_concat_le2 del: le_store_numeral)

lemma length_entries_bytes: "list_all wf_entry es \<Longrightarrow> length (entries_bytes es) = 128 * length es"
  by (induction es) (simp_all add: entries_bytes_def length_entry_bytes)

lemma drop_entries:
  "list_all wf_entry es \<Longrightarrow> i < length es \<Longrightarrow>
   \<exists>rest. drop (i * 128) (entries_bytes es) = entry_bytes (es ! i) @ rest"
proof (induction es arbitrary: i)
  case (Cons e es)
  show ?case
  proof (cases i)
    case 0
    then show ?thesis by (simp add: entries_bytes_def)
  next
    case (Suc j)
    with Cons show ?thesis by (simp add: entries_bytes_def length_entry_bytes)
  qed
qed simp

lemma entry_fields:
  assumes "wf_entry e"
  shows "take 16 (entry_bytes e @ r) = type_guid e"
    "le_load (take 8 (drop 32 (entry_bytes e @ r))) = first_lba e"
    "le_load (take 8 (drop 40 (entry_bytes e @ r))) = last_lba e"
  using assms by (simp_all add: entry_bytes_def wf_entry_def del: le_store_numeral le_load.simps)

lemma is_type_entry:
  "wf_entry e \<Longrightarrow> gpt_entry_is_type (entry_bytes e @ r) u \<longleftrightarrow>
     \<not> (first_lba e = 0 \<and> last_lba e = 0) \<and> parse_gpt_uuid u = Some (type_guid e)"
  unfolding gpt_entry_is_type_def Let_def by (simp only: entry_fields) (auto split: option.splits)

lemma header_fields:
  assumes "length (disk_guid h) = 16"
  shows "take 8 (header_bytes h @ r) = le_store 8 (signature h)"
    "le_load (take 8 (drop 72 (header_bytes h @ r))) = partition_entry_lba h"
    "le_load (take 4 (drop 80 (header_bytes h @ r))) = num_partition_entries h"
    "le_load (take 4 (drop 84 (header_bytes h @ r))) = size_of_partition_entry h"
    "le_load (take 4 (drop 88 (header_bytes h @ r))) = partition_entry_array_crc32 h"
    "le_load (take 4 (drop 16 (header_bytes h @ r))) = header_crc32 h"
    "le_load (take 8 (drop 24 (header_bytes h @ r))) = my_lba h"
    "le_load (take 8 (drop 32 (header_bytes h @ r))) = alternate_lba h"
    "le_load (take 8 (drop 40 (header_bytes h @ r))) = first_usable_lba h"
    "le_load (take 8 (drop 48 (header_bytes h @ r))) = last_usable_lba h"
  using assms by (simp_all add: header_bytes_def del: le_store_numeral le_load.simps)

lemma header_zero_crc:
  "length (disk_guid h) = 16 \<Longrightarrow> poke (header_bytes h) 16 [0, 0, 0, 0] = header_bytes (h\<lparr>header_crc32 := 0\<rparr>)"
  by (simp add: header_bytes_def poke_def del: le_store_numeral)
     (simp add: numeral_eq_Suc)

section \<open>Identifiers\<close>

lemma parse_ESP: "parse_gpt_uuid GPT_ESP_TYPE =
    Some [0x28, 0x73, 0x2A, 0xC1, 0x1F, 0xF8, 0xD2, 0x11, 0xBA, 0x4B, 0x00, 0xA0, 0xC9, 0x3E, 0xC9, 0x3B]"
  and parse_Linux: "parse_gpt_uuid GPT_LINUX_TYPE =
    Some [0xAF, 0x3D, 0xC6, 0x0F, 0x83, 0x84, 0x72, 0x47, 0x8E, 0x79, 0x3D, 0x69, 0xD8, 0x47, 0x7D, 0xE4]"
  and parse_Swap: "parse_gpt_uuid GPT_SWAP_TYPE =
    Some [0x6D, 0xFD, 0x57, 0x06, 0xAB, 0xA4, 0xC4, 0x43, 0x84, 0xE5, 0x09, 0x33, 0xC8, 0x4B, 0x4F, 0x4F]"
  by (simp_all add: parse_gpt_uuid_def GPT_ESP_TYPE_def GPT_LINUX_TYPE_def GPT_SWAP_TYPE_def scan_x_def skip_ws_def
    isspace_def is_hex_def isdigit_def hex_val_def ord_def)

lemma efi_part_signature: "le_store 8 (0x5452415020494645 :: u64) = efi_part"
  by code_simp

lemma parse_gpt_uuid_length: "parse_gpt_uuid s = Some g \<Longrightarrow> length g = 16"
  by (auto simp: parse_gpt_uuid_def bind_eq_Some_conv)

section \<open>The writes\<close>

definition put_lbas :: "(u64 \<times> byte list) list \<Rightarrow> (nat \<Rightarrow> byte) \<Rightarrow> nat \<Rightarrow> byte" where
  "put_lbas xs f = foldl (\<lambda>f (lba, buf). dev_write f (unat (lba * SECTOR_SIZE)) buf) f xs"

text \<open>Equality of everything but the contents of one device and the answers.\<close>

definition only_dev :: "string \<Rightarrow> inst \<Rightarrow> inst \<Rightarrow> bool" where
  "only_dev path w w' \<longleftrightarrow> w' = w\<lparr>devs := (devs w)(path := devs w' path), outs := outs w'\<rparr>"

lemma only_dev_refl [intro]: "only_dev path w w"
  by (simp add: only_dev_def)

lemma only_devI: "w' = (put_dev path off bs w)\<lparr>outs := r\<rparr> \<Longrightarrow> only_dev path w w'"
  by (simp add: only_dev_def put_dev_def)

lemma same_only_dev: "same_but_outs w w' \<Longrightarrow> only_dev path w w'"
  unfolding same_but_outs_def only_dev_def
  by (metis fun_upd_triv inst.select_convs(1) inst.surjective inst.update_convs(1,9))

lemma only_dev_fields:
  assumes "only_dev path w w'"
  shows "dsize w' = dsize w" "fs w' = fs w" "isdir w' = isdir w" "path_env w' = path_env w" "cmds w' = cmds w"
    "mounts w' = mounts w" "keys w' = keys w" "\<And>q. q \<noteq> path \<Longrightarrow> devs w' q = devs w q"
  by (subst assms [unfolded only_dev_def]; simp)+

lemma only_dev_trans [trans]: "only_dev path a b \<Longrightarrow> only_dev path b c \<Longrightarrow> only_dev path a c"
proof -
  assume a: "only_dev path a b" and b: "only_dev path b c"
  have "c = b\<lparr>devs := (devs b)(path := devs c path), outs := outs c\<rparr>" using b by (simp add: only_dev_def)
  also have "\<dots> = a\<lparr>devs := (devs a)(path := devs c path), outs := outs c\<rparr>"
    by (subst a [unfolded only_dev_def], subst (2) a [unfolded only_dev_def]) simp
  finally show ?thesis by (simp add: only_dev_def)
qed

lemma write_lbas_ok:
  "write_lbas path xs w = (True, w') \<Longrightarrow> only_dev path w w' \<and> devs w' path = put_lbas xs (devs w path)"
proof (induction xs arbitrary: w)
  case Nil
  then show ?case by (auto simp: put_lbas_def)
next
  case (Cons x xs)
  obtain lba buf where x: "x = (lba, buf)" by fastforce
  from Cons.prems obtain v where v: "disk_pwrite_all path buf (unat (lba * 512)) w = (True, v)"
      "write_lbas path xs v = (True, w')"
    by (auto simp: x write_disk_lba_def split: prod.splits if_splits)
  then have e: "v = (put_dev path (unat (lba * 512)) buf w)\<lparr>outs := outs v\<rparr>" by (intro disk_pwrite_all_ok)
  have "devs v path = dev_write (devs w path) (unat (lba * 512)) buf"
    by (subst e) (simp add: put_dev_def)
  with Cons.IH [OF v(2)] only_devI [OF e] show ?case
    by (auto simp: x put_lbas_def intro: only_dev_trans)
qed

lemma fill_entries_same: "fill_entries a b stk i ps w = (r, w') \<Longrightarrow> same_but_outs w w'"
proof (induction ps arbitrary: i w r)
  case (Cons p ps)
  show ?case
  proof (cases "start_sector p < a \<or> start_sector p + sectors p - 1 > b \<or> parse_gpt_uuid (gpt_type p) = None")
    case True
    with Cons.prems show ?thesis by (auto simp: Let_def split: option.splits if_splits)
  next
    case False
    obtain now v where t: "sys_time w = (now, v)" by fastforce
    then have "same_but_outs w v" by (auto simp: sys_time_def split: prod.splits dest: ask_val_same)
    moreover obtain r' where "fill_entries a b stk (Suc i) ps v = (r', w')"
      using Cons.prems False t by (auto simp: Let_def split: option.splits prod.splits)
    ultimately show ?thesis using Cons.IH same_trans by blast
  qed
qed simp

definition entry_for :: "partition_plan \<Rightarrow> gpt_entry \<Rightarrow> bool" where
  "entry_for p e \<longleftrightarrow> wf_entry e \<and> parse_gpt_uuid (gpt_type p) = Some (type_guid e) \<and> first_lba e = start_sector p \<and>
     last_lba e = start_sector p + sectors p - 1"

lemma length_utf16le_name: "length out = 36 \<Longrightarrow> length (utf16le_name nm out) = 36"
  by (simp add: utf16le_name_def Let_def)

lemma fill_entries_ok:
  "fill_entries a b stk i ps w = (Inr es, w') \<Longrightarrow> length stk = 36 \<Longrightarrow> list_all2 entry_for ps es"
proof (induction ps arbitrary: i w es)
  case (Cons p ps)
  then obtain g v es' e where g: "parse_gpt_uuid (gpt_type p) = Some g"
    and v: "fill_entries a b stk (Suc i) ps v = (Inr es', w')" and es: "es = e # es'"
    and e: "e = new_entry g (fst (sys_time w)) i stk p (start_sector p + sectors p - 1)"
    by (auto simp: Let_def split: if_splits option.splits prod.splits sum.splits)
  have "entry_for p e"
    using e g parse_gpt_uuid_length [OF g] Cons.prems(2)
    by (auto simp: entry_for_def wf_entry_def length_utf16le_name new_entry_def)
  with es Cons.IH [OF v Cons.prems(2)] show ?case by simp
qed simp

text \<open>The checks the planned partitions have to pass.\<close>

lemma fill_entries_succeeds:
  "(\<forall>p \<in> set ps. \<not> start_sector p < a \<and> \<not> start_sector p + sectors p - 1 > b \<and> parse_gpt_uuid (gpt_type p) \<noteq> None) \<Longrightarrow>
   \<exists>es w'. fill_entries a b stk i ps w = (Inr es, w')"
proof (induction ps arbitrary: i w)
  case (Cons p ps)
  obtain now v where t: "sys_time w = (now, v)" by fastforce
  from Cons obtain es w' where "fill_entries a b stk (Suc i) ps v = (Inr es, w')" by fastforce
  with Cons.prems t show ?case by (auto simp: Let_def split: option.splits)
qed simp

lemma get_disk_size_bytes_same: "get_disk_size_bytes path w = (n, w') \<Longrightarrow> same_but_outs w w'"
  by (auto simp: get_disk_size_bytes_def get_disk_size_raw_sysfs_def read_u64_from_file_def Let_def
      split: prod.splits if_splits option.splits dest!: ask_ok_same ask_val_same; meson same_trans)

lemma sys_time_same: "sys_time w = (n, w') \<Longrightarrow> same_but_outs w w'"
  by (auto simp: sys_time_def split: prod.splits dest: ask_val_same)

text \<open>What the writer did when it reports success.\<close>

lemma native_ok:
  assumes "write_gpt_partition_table_native stk path ps w = (Inr (), w')"
  obtains bytes guid es where "1076887552 \<le> bytes" "length guid = 16" "length ps \<le> 128"
    "length stk = 36 \<Longrightarrow> list_all2 entry_for ps es"
    "only_dev path w w'" "devs w' path = put_lbas (gpt_writes (bytes div 512 - 1) guid es) (devs w path)"
    "fst (get_disk_size_bytes path w) = bytes"
proof -
  obtain bytes w1 where 1: "get_disk_size_bytes path w = (bytes, w1)" by fastforce
  obtain now w2 where 2: "sys_time w1 = (now, w2)" by fastforce
  let ?l = "bytes div 512 - 1" and ?guid = "generate_guid now 0x4750545f4449534b"
  obtain r w3 where 3: "fill_entries 34 (?l - 32 - 1) stk 0 ps w2 = (r, w3)" by fastforce
  obtain ok4 w4 where 4: "ask_ok w3 = (ok4, w4)" by fastforce
  from assms 1 have b: "\<not> bytes < 1076887552" "length ps \<le> 128" "\<not> ?l < 66" "ps \<noteq> []"
    by (auto simp: write_gpt_partition_table_native_def Let_def split: if_splits prod.splits)
  obtain es where es: "r = Inr es"
    using assms 1 2 3 b by (cases r) (auto simp: write_gpt_partition_table_native_def)
  obtain ok5 w5 where 5: "write_lbas path (gpt_writes ?l ?guid es) w4 = (ok5, w5)" by fastforce
  obtain ok6 w6 where 6: "ask_ok w5 = (ok6, w6)" by fastforce
  have "ok5" "w6 = w'"
    using assms 1 2 3 4 5 6 b es by (auto simp: write_gpt_partition_table_native_def split: if_splits)
  have s4: "same_but_outs w w4"
    using get_disk_size_bytes_same [OF 1] sys_time_same [OF 2] fill_entries_same [OF 3] ask_ok_same [OF 4]
    by (blast intro: same_trans)
  have w5: "only_dev path w4 w5" "devs w5 path = put_lbas (gpt_writes ?l ?guid es) (devs w4 path)"
    using write_lbas_ok [of path _ w4 w5] 5 \<open>ok5\<close> by auto
  have s6: "same_but_outs w5 w'" using ask_ok_same [OF 6] \<open>w6 = w'\<close> by simp
  show ?thesis
  proof (rule that)
    show "1076887552 \<le> bytes" using b by simp
    show "length stk = 36 \<Longrightarrow> list_all2 entry_for ps es"
      using fill_entries_ok 3 es by blast
    show "only_dev path w w'"
      using s4 w5(1) s6 same_only_dev only_dev_trans by blast
    show "devs w' path = put_lbas (gpt_writes ?l ?guid es) (devs w path)"
      using w5(2) by (simp add: same_fields [OF s4] same_fields [OF s6])
  qed (use b 1 in auto)
qed

section \<open>The disk after a GPT has been written\<close>

text \<open>What the five writes leave: the regions of the disk, for a table whose last sector is \<open>l\<close>.\<close>

lemma unat_last_lba:
  assumes "1076887552 \<le> (bytes :: u64)"
  defines "l \<equiv> bytes div 512 - 1"
  shows "unat l = unat bytes div 512 - 1" "2103295 \<le> unat l" "unat (l * 512) = unat l * 512"
    "unat ((l - 32) * 512) = (unat l - 32) * 512" "unat (l - 32) = unat l - 32"
proof -
  have b: "1076887552 \<le> unat bytes" "unat bytes < 2 ^ 64"
    using assms(1) unsigned_less [of bytes, where 'a = nat] by (simp_all add: word_le_nat_alt)
  have d: "unat (bytes div 512) = unat bytes div 512" by (simp add: unat_div)
  show l: "unat l = unat bytes div 512 - 1"
    unfolding l_def using b by (subst unat_sub_no_wrap) (auto simp: d)
  then show m: "2103295 \<le> unat l" using b by simp
  show "unat (l * 512) = unat l * 512"
    using b by (subst unat_mult_no_wrap) (auto simp: l)
  show s: "unat (l - 32) = unat l - 32"
    using m by (subst unat_sub_no_wrap) auto
  show "unat ((l - 32) * 512) = (unat l - 32) * 512"
    using b by (subst unat_mult_no_wrap) (auto simp: s l)
qed

lemma length_protective_mbr [simp]: "length (protective_mbr l) = 512"
  by (simp add: protective_mbr_def poke_def del: le_store_numeral)

lemma gpt_regions:
  fixes f :: "nat \<Rightarrow> byte"
  assumes l: "unat (l * 512) = unat l * 512" "unat ((l - 32) * 512) = (unat l - 32) * 512" "100 \<le> unat l"
    and g: "length guid = 16" and es: "list_all wf_entry es" "length es \<le> 128"
  defines "f' \<equiv> put_lbas (gpt_writes l guid es) f"
    and "E \<equiv> entries_bytes (es @ replicate (128 - length es) empty_entry)"
    and "P \<equiv> primary_header l guid (entries_bytes (es @ replicate (128 - length es) empty_entry))"
  shows "dev_read f' 0 512 = protective_mbr l" "dev_read f' 512 92 = header_bytes P" "dev_read f' 1024 16384 = E"
    "dev_read f' ((unat l - 32) * 512) 16384 = E"
    "dev_read f' (unat l * 512) 92 = header_bytes (backup_header l P)"
    "\<And>i. 17408 \<le> i \<Longrightarrow> i < (unat l - 32) * 512 \<Longrightarrow> f' i = f i"
proof -
  have E: "length E = 16384"
    using es by (subst E_def, subst length_entries_bytes) (auto simp: list_all_iff)
  have gP: "length (disk_guid P) = 16" "length (disk_guid (backup_header l P)) = 16"
    using g by (simp_all add: P_def primary_header_def backup_header_def with_crc_def)
  note lens = E length_header_bytes [OF gP(1)] length_header_bytes [OF gP(2)]
  have f': "f' = dev_write (dev_write (dev_write (dev_write (dev_write f 0 (protective_mbr l)) 512 (header_bytes P)) 1024 E)
      ((unat l - 32) * 512) E) (unat l * 512) (header_bytes (backup_header l P))"
    using l by (simp add: f'_def put_lbas_def gpt_writes_def Let_def E_def P_def)
  have far: "17408 \<le> (unat l - 32) * 512" "(unat l - 32) * 512 + 16384 = unat l * 512" using l(3) by auto
  show "dev_read f' 0 512 = protective_mbr l" "dev_read f' 512 92 = header_bytes P" "dev_read f' 1024 16384 = E"
    "dev_read f' ((unat l - 32) * 512) 16384 = E"
    "dev_read f' (unat l * 512) 92 = header_bytes (backup_header l P)"
    unfolding f' using far by (simp_all add: dev_read_write_other dev_read_write_same lens)
  show "f' i = f i" if "17408 \<le> i" "i < (unat l - 32) * 512" for i
    unfolding f' using far that by (simp add: dev_write_def lens)
qed

text \<open>The checks the UEFI specification (section 5.3.2) asks for: the signature, the header CRC
  computed with the field zeroed, the location, the CRC of the entry array.\<close>

definition gpt_copy_ok :: "(nat \<Rightarrow> byte) \<Rightarrow> nat \<Rightarrow> nat \<Rightarrow> nat \<Rightarrow> bool" where
  "gpt_copy_ok f lba alt ents \<longleftrightarrow>
     (let h = dev_read f (lba * 512) 92 in
      take 8 h = efi_part \<and>
      (le_load (take 4 (drop 16 h)) :: u32) = crc32_spec (poke h 16 [0, 0, 0, 0]) \<and>
      unat (le_load (take 8 (drop 24 h)) :: u64) = lba \<and>
      unat (le_load (take 8 (drop 32 h)) :: u64) = alt \<and>
      unat (le_load (take 8 (drop 72 h)) :: u64) = ents \<and>
      (le_load (take 4 (drop 80 h)) :: u32) = 128 \<and> (le_load (take 4 (drop 84 h)) :: u32) = 128 \<and>
      (le_load (take 4 (drop 88 h)) :: u32) = crc32_spec (dev_read f (ents * 512) 16384))"

lemma header_ok:
  assumes g: "length (disk_guid h) = 16" and H: "dev_read f (lba * 512) 92 = header_bytes (with_crc (h\<lparr>header_crc32 := 0\<rparr>))"
    and fields: "signature h = 0x5452415020494645" "unat (my_lba h) = lba" "unat (alternate_lba h) = alt"
      "unat (partition_entry_lba h) = ents" "num_partition_entries h = 128" "size_of_partition_entry h = 128"
      "partition_entry_array_crc32 h = gpt_crc32 (dev_read f (ents * 512) 16384)"
  shows "gpt_copy_ok f lba alt ents"
proof -
  let ?h = "with_crc (h\<lparr>header_crc32 := 0\<rparr>)"
  have g': "length (disk_guid ?h) = 16" using g by (simp add: with_crc_def)
  note hf = header_fields [OF g', of "[]", unfolded append_Nil2]
  have z: "poke (header_bytes ?h) 16 [0, 0, 0, 0] = header_bytes (h\<lparr>header_crc32 := 0\<rparr>)"
    by (simp add: header_zero_crc [OF g'], simp add: with_crc_def)
  have "header_crc32 ?h = crc32_spec (header_bytes (h\<lparr>header_crc32 := 0\<rparr>))"
    by (simp add: with_crc_def gpt_crc32_spec)
  moreover have "signature ?h = signature h" "my_lba ?h = my_lba h" "alternate_lba ?h = alternate_lba h"
    "partition_entry_lba ?h = partition_entry_lba h" "num_partition_entries ?h = num_partition_entries h"
    "size_of_partition_entry ?h = size_of_partition_entry h"
    "partition_entry_array_crc32 ?h = partition_entry_array_crc32 h"
    by (simp_all add: with_crc_def)
  ultimately show ?thesis
    unfolding gpt_copy_ok_def Let_def H hf z using fields efi_part_signature by (simp only: gpt_crc32_spec)
qed

section \<open>Finding the partitions again\<close>

text \<open>One entry in the scan, in terms of the entry itself.\<close>

definition has_type :: "gpt_entry \<Rightarrow> string \<Rightarrow> bool" where
  "has_type e u \<longleftrightarrow> \<not> (first_lba e = 0 \<and> last_lba e = 0) \<and> parse_gpt_uuid u = Some (type_guid e)"

lemma scan_gpt_entry_entries:
  assumes "list_all wf_entry es" "i < length es"
  shows "scan_gpt_entry (entries_bytes es) 128 (efi, root, rf) i =
    (let efi = (if has_type (es ! i) GPT_ESP_TYPE then i + 1 else efi) in
     if has_type (es ! i) GPT_LINUX_TYPE \<and> first_lba (es ! i) < rf then (efi, i + 1, first_lba (es ! i))
     else (efi, root, rf))"
proof -
  obtain r where r: "drop (i * 128) (entries_bytes es) = entry_bytes (es ! i) @ r"
    using drop_entries [OF assms] by blast
  have w: "wf_entry (es ! i)" using assms by (simp add: list_all_length)
  show ?thesis
    unfolding scan_gpt_entry_def Let_def case_prod_conv r is_type_entry [OF w] entry_fields [OF w]
      has_type_def [symmetric] ..
qed

lemma has_type_empty [simp]: "\<not> has_type empty_entry u"
  by (simp add: has_type_def empty_entry_def)

text \<open>The partitions of a plan: the EFI partition first, then the root file system, and no Linux
  partition before it.\<close>

definition efi_root_plan :: "partition_plan list \<Rightarrow> bool" where
  "efi_root_plan ps \<longleftrightarrow>
     (case ps of
        p # q # rest \<Rightarrow> gpt_type p = GPT_ESP_TYPE \<and> gpt_type q = GPT_LINUX_TYPE \<and>
          0 < start_sector p \<and> 0 < start_sector q \<and> start_sector q < - 1 \<and>
          list_all (\<lambda>r. (gpt_type r = GPT_LINUX_TYPE \<or> gpt_type r = GPT_SWAP_TYPE) \<and> start_sector q \<le> start_sector r) rest
      | _ \<Rightarrow> False)"

lemma types_distinct:
  "parse_gpt_uuid GPT_ESP_TYPE \<noteq> parse_gpt_uuid GPT_LINUX_TYPE"
  "parse_gpt_uuid GPT_ESP_TYPE \<noteq> parse_gpt_uuid GPT_SWAP_TYPE"
  "parse_gpt_uuid GPT_LINUX_TYPE \<noteq> parse_gpt_uuid GPT_SWAP_TYPE"
  unfolding parse_ESP parse_Linux parse_Swap by simp_all

lemma scan_plan_entries:
  assumes plan: "efi_root_plan ps" and es: "list_all2 entry_for ps es" and n: "length ps \<le> 128"
  defines "table \<equiv> entries_bytes (es @ replicate (128 - length es) empty_entry)"
  shows "\<exists>rf. foldl (scan_gpt_entry table 128) (0, 0, - 1) [0..<128] = (1, 2, rf)"
proof -
  let ?all = "es @ replicate (128 - length es) empty_entry"
  from plan obtain p q rest where ps: "ps = p # q # rest"
    and t: "gpt_type p = GPT_ESP_TYPE" "gpt_type q = GPT_LINUX_TYPE" "0 < start_sector p" "0 < start_sector q"
      "start_sector q < - 1"
      "list_all (\<lambda>r. (gpt_type r = GPT_LINUX_TYPE \<or> gpt_type r = GPT_SWAP_TYPE) \<and> start_sector q \<le> start_sector r) rest"
    unfolding efi_root_plan_def by (auto split: list.splits)
  from es ps obtain e f es' where el: "es = e # f # es'" "entry_for p e" "entry_for q f" "list_all2 entry_for rest es'"
    by (auto simp: list_all2_Cons1)
  have len: "length es = length ps" using es by (simp add: list_all2_lengthD)
  have wf: "list_all wf_entry ?all"
    using es by (auto simp: list_all_iff list_all2_conv_all_nth entry_for_def in_set_conv_nth)
  have lenall: "length ?all = 128" using n len by simp
  note step = scan_gpt_entry_entries [OF wf, folded table_def]
  have s0: "scan_gpt_entry table 128 (0, 0, - 1) 0 = (1, 0, - 1)"
    using step [of 0 0 0 "- 1"] lenall el(1,2) t types_distinct by (auto simp: entry_for_def has_type_def)
  have s1: "scan_gpt_entry table 128 (1, 0, - 1) 1 = (1, 2, start_sector q)"
    using step [of 1 1 0 "- 1"] lenall el(1,3) t types_distinct by (auto simp: entry_for_def has_type_def)
  have later: "scan_gpt_entry table 128 (1, 2, start_sector q) i = (1, 2, start_sector q)" if "2 \<le> i" "i < 128" for i
  proof (cases "i < length es")
    case True
    then have "i - 2 < length rest" using that len ps by simp
    moreover have "es ! i = es' ! (i - 2)" using that el(1) by (cases i; cases "i - 1") auto
    ultimately have "entry_for (rest ! (i - 2)) (?all ! i)"
      using el(4) True by (simp add: list_all2_conv_all_nth nth_append)
    moreover have "(gpt_type (rest ! (i - 2)) = GPT_LINUX_TYPE \<or> gpt_type (rest ! (i - 2)) = GPT_SWAP_TYPE) \<and>
        start_sector q \<le> start_sector (rest ! (i - 2))"
      using t(6) \<open>i - 2 < length rest\<close> by (simp add: list_all_length)
    ultimately show ?thesis
      using step [of i 1 2 "start_sector q"] that lenall types_distinct
      by (auto simp: has_type_def entry_for_def not_less)
  next
    case False
    then show ?thesis
      using step [of i 1 2 "start_sector q"] that lenall by (simp add: nth_append)
  qed
  have "foldl (scan_gpt_entry table 128) (1, 2, start_sector q) is = (1, 2, start_sector q)"
    if "\<forall>i \<in> set is. 2 \<le> i \<and> i < 128" for "is"
    using that by (induction "is") (simp_all add: later [unfolded One_nat_def])
  then have idle: "foldl (scan_gpt_entry table 128) (1, 2, start_sector q) [2..<128] = (1, 2, start_sector q)"
    by (metis atLeastLessThan_iff atLeastLessThan_upt)
  have "[0..<128] = 0 # 1 # [2..<128]"
    by (metis One_nat_def Suc_1 numeral_2_eq_2 one_less_numeral_iff semiring_norm(76,77) upt_conv_Cons zero_less_numeral)
  then have "foldl (scan_gpt_entry table 128) (0, 0, - 1) [0..<128] = (1, 2, start_sector q)"
    by (simp only: foldl_Cons s0 s1 idle)
  then show ?thesis ..
qed

lemma protective_entries:
  "foldl (scan_mbr_entry (protective_mbr l)) (0, 0) [0..<4] = (0, 0)"
proof -
  have "protective_mbr l ! 450 = 0xee" "protective_mbr l ! 466 = 0" "protective_mbr l ! 482 = 0" "protective_mbr l ! 498 = 0"
    by (simp_all add: protective_mbr_def poke_def nth_append)
  then show ?thesis by (simp add: scan_mbr_entry_def upt_rec Let_def)
qed

lemma sys_pread_result:
  "sys_pread path n off w = (r, w') \<Longrightarrow> same_but_outs w w' \<and> (r = None \<or> (\<exists>k \<le> n. r = Some (dev_read (devs w path) off k)))"
  by (auto simp: sys_pread_def xfer_def split: prod.splits option.splits dest!: ask_val_same simp: same_fields
      intro!: exI [of _ "min _ _"])

text \<open>A disk with a valid table of an EFI and a root partition: whatever the reads return, the
  numbers found are 1 and 2.\<close>

lemma discover_gpt:
  assumes d: "discover_partitions path w = (Some r, w')"
    and mbr: "dev_read (devs w path) 0 512 = protective_mbr l"
    and hdr: "dev_read (devs w path) 512 92 = header_bytes h" "length (disk_guid h) = 16"
      "signature h = 0x5452415020494645" "partition_entry_lba h = 2" "num_partition_entries h = 128"
      "size_of_partition_entry h = 128"
    and tab: "dev_read (devs w path) 1024 16384 = entries_bytes (es @ replicate (128 - length es) empty_entry)"
    and ps: "efi_root_plan ps" "list_all2 entry_for ps es" "length ps \<le> 128"
  shows "r = (1, 2)"
proof -
  obtain ok w1 where 1: "ask_ok w = (ok, w1)" by fastforce
  have s1: "same_but_outs w w1" using 1 by (rule ask_ok_same)
  obtain r1 w2 where 2: "sys_pread path 512 512 w1 = (r1, w2)" by fastforce
  note r1 = sys_pread_result [OF 2]
  from d 1 have ok: ok by (auto simp: discover_partitions_def split: if_splits)
  have dev: "devs w1 path = devs w path" "devs w2 path = devs w path"
    using s1 r1 by (auto simp: same_fields)
  show ?thesis
  proof (cases "has_signature r1")
    case True
    then have "r1 = Some (dev_read (devs w path) 512 (92 + 420))"
      using r1 dev by (auto simp: has_signature_def split: option.splits)
    then obtain x where x: "r1 = Some (header_bytes h @ x)"
      by (simp only: dev_read_append hdr(1))
    obtain S where S: "r1 = Some S" "(le_load (take 8 (drop 72 S)) :: u64) = 2"
        "(le_load (take 4 (drop 80 S)) :: u32) = 128" "(le_load (take 4 (drop 84 S)) :: u32) = 128"
      by (rule that [OF x header_fields(2-4) [OF hdr(2), of x, unfolded hdr(4-6)]])
    obtain ok3 w3 where 3: "ask_ok w2 = (ok3, w3)" by fastforce
    obtain t w4 where 4: "sys_pread path 16384 1024 w3 = (t, w4)" by fastforce
    note t = sys_pread_result [OF 4]
    have dev3: "devs w3 path = devs w path" using ask_ok_same [OF 3] dev by (simp add: same_fields)
    obtain rf where rf: "foldl (scan_gpt_entry (entries_bytes (es @ replicate (128 - length es) empty_entry)) 128)
        (0, 0, - 1) [0..<128] = (1, 2, rf)"
      using scan_plan_entries [OF ps] by blast
    have "t = None \<or> (\<exists>k. t = Some (dev_read (devs w path) 1024 k))" using t dev3 by auto
    then show ?thesis
      using d 1 2 3 4 True ok S tab rf
      by (auto simp: discover_partitions_def default_parts_def split: if_splits option.splits)
  next
    case False
    obtain r3 w3 where 3: "sys_pread path 512 0 w2 = (r3, w3)" by fastforce
    from sys_pread_result [OF 3] dev have "r3 = None \<or> (\<exists>k. r3 = Some (dev_read (devs w path) 0 k))" by auto
    then show ?thesis
      using d 1 2 3 False ok mbr protective_entries
      by (auto simp: discover_partitions_def default_parts_def split: if_splits option.splits)
  qed
qed

end
