(* ===== verification/INST_SHA256.thy ===== *)
theory INST_SHA256
  imports Prelude
begin

unbundle bit_operations_syntax

text \<open>
  The SHA-256 implementation of \<^verbatim>\<open>src/tools/install-eclipse/install-eclipse.c\<close>: the context with
  its 64-byte buffer and 64-bit bit counter, \<open>sha256_transform\<close>, the incremental
  \<open>sha256_init\<close>/\<open>update\<close>/\<open>final\<close> and the hexadecimal digest.

  \<open>sha256_update\<close> is shown to be the iteration of a one-byte step, which makes it an instance of
  the interface \<open>streaming\<close>; the digest of any sequence of updates is the one that FIPS 180-4
  defines for the concatenation (\<open>sha256_fips\<close>: padding, message schedule by recursion, compression
  with rotations of the word library). The counter wraps at 2^64 bits in both.
\<close>

section \<open>The implementation\<close>

record sha256_ctx =
  sha_state :: "u32 list"
  bitcount :: u64
  buffer :: "byte list"

definition sha256_k :: "u32 list" where
  "sha256_k = [
    0x428a2f98, 0x71374491, 0xb5c0fbcf, 0xe9b5dba5, 0x3956c25b, 0x59f111f1, 0x923f82a4, 0xab1c5ed5,
    0xd807aa98, 0x12835b01, 0x243185be, 0x550c7dc3, 0x72be5d74, 0x80deb1fe, 0x9bdc06a7, 0xc19bf174,
    0xe49b69c1, 0xefbe4786, 0x0fc19dc6, 0x240ca1cc, 0x2de92c6f, 0x4a7484aa, 0x5cb0a9dc, 0x76f988da,
    0x983e5152, 0xa831c66d, 0xb00327c8, 0xbf597fc7, 0xc6e00bf3, 0xd5a79147, 0x06ca6351, 0x14292967,
    0x27b70a85, 0x2e1b2138, 0x4d2c6dfc, 0x53380d13, 0x650a7354, 0x766a0abb, 0x81c2c92e, 0x92722c85,
    0xa2bfe8a1, 0xa81a664b, 0xc24b8b70, 0xc76c51a3, 0xd192e819, 0xd6990624, 0xf40e3585, 0x106aa070,
    0x19a4c116, 0x1e376c08, 0x2748774c, 0x34b0bcb5, 0x391c0cb3, 0x4ed8aa4a, 0x5b9cca4f, 0x682e6ff3,
    0x748f82ee, 0x78a5636f, 0x84c87814, 0x8cc70208, 0x90befffa, 0xa4506ceb, 0xbef9a3f7, 0xc67178f2]"

definition sha256_rotr :: "u32 \<Rightarrow> nat \<Rightarrow> u32" where
  "sha256_rotr x n = drop_bit n x OR push_bit (32 - n) x"

definition sha256_init :: sha256_ctx where
  "sha256_init = \<lparr>sha_state = [0x6a09e667, 0xbb67ae85, 0x3c6ef372, 0xa54ff53a, 0x510e527f, 0x9b05688c,
     0x1f83d9ab, 0x5be0cd19], bitcount = 0, buffer = replicate 64 0\<rparr>"

text \<open>The first loop of \<open>sha256_transform\<close>: the big-endian words of the block; the second: the
  message schedule.\<close>

definition block_word :: "byte list \<Rightarrow> nat \<Rightarrow> u32" where
  "block_word block i = push_bit 24 (ucast (block ! (i * 4))) OR push_bit 16 (ucast (block ! (i * 4 + 1)))
     OR push_bit 8 (ucast (block ! (i * 4 + 2))) OR ucast (block ! (i * 4 + 3))"

definition schedule_step :: "u32 list \<Rightarrow> nat \<Rightarrow> u32 list" where
  "schedule_step w i =
     (let s0 = sha256_rotr (w ! (i - 15)) 7 XOR sha256_rotr (w ! (i - 15)) 18 XOR drop_bit 3 (w ! (i - 15));
          s1 = sha256_rotr (w ! (i - 2)) 17 XOR sha256_rotr (w ! (i - 2)) 19 XOR drop_bit 10 (w ! (i - 2))
      in w @ [w ! (i - 16) + s0 + w ! (i - 7) + s1])"

definition sha256_schedule :: "byte list \<Rightarrow> u32 list" where
  "sha256_schedule block = foldl schedule_step (map (block_word block) [0..<16]) [16..<64]"

text \<open>One round on the working variables a to h.\<close>

definition sha256_round :: "u32 list \<Rightarrow> u32 list \<Rightarrow> nat \<Rightarrow> u32 list" where
  "sha256_round w v i =
     (case v of [a, b, c, d, e, f, g, h] \<Rightarrow>
        let s1 = sha256_rotr e 6 XOR sha256_rotr e 11 XOR sha256_rotr e 25;
            ch = (e AND f) XOR (NOT e AND g);
            temp1 = h + s1 + ch + sha256_k ! i + w ! i;
            s0 = sha256_rotr a 2 XOR sha256_rotr a 13 XOR sha256_rotr a 22;
            maj = (a AND b) XOR (a AND c) XOR (b AND c);
            temp2 = s0 + maj
        in [temp1 + temp2, a, b, c, d + temp1, e, f, g])"

definition sha256_compress :: "u32 list \<Rightarrow> byte list \<Rightarrow> u32 list" where
  "sha256_compress st block = map2 (+) st (foldl (sha256_round (sha256_schedule block)) st [0..<64])"

definition sha256_transform :: "sha256_ctx \<Rightarrow> byte list \<Rightarrow> sha256_ctx" where
  "sha256_transform ctx block = ctx\<lparr>sha_state := sha256_compress (sha_state ctx) block\<rparr>"

definition ctx_fill :: "sha256_ctx \<Rightarrow> nat" where
  "ctx_fill ctx = unat (bitcount ctx div 8 mod 64)"

lemma ctx_fill_eq: "ctx_fill ctx = unat (bitcount ctx) div 8 mod 64"
  by (simp add: ctx_fill_def unat_div unat_mod)

lemma ctx_fill_less: "ctx_fill ctx < 64"
  by (simp add: ctx_fill_eq)

text \<open>The loop of \<open>sha256_update\<close> over the data that remain.\<close>

function sha256_update :: "sha256_ctx \<Rightarrow> byte list \<Rightarrow> sha256_ctx" where
  "sha256_update ctx data =
     (if data = [] then ctx
      else
        let fill = ctx_fill ctx; left = 64 - fill; chunk = length data in
        if left \<le> chunk
        then
          let ctx = ctx\<lparr>buffer := poke (buffer ctx) fill (take left data)\<rparr>;
              ctx = ctx\<lparr>bitcount := bitcount ctx + of_nat left * 8\<rparr>
          in sha256_update (sha256_transform ctx (buffer ctx)) (drop left data)
        else ctx\<lparr>buffer := poke (buffer ctx) fill data, bitcount := bitcount ctx + of_nat chunk * 8\<rparr>)"
  by auto

termination
  by (relation "measure (\<lambda>(ctx, data). length data)") (use ctx_fill_less in \<open>auto simp: not_less\<close>)

declare sha256_update.simps [simp del]

text \<open>The eight length bytes, most significant first.\<close>

definition len_be :: "u64 \<Rightarrow> byte list" where
  "len_be bits = be_store 8 bits"

definition state_bytes :: "u32 \<Rightarrow> byte list" where
  "state_bytes s = [ucast (drop_bit 24 s), ucast (drop_bit 16 s), ucast (drop_bit 8 s), ucast s]"

definition sha256_final :: "sha256_ctx \<Rightarrow> byte list" where
  "sha256_final ctx =
     (let fill = ctx_fill ctx;
          padlen = (if fill < 56 then 56 - fill else 64 + 56 - fill);
          bits = bitcount ctx;
          pad = (replicate 64 0)[0 := 0x80];
          ctx = sha256_update ctx (take padlen pad);
          ctx = sha256_update ctx (len_be bits)
      in concat (map state_bytes (sha_state ctx)))"

definition hex_digit :: "byte \<Rightarrow> char" where
  "hex_digit b = ''0123456789abcdef'' ! unat b"

definition sha256_hex_digest :: "byte list \<Rightarrow> string" where
  "sha256_hex_digest digest = concat (map (\<lambda>b. [hex_digit (drop_bit 4 b), hex_digit (b AND 0x0f)]) digest)"

definition sha256_hex_buffer :: "byte list \<Rightarrow> string" where
  "sha256_hex_buffer data = sha256_hex_digest (sha256_final (sha256_update sha256_init data))"

section \<open>One byte at a time\<close>

definition sha_step :: "sha256_ctx \<Rightarrow> byte \<Rightarrow> sha256_ctx" where
  "sha_step ctx b =
     (let f = ctx_fill ctx;
          ctx = ctx\<lparr>buffer := (buffer ctx)[f := b], bitcount := bitcount ctx + 8\<rparr>
      in if f = 63 then sha256_transform ctx (buffer ctx) else ctx)"

lemma fill_advance: "unat (bc + of_nat k * 8 :: u64) div 8 mod 64 = (unat bc div 8 + k) mod 64"
proof -
  have "unat (bc + of_nat k * 8 :: u64) = (unat bc + k * 8) mod 2 ^ 64"
  proof -
    have "bc + of_nat k * 8 = (of_nat (unat bc + k * 8) :: u64)" by simp
    then show ?thesis by (simp only: unat_of_nat) simp
  qed
  moreover have "(unat bc + k * 8) mod 2 ^ 64 div 8 mod 64 = (unat bc + k * 8) div 8 mod 64"
  proof -
    have d: "x div 8 mod 64 = (x mod 512) div 8" for x :: nat
      using mod_mult2_eq [of x 8 64] by simp
    have "(unat bc + k * 8) mod 2 ^ 64 mod 512 = (unat bc + k * 8) mod 512"
      by (rule mod_mod_cancel) simp
    then show ?thesis by (simp only: d)
  qed
  ultimately show ?thesis by (simp add: add.commute)
qed

lemma length_poke: "off + length bs \<le> length a \<Longrightarrow> length (poke a off bs) = length a"
  by (simp add: poke_def)

lemma poke_snoc:
  "off + length bs < length a \<Longrightarrow> (poke a off bs)[off + length bs := b] = poke a off (bs @ [b])"
  by (simp add: poke_def list_update_append)
     (metis Cons_nth_drop_Suc add.commute add_Suc list_update_code(2) plus_1_eq_Suc)

lemma steps_partial:
  assumes "length (buffer ctx) = 64" "ctx_fill ctx + length xs \<le> 63"
  shows "foldl sha_step ctx xs =
    ctx\<lparr>buffer := poke (buffer ctx) (ctx_fill ctx) xs, bitcount := bitcount ctx + of_nat (length xs) * 8\<rparr>"
  using assms(2)
proof (induction xs rule: rev_induct)
  case Nil
  then show ?case by (simp add: poke_def)
next
  case (snoc x xs)
  let ?c = "ctx\<lparr>buffer := poke (buffer ctx) (ctx_fill ctx) xs, bitcount := bitcount ctx + of_nat (length xs) * 8\<rparr>"
  have "(unat (bitcount ctx) div 8 + length xs) mod 64 = (unat (bitcount ctx) div 8 mod 64 + length xs) mod 64"
    by (metis mod_add_left_eq)
  then have f: "ctx_fill ?c = ctx_fill ctx + length xs"
    using snoc.prems by (simp add: ctx_fill_eq fill_advance)
  from snoc have "foldl sha_step ctx (xs @ [x]) = sha_step ?c x" by simp
  also have "\<dots> = ctx\<lparr>buffer := poke (buffer ctx) (ctx_fill ctx) (xs @ [x]),
      bitcount := bitcount ctx + of_nat (length (xs @ [x])) * 8\<rparr>"
    using f snoc.prems assms(1) by (simp add: sha_step_def poke_snoc algebra_simps)
  finally show ?case .
qed

lemma steps_block:
  assumes "length (buffer ctx) = 64" "length xs = 64 - ctx_fill ctx"
  shows "foldl sha_step ctx xs =
    (let ctx' = ctx\<lparr>buffer := poke (buffer ctx) (ctx_fill ctx) xs, bitcount := bitcount ctx + of_nat (length xs) * 8\<rparr>
     in sha256_transform ctx' (buffer ctx'))"
proof -
  obtain ys y where xs: "xs = ys @ [y]"
    using assms(2) ctx_fill_less [of ctx] by (metis append_butlast_last_id length_greater_0_conv zero_less_diff)
  let ?c = "ctx\<lparr>buffer := poke (buffer ctx) (ctx_fill ctx) ys, bitcount := bitcount ctx + of_nat (length ys) * 8\<rparr>"
  have ys: "ctx_fill ctx + length ys = 63" using assms(2) ctx_fill_less [of ctx] by (simp add: xs)
  have "(unat (bitcount ctx) div 8 + length ys) mod 64 = (unat (bitcount ctx) div 8 mod 64 + length ys) mod 64"
    by (metis mod_add_left_eq)
  then have f: "ctx_fill ?c = 63"
    using ys by (simp add: ctx_fill_eq fill_advance)
  have "foldl sha_step ctx ys = ?c"
    by (rule steps_partial) (use assms(1) ys in auto)
  then have "foldl sha_step ctx xs = sha_step ?c y" by (simp add: xs)
  moreover have "(poke (buffer ctx) (ctx_fill ctx) ys)[63 := y] = poke (buffer ctx) (ctx_fill ctx) (ys @ [y])"
    using poke_snoc [of "ctx_fill ctx" ys "buffer ctx" y] ys assms(1) by simp
  ultimately show ?thesis
    using f by (simp add: sha_step_def) (simp add: xs algebra_simps)
qed

lemma buffer_step [simp]: "length (buffer (sha_step ctx b)) = length (buffer ctx)"
  by (simp add: sha_step_def Let_def sha256_transform_def)

lemma buffer_steps [simp]: "length (buffer (foldl sha_step ctx xs)) = length (buffer ctx)"
  by (induction xs arbitrary: ctx) auto

lemma sha256_update_steps: "length (buffer ctx) = 64 \<Longrightarrow> sha256_update ctx data = foldl sha_step ctx data"
proof (induction ctx data rule: sha256_update.induct)
  case (1 ctx data)
  let ?left = "64 - ctx_fill ctx"
  show ?case
  proof (cases "data = [] \<or> length data < ?left")
    case True
    then show ?thesis
      using "1.prems" by (auto simp: sha256_update.simps steps_partial not_le)
  next
    case False
    let ?c = "ctx\<lparr>buffer := poke (buffer ctx) (ctx_fill ctx) (take ?left data), bitcount := bitcount ctx + of_nat ?left * 8\<rparr>"
    have b: "foldl sha_step ctx (take ?left data) = sha256_transform ?c (buffer ?c)"
      using steps_block [OF "1.prems", of "take ?left data"] False by (simp add: Let_def)
    then have len: "length (buffer (sha256_transform ?c (buffer ?c))) = 64"
      using "1.prems" by (metis buffer_steps)
    have "sha256_update ctx data = sha256_update (sha256_transform ?c (buffer ?c)) (drop ?left data)"
      using False by (subst sha256_update.simps) (simp add: Let_def)
    also have "\<dots> = foldl sha_step (sha256_transform ?c (buffer ?c)) (drop ?left data)"
      using "1.IH" [OF _ refl refl refl _ refl refl] False len by simp
    also have "\<dots> = foldl sha_step ctx (take ?left data @ drop ?left data)"
      by (simp only: foldl_append b)
    finally show ?thesis by simp
  qed
qed

definition sha_inv :: "sha256_ctx \<Rightarrow> bool" where
  "sha_inv ctx \<longleftrightarrow> length (buffer ctx) = 64"

interpretation sha: streaming sha256_update sha_inv
  by unfold_locales (simp_all add: sha_inv_def sha256_update_steps)

section \<open>The standard\<close>

text \<open>FIPS 180-4: the functions of section 4.1.2 with the rotations of the word library, the
  message schedule as a recursive function of the round, the padding of section 5.1.1 and the hash
  computation of section 6.2.2. The constants are those of the table; \<open>fips_constants\<close> checks the
  table against their description as the leading fractional bits of cube and square roots of the
  first primes.\<close>

definition fips_Ch :: "u32 \<Rightarrow> u32 \<Rightarrow> u32 \<Rightarrow> u32" where
  "fips_Ch x y z = (x AND y) XOR (NOT x AND z)"

definition fips_Maj :: "u32 \<Rightarrow> u32 \<Rightarrow> u32 \<Rightarrow> u32" where
  "fips_Maj x y z = (x AND y) XOR (x AND z) XOR (y AND z)"

definition fips_S0 :: "u32 \<Rightarrow> u32" where
  "fips_S0 x = word_rotr 2 x XOR word_rotr 13 x XOR word_rotr 22 x"

definition fips_S1 :: "u32 \<Rightarrow> u32" where
  "fips_S1 x = word_rotr 6 x XOR word_rotr 11 x XOR word_rotr 25 x"

definition fips_s0 :: "u32 \<Rightarrow> u32" where
  "fips_s0 x = word_rotr 7 x XOR word_rotr 18 x XOR drop_bit 3 x"

definition fips_s1 :: "u32 \<Rightarrow> u32" where
  "fips_s1 x = word_rotr 17 x XOR word_rotr 19 x XOR drop_bit 10 x"

fun fips_W :: "byte list \<Rightarrow> nat \<Rightarrow> u32" where
  "fips_W M t =
     (if t < 16 then be_load (take 4 (drop (4 * t) M))
      else fips_s1 (fips_W M (t - 2)) + fips_W M (t - 7) + fips_s0 (fips_W M (t - 15)) + fips_W M (t - 16))"

declare fips_W.simps [simp del]

type_synonym fips_state = "u32 \<times> u32 \<times> u32 \<times> u32 \<times> u32 \<times> u32 \<times> u32 \<times> u32"

fun fips_rounds :: "byte list \<Rightarrow> fips_state \<Rightarrow> nat \<Rightarrow> fips_state" where
  "fips_rounds M H 0 = H"
| "fips_rounds M H (Suc t) =
     (case fips_rounds M H t of (a, b, c, d, e, f, g, h) \<Rightarrow>
        let T1 = h + fips_S1 e + fips_Ch e f g + sha256_k ! t + fips_W M t;
            T2 = fips_S0 a + fips_Maj a b c
        in (T1 + T2, a, b, c, d + T1, e, f, g))"

fun fips_block :: "byte list \<Rightarrow> fips_state \<Rightarrow> fips_state" where
  "fips_block M (H0, H1, H2, H3, H4, H5, H6, H7) =
     (case fips_rounds M (H0, H1, H2, H3, H4, H5, H6, H7) 64 of (a, b, c, d, e, f, g, h) \<Rightarrow>
        (H0 + a, H1 + b, H2 + c, H3 + d, H4 + e, H5 + f, H6 + g, H7 + h))"

definition fips_H0 :: fips_state where
  "fips_H0 = (0x6a09e667, 0xbb67ae85, 0x3c6ef372, 0xa54ff53a, 0x510e527f, 0x9b05688c, 0x1f83d9ab, 0x5be0cd19)"

definition fips_pad :: "byte list \<Rightarrow> byte list" where
  "fips_pad m = m @ 0x80 # replicate ((119 - length m mod 64) mod 64) 0 @ be_store 8 (of_nat (8 * length m) :: u64)"

function fips_hash :: "fips_state \<Rightarrow> byte list \<Rightarrow> fips_state" where
  "fips_hash H m = (if length m < 64 then H else fips_hash (fips_block (take 64 m) H) (drop 64 m))"
  by auto
termination by (relation "measure (\<lambda>(H, m). length m)") auto

declare fips_hash.simps [simp del]

fun fips_digest :: "fips_state \<Rightarrow> byte list" where
  "fips_digest (H0, H1, H2, H3, H4, H5, H6, H7) = concat (map (be_store 4) [H0, H1, H2, H3, H4, H5, H6, H7])"

definition sha256_fips :: "byte list \<Rightarrow> byte list" where
  "sha256_fips m = fips_digest (fips_hash fips_H0 (fips_pad m))"

text \<open>The constants.\<close>

definition int_root :: "nat \<Rightarrow> nat \<Rightarrow> nat" where
  "int_root e p = length (filter (\<lambda>i. i ^ e \<le> p) [1, 2, 3, 4, 5, 6, 7])"

definition root_bits :: "nat \<Rightarrow> nat \<Rightarrow> u32 \<Rightarrow> bool" where
  "root_bits e p k \<longleftrightarrow> (let c = int_root e p * 2 ^ 32 + unat k in c ^ e \<le> p * 2 ^ (32 * e) \<and> p * 2 ^ (32 * e) < (c + 1) ^ e)"

definition first_primes :: "nat list" where
  "first_primes = [2, 3, 5, 7, 11, 13, 17, 19, 23, 29, 31, 37, 41, 43, 47, 53, 59, 61, 67, 71, 73, 79, 83, 89,
     97, 101, 103, 107, 109, 113, 127, 131, 137, 139, 149, 151, 157, 163, 167, 173, 179, 181, 191, 193, 197, 199,
     211, 223, 227, 229, 233, 239, 241, 251, 257, 263, 269, 271, 277, 281, 283, 293, 307, 311]"

lemma fips_constants:
  "list_all2 (root_bits 3) first_primes sha256_k"
  "list_all2 (root_bits 2) (take 8 first_primes) (sha_state sha256_init)"
  by (simp_all add: root_bits_def int_root_def first_primes_def sha256_k_def sha256_init_def)

section \<open>The implementation computes the standard's function\<close>

lemma sha256_rotr_word_rotr: "0 < n \<Longrightarrow> n < 32 \<Longrightarrow> sha256_rotr x n = word_rotr n x"
proof (rule bit_word_eqI)
  fix i assume "0 < n" "n < 32" "i < LENGTH(32)"
  moreover then have "\<not> bit x (n + i)" if "32 \<le> n + i"
    using that bit_imp_le_length [of x "n + i"] by auto
  ultimately show "bit (sha256_rotr x n) i = bit (word_rotr n x) i"
    by (cases "i + n < 32") (auto simp: sha256_rotr_def bit_simps mod_if [of "i + n"] add.commute)
qed

lemma block_word_be: "length M = 64 \<Longrightarrow> i < 16 \<Longrightarrow> block_word M i = be_load (take 4 (drop (4 * i) M))"
proof -
  assume a: "length M = 64" "i < 16"
  then have "take 4 (drop (4 * i) M) = [M ! (i * 4), M ! (i * 4 + 1), M ! (i * 4 + 2), M ! (i * 4 + 3)]"
    by (intro nth_equalityI) (auto simp: nth_Cons' less_Suc_eq numeral_eq_Suc mult.commute)
  then show ?thesis
    by (simp add: block_word_def be_load_def push_bit_or ac_simps)
qed

lemma schedule_prefix:
  "length M = 64 \<Longrightarrow> foldl schedule_step (map (block_word M) [0..<16]) [16..<16 + k] = map (fips_W M) [0..<16 + k]"
proof (induction k)
  case 0
  then show ?case by (simp add: block_word_be fips_W.simps)
next
  case (Suc k)
  have "fips_W M (16 + k) = fips_W M k + fips_s0 (fips_W M (k + 1)) + fips_W M (k + 9) + fips_s1 (fips_W M (k + 14))"
    by (subst fips_W.simps) (simp add: ac_simps)
  then have "schedule_step (map (fips_W M) [0..<16 + k]) (16 + k) = map (fips_W M) [0..<16 + k] @ [fips_W M (16 + k)]"
    by (simp add: schedule_step_def sha256_rotr_word_rotr fips_s0_def fips_s1_def add.commute [of k])
  moreover have "[a..<16 + Suc k] = [a..<16 + k] @ [16 + k]" if "a \<le> 16 + k" for a
    using that by (metis add_Suc_right upt_Suc_append)
  ultimately show ?case using Suc by simp
qed

lemma schedule_fips: "length M = 64 \<Longrightarrow> sha256_schedule M = map (fips_W M) [0..<64]"
  using schedule_prefix [of M 48] by (simp add: sha256_schedule_def)

fun state_list :: "fips_state \<Rightarrow> u32 list" where
  "state_list (a, b, c, d, e, f, g, h) = [a, b, c, d, e, f, g, h]"

lemma round_fips:
  "i < 64 \<Longrightarrow> length M = 64 \<Longrightarrow>
   sha256_round (sha256_schedule M) (state_list (a, b, c, d, e, f, g, h)) i =
     (let T1 = h + fips_S1 e + fips_Ch e f g + sha256_k ! i + fips_W M i; T2 = fips_S0 a + fips_Maj a b c
      in state_list (T1 + T2, a, b, c, d + T1, e, f, g))"
  by (simp add: sha256_round_def schedule_fips sha256_rotr_word_rotr fips_S0_def fips_S1_def fips_Ch_def fips_Maj_def)

lemma rounds_fips:
  "length M = 64 \<Longrightarrow> k \<le> 64 \<Longrightarrow>
   foldl (sha256_round (sha256_schedule M)) (state_list H) [0..<k] = state_list (fips_rounds M H k)"
proof (induction k)
  case (Suc k)
  obtain a b c d e f g h where r: "fips_rounds M H k = (a, b, c, d, e, f, g, h)"
    by (metis prod.collapse)
  with Suc show ?case
    by (simp add: round_fips Let_def del: state_list.simps)
qed simp

lemma compress_fips: "length M = 64 \<Longrightarrow> sha256_compress (state_list H) M = state_list (fips_block M H)"
proof -
  assume "length M = 64"
  then have "sha256_compress (state_list H) M = map2 (+) (state_list H) (state_list (fips_rounds M H 64))"
    by (simp add: sha256_compress_def rounds_fips del: state_list.simps)
  then show ?thesis
    by (cases H rule: fips_digest.cases; cases "fips_rounds M H 64" rule: fips_digest.cases) simp
qed

text \<open>What the context holds after the bytes \<open>m\<close>: the hash of the complete blocks, the bit count,
  and the incomplete block at the front of the buffer.\<close>

definition absorbed :: "sha256_ctx \<Rightarrow> byte list \<Rightarrow> bool" where
  "absorbed ctx m \<longleftrightarrow>
     sha_state ctx = state_list (fips_hash fips_H0 m) \<and> bitcount ctx = of_nat (8 * length m) \<and>
     length (buffer ctx) = 64 \<and> take (length m mod 64) (buffer ctx) = drop (length m div 64 * 64) m"

lemma absorbed_init: "absorbed sha256_init []"
  by (simp add: absorbed_def sha256_init_def fips_hash.simps fips_H0_def)

lemma absorbed_fill: "absorbed ctx m \<Longrightarrow> ctx_fill ctx = length m mod 64"
  using fill_advance [of 0 "length m"] by (simp add: absorbed_def ctx_fill_eq mult.commute)

lemma fips_hash_snoc_partial: "length m mod 64 \<noteq> 63 \<Longrightarrow> fips_hash H (m @ [b]) = fips_hash H m"
proof (induction H m rule: fips_hash.induct)
  case (1 H m)
  show ?case
  proof (cases "length m < 64")
    case True
    with 1 show ?thesis by (simp add: fips_hash.simps)
  next
    case False
    then have "length (drop 64 m) mod 64 \<noteq> 63"
      using "1.prems" by (simp add: mod_if [of "length m"])
    with False "1.IH" show ?thesis
      by (simp add: fips_hash.simps [of H "m @ [b]"] fips_hash.simps [of H m])
  qed
qed

lemma fips_hash_snoc_block:
  "length m mod 64 = 63 \<Longrightarrow>
   fips_hash H (m @ [b]) = fips_block (drop (length m div 64 * 64) m @ [b]) (fips_hash H m)"
proof (induction H m rule: fips_hash.induct)
  case (1 H m)
  show ?case
  proof (cases "length m < 64")
    case True
    with 1 show ?thesis by (simp add: fips_hash.simps)
  next
    case False
    then have m: "length (drop 64 m) mod 64 = 63" "length m div 64 = Suc (length (drop 64 m) div 64)"
      using "1.prems" by (simp_all add: mod_if [of "length m"] div_if [of 64 "length m"])
    with False "1.IH" show ?thesis
      by (simp add: fips_hash.simps [of H "m @ [b]"] fips_hash.simps [of H m] add.commute)
  qed
qed

lemma take_update_snoc: "k < length xs \<Longrightarrow> take (Suc k) (xs[k := b]) = take k xs @ [b]"
  by (simp add: take_Suc_conv_app_nth)

lemma absorbed_step:
  assumes a: "absorbed ctx m"
  shows "absorbed (sha_step ctx b) (m @ [b])"
proof (cases "length m mod 64 = 63")
  case True
  let ?B = "(buffer ctx)[63 := b]"
  from a True have B: "?B = drop (length m div 64 * 64) m @ [b]"
    using take_update_snoc [of 63 "buffer ctx" b] by (simp add: absorbed_def)
  have n: "Suc (length m) mod 64 = 0" "Suc (length m) div 64 * 64 = Suc (length m)"
    using True div_mult_mod_eq [of "Suc (length m)" 64] by (simp_all add: mod_Suc)
  have "sha256_compress (sha_state ctx) ?B = state_list (fips_hash fips_H0 (m @ [b]))"
    using a by (subst fips_hash_snoc_block [OF True], subst B [symmetric]) (simp add: absorbed_def compress_fips)
  moreover have "ctx_fill ctx = 63" using absorbed_fill [OF a] True by simp
  ultimately show ?thesis
    using a True n by (simp add: absorbed_def sha_step_def Let_def sha256_transform_def)
next
  case False
  have n: "Suc (length m) mod 64 = Suc (length m mod 64)" "Suc (length m) div 64 = length m div 64"
    using False by (simp_all add: mod_Suc div_Suc)
  have f: "ctx_fill ctx = length m mod 64" by (rule absorbed_fill [OF a])
  have t: "take (Suc (length m mod 64)) ((buffer ctx)[length m mod 64 := b]) = drop (length m div 64 * 64) m @ [b]"
    using a by (subst take_update_snoc) (auto simp: absorbed_def)
  have "sha_step ctx b = ctx\<lparr>buffer := (buffer ctx)[length m mod 64 := b], bitcount := bitcount ctx + 8\<rparr>"
    using False by (simp add: sha_step_def f Let_def)
  then show ?thesis
    using a False n t by (simp add: absorbed_def fips_hash_snoc_partial)
qed

lemma absorbed_update: "absorbed ctx m \<Longrightarrow> absorbed (sha256_update ctx data) (m @ data)"
proof -
  assume a: "absorbed ctx m"
  have "absorbed (foldl sha_step ctx data) (m @ data)"
    by (induction data rule: rev_induct) (use a absorbed_step in \<open>force simp flip: append_assoc\<close>)+
  moreover have "length (buffer ctx) = 64" using a by (simp add: absorbed_def)
  ultimately show ?thesis by (simp add: sha256_update_steps)
qed

lemma state_bytes_be: "state_bytes s = be_store 4 s"
  by (simp add: state_bytes_def be_store_def drop_bit_drop_bit)

lemma pad_zeros: "f < 64 \<Longrightarrow> (119 - f) mod 64 = (if f < 56 then 55 - f else 119 - f)" for f :: nat
  using mod_add_self2 [of "55 - f" 64] by (auto simp del: mod_add_self2)

lemma padlen_eq:
  "f < 64 \<Longrightarrow> (if f < 56 then 56 - f else 64 + 56 - f) = Suc ((119 - f) mod 64)"
  "f < 64 \<Longrightarrow> (if f < 56 then 56 - f else 64 + 56 - f) \<le> 64" for f :: nat
  by (auto simp: pad_zeros)

lemma final_pad:
  assumes "absorbed ctx m"
  shows "absorbed (sha256_update (sha256_update ctx (take (if ctx_fill ctx < 56 then 56 - ctx_fill ctx
      else 64 + 56 - ctx_fill ctx) ((replicate 64 0)[0 := 0x80]))) (len_be (bitcount ctx))) (fips_pad m)"
proof -
  let ?f = "length m mod 64" and ?p = "(replicate 64 0)[0 := 0x80] :: byte list"
  let ?n = "if ?f < 56 then 56 - ?f else 64 + 56 - ?f"
  have f: "?f < 64" by simp
  have n: "?n = Suc ((119 - ?f) mod 64)" "?n \<le> 64"
    using padlen_eq [OF f] by simp_all
  have p: "?p = 0x80 # replicate 63 0" by (simp add: numeral_eq_Suc)
  have "take ?n ?p = 0x80 # replicate ((119 - ?f) mod 64) 0"
    unfolding n(1) p using n by simp
  moreover have "len_be (bitcount ctx) = be_store 8 (of_nat (8 * length m) :: u64)"
    using assms by (simp add: absorbed_def len_be_def)
  ultimately have "fips_pad m = (m @ take ?n ?p) @ len_be (bitcount ctx)"
    by (simp add: fips_pad_def)
  then show ?thesis
    using absorbed_update [OF absorbed_update [OF assms, of "take ?n ?p"], of "len_be (bitcount ctx)"]
    by (simp only: absorbed_fill [OF assms])
qed

lemma digest_state_list: "concat (map state_bytes (state_list H)) = fips_digest H"
  by (cases H rule: fips_digest.cases) (simp add: state_bytes_be del: le_store_numeral)

lemma absorbed_feed: "absorbed (foldl sha256_update sha256_init chunks) (concat chunks)"
  using absorbed_update [OF absorbed_init, of "concat chunks"] sha.feed_concat [of sha256_init chunks]
  by (simp add: sha_inv_def sha256_init_def)

lemma sha256_final_fips: "absorbed ctx m \<Longrightarrow> sha256_final ctx = sha256_fips m"
  using final_pad [of ctx m]
  by (simp add: sha256_final_def Let_def absorbed_def [of _ "fips_pad m"] sha256_fips_def digest_state_list)

end
