(* ===== verification/INST_Correct.thy ===== *)
theory INST_Correct
  imports INST_Table_Correct INST_SHA256
begin

unbundle bit_operations_syntax

text \<open>
  The planner and the table writers together: a plan made for a disk passes the checks of the GPT writer for
  that disk, the table it writes is valid in both copies, and \<open>discover_partitions\<close> finds the EFI
  and root partitions where the plan put them. An example run shows that the writer's success is not a
  vacuous assumption.
\<close>

section \<open>Plans and the GPT writer\<close>

lemma plan_form_efi_root: "plan_form ex layout ps \<Longrightarrow> efi_root_plan ps"
  by (auto simp: plan_form_def efi_root_plan_def plan_EFI_def plan_ROOT_def plan_HOME_def plan_SWAP_def
      word_le_nat_alt split: if_splits)

lemma plan_form_length: "plan_form ex layout ps \<Longrightarrow> ps \<noteq> [] \<and> length ps \<le> 4"
  by (auto simp: plan_form_def split: if_splits)

lemma plan_form_types: "plan_form ex layout ps \<Longrightarrow> p \<in> set ps \<Longrightarrow> parse_gpt_uuid (gpt_type p) \<noteq> None"
  by (auto simp: plan_form_def plan_EFI_def plan_ROOT_def plan_HOME_def plan_SWAP_def parse_ESP parse_Linux parse_Swap
      split: if_splits)

lemma plan_fits_end:
  assumes "plan_fits L ps" "p \<in> set ps"
  shows "part_end p \<le> L + 1"
proof -
  obtain xs ys where ps: "ps = xs @ p # ys" using assms(2) by (meson split_list)
  show ?thesis
  proof (cases "ys = []")
    case True
    then show ?thesis using assms(1) by (simp add: plan_fits_def ps)
  next
    case False
    then have "last ps \<in> set ys" by (simp add: ps)
    then have "part_end p \<le> unat (start_sector (last ps))"
      using assms(1) by (auto simp: plan_fits_def ps sorted_wrt_append)
    then show ?thesis using assms(1) by (simp add: plan_fits_def part_end_def)
  qed
qed

lemma plan_in_gpt_range:
  assumes b: "1076887552 \<le> (bytes :: u64)"
    and f: "plan_fits (nat_last TABLE_GPT (sectors_of bytes)) ps" "p \<in> set ps"
  defines "l \<equiv> bytes div 512 - 1"
  shows "\<not> start_sector p < 34" "\<not> start_sector p + sectors p - 1 > l - 32 - 1"
proof -
  note l = unat_last_lba [OF b, folded l_def]
  have s: "2048 \<le> unat (start_sector p)" "2048 \<le> unat (sectors p)"
    using f by (auto simp: plan_fits_def list_all_iff)
  then show "\<not> start_sector p < 34" by (simp add: word_less_nat_alt)
  have e: "unat (start_sector p) + unat (sectors p) \<le> unat l - 32"
    using plan_fits_end [OF f] l(1,2) unfolding part_end_def nat_last_def sectors_of_def [symmetric] by auto
  have l32: "unat (l - 32 - 1) = unat l - 33"
    using l(2,5) by (subst unat_sub_no_wrap) auto
  have "unat (start_sector p + sectors p) = unat (start_sector p) + unat (sectors p)"
    using e unsigned_less [of l, where 'a = nat] by (subst unat_add_no_wrap) auto
  then have "unat (start_sector p + sectors p - 1) = unat (start_sector p) + unat (sectors p) - 1"
    using s by (subst unat_sub_no_wrap) auto
  then show "\<not> start_sector p + sectors p - 1 > l - 32 - 1"
    unfolding word_less_nat_alt l32 using e by simp
qed

text \<open>The checks before the first write cannot fail for a plan made for the same disk size.\<close>

lemma native_plan_errors:
  assumes plan: "build_partition_plan ex layout TABLE_GPT (bytes div 512) = Inr (ps, lbl)"
    and size: "fst (get_disk_size_bytes path w) = bytes"
    and run: "write_gpt_partition_table_native stk path ps w = (r, w')"
  shows "r \<in> {Inr (), Inl Open_failed, Inl Write_failed, Inl Fsync_failed}"
proof -
  note sh = plan_shape [OF plan]
  have b: "1076887552 \<le> bytes"
    using sh(3) by (simp add: word_le_nat_alt sectors_of_def)
  obtain w1 where 1: "get_disk_size_bytes path w = (bytes, w1)" using size by (metis prod.collapse)
  obtain now w2 where 2: "sys_time w1 = (now, w2)" by fastforce
  let ?l = "bytes div 512 - 1"
  have "\<forall>p \<in> set ps. \<not> start_sector p < 34 \<and> \<not> start_sector p + sectors p - 1 > ?l - 32 - 1 \<and> parse_gpt_uuid (gpt_type p) \<noteq> None"
    using plan_in_gpt_range [OF b sh(2)] plan_form_types [OF sh(1)] by blast
  then obtain es w3 where 3: "fill_entries 34 (?l - 32 - 1) stk 0 ps w2 = (Inr es, w3)"
    using fill_entries_succeeds by blast
  have l: "\<not> ?l < 66" "\<not> bytes < 1076887552"
    using unat_last_lba [OF b] b by (auto simp: word_less_nat_alt)
  have n: "ps \<noteq> []" "\<not> length ps > 128" using plan_form_length [OF sh(1)] by auto
  show ?thesis
    using run 1 2 3 l n by (auto simp: write_gpt_partition_table_native_def split: prod.splits if_splits)
qed

section \<open>The table on the disk\<close>

lemma native_disk:
  assumes run: "write_gpt_partition_table_native stk path ps w = (Inr (), w')" and stk: "length stk = 36"
  defines "l \<equiv> fst (get_disk_size_bytes path w) div 512 - 1"
  obtains guid es where "length guid = 16" "list_all2 entry_for ps es" "length ps \<le> 128"
    "only_dev path w w'" "devs w' path = put_lbas (gpt_writes l guid es) (devs w path)"
    "1076887552 \<le> fst (get_disk_size_bytes path w)" "list_all wf_entry es" "length es \<le> 128" "100 \<le> unat l"
    "unat (l * 512) = unat l * 512" "unat ((l - 32) * 512) = (unat l - 32) * 512" "unat (l - 32) = unat l - 32"
proof (rule native_ok [OF run])
  fix bytes guid es
  assume a: "1076887552 \<le> bytes" "length guid = 16" "length ps \<le> 128"
    "length stk = 36 \<Longrightarrow> list_all2 entry_for ps es" "only_dev path w w'"
    "devs w' path = put_lbas (gpt_writes (bytes div 512 - 1) guid es) (devs w path)"
    "fst (get_disk_size_bytes path w) = bytes"
  have es: "list_all2 entry_for ps es" using a(4) stk by simp
  then have "list_all wf_entry es" "length es \<le> 128"
    using a(3) by (auto simp: list_all2_conv_all_nth list_all_length entry_for_def)
  then show thesis
    using that [of guid es] a es unat_last_lba [OF a(1)] by (simp add: l_def)
qed

lemma native_valid:
  assumes run: "write_gpt_partition_table_native stk path ps w = (Inr (), w')" and stk: "length stk = 36"
  defines "L \<equiv> unat (fst (get_disk_size_bytes path w) div 512 - 1)"
  shows "gpt_copy_ok (devs w' path) 1 L 2" "gpt_copy_ok (devs w' path) L 1 (L - 32)"
    "\<And>i. 17408 \<le> i \<Longrightarrow> i < (L - 32) * 512 \<Longrightarrow> devs w' path i = devs w path i" "only_dev path w w'"
proof -
  let ?l = "fst (get_disk_size_bytes path w) div 512 - 1"
  obtain guid es where g: "length guid = 16" and es: "list_all2 entry_for ps es" "list_all wf_entry es" "length es \<le> 128"
    and od: "only_dev path w w'" and d: "devs w' path = put_lbas (gpt_writes ?l guid es) (devs w path)"
    and l: "100 \<le> unat ?l" "unat (?l * 512) = unat ?l * 512" "unat ((?l - 32) * 512) = (unat ?l - 32) * 512"
      "unat (?l - 32) = unat ?l - 32"
    by (rule native_disk [OF run stk])
  let ?E = "entries_bytes (es @ replicate (128 - length es) empty_entry)"
  let ?P = "primary_header ?l guid ?E"
  note reg = gpt_regions [OF l(2,3,1) g es(2,3), where f = "devs w path", folded d]
  show "only_dev path w w'" by (rule od)
  show "\<And>i. 17408 \<le> i \<Longrightarrow> i < (L - 32) * 512 \<Longrightarrow> devs w' path i = devs w path i"
    using reg(6) by (simp add: L_def)
  have z: "?P = with_crc (?P\<lparr>header_crc32 := 0\<rparr>)" "backup_header ?l ?P =
      with_crc ((backup_header ?l ?P)\<lparr>header_crc32 := 0\<rparr>)"
    by (simp_all add: primary_header_def backup_header_def with_crc_def)
  show "gpt_copy_ok (devs w' path) 1 L 2"
    by (rule header_ok [where h = ?P])
       (use reg(2,3) z(1) g in \<open>simp_all add: L_def, simp_all add: primary_header_def with_crc_def\<close>)
  show "gpt_copy_ok (devs w' path) L 1 (L - 32)"
    by (rule header_ok [where h = "backup_header ?l ?P"])
       (use reg(4,5) z(2) g l in \<open>simp_all add: L_def, simp_all add: primary_header_def backup_header_def with_crc_def\<close>)
qed

lemma native_discover:
  assumes plan: "build_partition_plan ex layout table d = Inr (ps, lbl)" "plan_form ex layout ps"
    and run: "write_gpt_partition_table_native stk path ps w = (Inr (), w')" and stk: "length stk = 36"
    and disc: "discover_partitions path v = (Some r, v')" "devs v path = devs w' path"
  shows "r = (1, 2)"
proof -
  let ?l = "fst (get_disk_size_bytes path w) div 512 - 1"
  obtain guid es where g: "length guid = 16" and es: "list_all2 entry_for ps es" "list_all wf_entry es" "length es \<le> 128"
    and ps: "length ps \<le> 128"
    and d: "devs w' path = put_lbas (gpt_writes ?l guid es) (devs w path)"
    and l: "100 \<le> unat ?l" "unat (?l * 512) = unat ?l * 512" "unat ((?l - 32) * 512) = (unat ?l - 32) * 512"
    by (rule native_disk [OF run stk])
  let ?E = "entries_bytes (es @ replicate (128 - length es) empty_entry)"
  note reg = gpt_regions [OF l(2,3,1) g es(2,3), where f = "devs w path", folded d, folded disc(2)]
  show ?thesis
    by (rule discover_gpt [OF disc(1) reg(1,2) _ _ _ _ _ reg(3) plan_form_efi_root [OF plan(2)] es(1) ps])
       (use g in \<open>simp_all add: primary_header_def with_crc_def\<close>)
qed

text \<open>The MBR writer changes the first sector only: a GPT header in the second one stays, and
  \<open>discover_partitions\<close> gives it precedence over the new MBR.\<close>

lemma mbr_keeps_sector_1:
  assumes "write_mbr_partition_table path ps dry_run w = (r, w')" "512 \<le> i"
  shows "devs w' path i = devs w path i"
proof -
  have keep: "devs (put_dev path 0 (take k mbr) v) path i = devs v path i" if "k \<le> 512" for k mbr v
    using that assms(2) by (simp add: put_dev_def dev_write_def)
  show ?thesis
    using assms(1)
    by (auto simp: write_mbr_partition_table_def Let_def xfer_def keep
        split: if_splits sum.splits prod.splits option.splits dest!: ask_ok_same ask_val_same simp: same_fields)
qed

lemma mbr_leaves_gpt_header:
  assumes "write_mbr_partition_table path ps dry_run w = (r, w')"
  shows "dev_read (devs w' path) 512 n = dev_read (devs w path) 512 n"
  using mbr_keeps_sector_1 [OF assms] by (simp add: dev_read_def)

section \<open>An example run\<close>

text \<open>A disk of 4 GiB whose kernel answers every call at once.\<close>

definition ex_parts :: "partition_plan list" where
  "ex_parts = [plan_EFI (\<lambda>_. False), plan_ROOT (\<lambda>_. False) 2099200 6289375]"

lemma ex_plan: "build_partition_plan (\<lambda>_. False) LAYOUT_SIMPLE TABLE_GPT (4294967296 div 512) =
    Inr (ex_parts, layout_label LAYOUT_SIMPLE)"
  by (simp add: build_partition_plan_def ex_parts_def last_partitionable_lba_def sectors_from_start_def plan_next_start)

definition ex_inst :: inst where
  "ex_inst = \<lparr>devs = (\<lambda>_ _. 0), dsize = (\<lambda>_. 4294967296), fs = (\<lambda>_. None), isdir = (\<lambda>_. False), path_env = None,
     cmds = [], mounts = [], keys = [],
     outs = [Failed, Done 3, Done 4294967296, Done 1700000000, Done 1700000000, Done 1700000000, Done 3, Done 512,
             Done 92, Done 16384, Done 16384, Done 92, Done 0]\<rparr>"

definition ex_stk :: "u16 list" where
  "ex_stk = replicate 36 0"

lemma pwrite_at_once:
  assumes "outs w = Done (length buf) # r" "buf \<noteq> []" "off + length buf \<le> dsize w path"
  shows "disk_pwrite_all path buf off w = (True, (put_dev path off buf w)\<lparr>outs := r\<rparr>)"
  using assms
  by (subst disk_pwrite_all.simps)
     (simp add: pwrite_once_def ask_def xfer_def disk_pwrite_all.simps put_dev_def)

lemma write_lbas_at_once:
  "outs w = map (\<lambda>x. Done (length (snd x))) xs @ r \<Longrightarrow>
   list_all (\<lambda>(lba, buf). buf \<noteq> [] \<and> unat (lba * 512) + length buf \<le> dsize w path) xs \<Longrightarrow>
   \<exists>w'. write_lbas path xs w = (True, w') \<and> outs w' = r"
proof (induction xs arbitrary: w)
  case (Cons x xs)
  obtain lba buf where x: "x = (lba, buf)" by fastforce
  let ?v = "(put_dev path (unat (lba * 512)) buf w)\<lparr>outs := map (\<lambda>x. Done (length (snd x))) xs @ r\<rparr>"
  have "disk_pwrite_all path buf (unat (lba * 512)) w = (True, ?v)"
    by (rule pwrite_at_once) (use Cons.prems in \<open>auto simp: x\<close>)
  moreover have "\<exists>w'. write_lbas path xs ?v = (True, w') \<and> outs w' = r"
    by (rule Cons.IH) (use Cons.prems in \<open>auto simp: x put_dev_def\<close>)
  ultimately show ?case by (auto simp: x write_disk_lba_def)
qed simp

lemma ex_size: "fst (get_disk_size_bytes ''/dev/sda'' ex_inst) = 4294967296"
  by (simp add: get_disk_size_bytes_def get_disk_size_raw_sysfs_def read_u64_from_file_def ex_inst_def ask_ok_def ask_val_def
      ask_def reconcile_size_def)

lemma ex_native_then:
  fixes F r
  defines "w \<equiv> ex_inst\<lparr>fs := F, outs := outs ex_inst @ r\<rparr>"
  shows "\<exists>w'. write_gpt_partition_table_native ex_stk ''/dev/sda'' ex_parts w = (Inr (), w') \<and> outs w' = r"
proof -
  let ?w = "w\<lparr>outs := [Done 512, Done 92, Done 16384, Done 16384, Done 92, Done 0] @ r\<rparr>"
  let ?g = "generate_guid 1700000000 0x4750545f4449534b"
  let ?e1 = "new_entry (the (parse_gpt_uuid GPT_ESP_TYPE)) 1700000000 0 ex_stk (plan_EFI (\<lambda>_. False)) 2099199"
  let ?e2 = "new_entry (the (parse_gpt_uuid GPT_LINUX_TYPE)) 1700000000 1 ex_stk (plan_ROOT (\<lambda>_. False) 2099200 6289375) 8388574"
  let ?x = "gpt_writes 8388607 ?g [?e1, ?e2]"
  have wf: "wf_entry ?e1" "wf_entry ?e2"
    by (simp_all add: wf_entry_def new_entry_def parse_ESP parse_Linux length_utf16le_name ex_stk_def)
  have lens: "map (\<lambda>x. length (snd x)) ?x = [512, 92, 16384, 16384, 92]"
  proof -
    have "length (entries_bytes ([?e1, ?e2] @ replicate 126 empty_entry)) = 16384"
      using wf by (subst length_entries_bytes) (auto simp: list_all_iff)
    then show ?thesis
      by (simp add: gpt_writes_def Let_def length_header_bytes primary_header_def backup_header_def with_crc_def)
  qed
  have "\<exists>w'. write_lbas ''/dev/sda'' ?x ?w = (True, w') \<and> outs w' = Done 0 # r"
  proof (rule write_lbas_at_once)
    show "outs ?w = map (\<lambda>x. Done (length (snd x))) ?x @ (Done 0 # r)"
      using arg_cong [OF lens, of "map Done"] by (simp add: comp_def)
    show "list_all (\<lambda>(lba, buf). buf \<noteq> [] \<and> unat (lba * 512) + length buf \<le> dsize ?w ''/dev/sda'') ?x"
      using lens by (auto simp: gpt_writes_def Let_def w_def ex_inst_def dest!: arg_cong [where f = length])
  qed
  then obtain w' where w': "write_lbas ''/dev/sda'' ?x ?w = (True, w')" "outs w' = Done 0 # r" by blast
  have "get_disk_size_bytes ''/dev/sda'' w = (4294967296, w\<lparr>outs := drop 3 (outs ex_inst) @ r\<rparr>)"
    by (simp add: get_disk_size_bytes_def get_disk_size_raw_sysfs_def read_u64_from_file_def w_def ex_inst_def ask_ok_def ask_val_def
        ask_def reconcile_size_def)
  moreover have "fill_entries 34 8388574 ex_stk 0 ex_parts (w\<lparr>outs := drop 4 (outs ex_inst) @ r\<rparr>) =
      (Inr [?e1, ?e2], w\<lparr>outs := drop 6 (outs ex_inst) @ r\<rparr>)"
    by (simp add: ex_parts_def plan_EFI_def plan_ROOT_def parse_ESP parse_Linux sys_time_def ask_val_def ask_def ex_inst_def)
  ultimately have "write_gpt_partition_table_native ex_stk ''/dev/sda'' ex_parts w = (Inr (), w'\<lparr>outs := r\<rparr>)"
    using w'
    by (simp add: write_gpt_partition_table_native_def ex_parts_def sys_time_def ask_val_def ask_ok_def ask_def ex_inst_def)
  then show ?thesis by simp
qed

lemma ex_native: "\<exists>w'. write_gpt_partition_table_native ex_stk ''/dev/sda'' ex_parts ex_inst = (Inr (), w')"
  using ex_native_then [of "[]" "fs ex_inst"] by auto

end
