(* ===== verification/INST_Properties.thy ===== *)
theory INST_Properties
  imports INST_Correct
begin

text \<open>
  The properties of \<^verbatim>\<open>src/tools/install-eclipse/install-eclipse.c\<close>, each with the natural-language
  statement it formalises.
\<close>

text \<open>C25: the digest that \<open>sha256_init\<close>, any sequence of \<open>sha256_update\<close> calls and \<open>sha256_final\<close> compute is
  the SHA-256 that FIPS 180-4 defines for the concatenation of the chunks, however the data were cut;
  \<open>sha256_hex_buffer\<close> prints it in hexadecimal.\<close>

theorem sha256_is_fips:
  "sha256_final (foldl sha256_update sha256_init chunks) = sha256_fips (concat chunks) \<and>
   sha256_hex_buffer data = sha256_hex_digest (sha256_fips data)"
  using sha256_final_fips [OF absorbed_feed [of chunks]] sha256_final_fips [OF absorbed_feed [of "[data]"]]
  by (simp add: sha256_hex_buffer_def)

text \<open>C27: every plan that \<open>build_partition_plan\<close> returns for a disk of \<open>size_bytes\<close> bytes consists of an EFI
  and a root partition (and home and swap in the advanced layout) that start on 2048-sector
  boundaries, hold at least 2048 sectors, follow one another without overlap, and end exactly with the last
  sector the chosen table leaves free: no arithmetic wraps around.\<close>

theorem plan_sound:
  assumes "build_partition_plan ex layout table (size_bytes div SECTOR_SIZE) = Inr (ps, lbl)"
  shows "plan_fits (if table = TABLE_GPT then sectors_of size_bytes - 34 else sectors_of size_bytes - 1) ps \<and>
    map pname ps = (if layout = LAYOUT_SIMPLE then [''EFI'', ''ROOT''] else [''EFI'', ''ROOT'', ''HOME'', ''SWAP''])"
  using plan_shape(1,2) [OF assms]
  by (auto simp: nat_last_def plan_form_def plan_EFI_def plan_ROOT_def plan_HOME_def plan_SWAP_def split: if_splits)

theorem plan_sound_witness:
  "plan_fits 8388574 ex_parts \<and> map pname ex_parts = [''EFI'', ''ROOT'']"
  using plan_sound [OF ex_plan] by (simp add: sectors_of_def)

text \<open>C28: the planner refuses a disk of fewer than 2103296 sectors as too small; on any larger disk
  the simple layout is planned, and the advanced one fails only for want of room for its
  partitions before swap (never on a disk of 2218400 sectors or more): the remaining error
  branches of the function are unreachable.\<close>

theorem plan_refusals:
  fixes size_bytes :: u64
  defines "n \<equiv> sectors_of size_bytes"
  shows "build_partition_plan ex layout table (size_bytes div SECTOR_SIZE) = Inl e \<longleftrightarrow>
     e = Disk_too_small \<and> n < 2103296 \<or>
     e = Too_small_advanced \<and> layout \<noteq> LAYOUT_SIMPLE \<and> 2103296 \<le> n \<and> n < 2218400 \<and>
       nat_down (nat_last table n + 1 - nat_swap n) \<le> 2103296"
proof (cases "n < 2103296")
  case True
  then show ?thesis using plan_small [of size_bytes ex layout table] by (auto simp: n_def)
next
  case False
  then have p: "plannable (size_bytes div 512)"
    by (intro sectors_plannable) (simp add: unat_sectors n_def)
  show ?thesis
  proof (cases "layout = LAYOUT_SIMPLE")
    case True
    with plan_simple [OF p, of ex table] False show ?thesis by auto
  next
    case adv: False
    have "n < 2218400" if "nat_down (nat_last table n + 1 - nat_swap n) \<le> 2103296"
      using that nat_down_bounds(2) [of "nat_last table n + 1 - nat_swap n"] swap_bound [OF p]
        last_bounds [OF p, of table] by (auto simp: unat_sectors n_def)
    then show ?thesis
      using plan_advanced [OF p adv, of table ex] False adv unfolding unat_sectors n_def [symmetric]
      by (auto simp: not_less split: if_splits)
  qed
qed

text \<open>When \<open>disk_pwrite_all\<close> reports success, the device holds the whole buffer at the offset and
  nothing else in the system has changed; when it fails, what it has changed is a prefix of the
  buffer, whatever interruptions, short writes and fallbacks to \<open>lseek\<close> and \<open>write\<close> occurred.\<close>

theorem pwrite_all_exact:
  assumes "disk_pwrite_all path buf off w = (ok, w')"
  shows "\<exists>n \<le> length buf. (if ok then n = length buf else n \<le> length buf) \<and>
    w' = (put_dev path off (take n buf) w)\<lparr>outs := outs w'\<rparr> \<and>
    dev_read (devs w' path) off n = take n buf"
proof -
  obtain n where n: "n \<le> length buf" "ok \<longrightarrow> n = length buf"
      "w' = (put_dev path off (take n buf) w)\<lparr>outs := outs w'\<rparr>"
    using disk_pwrite_all_effect [OF assms] by blast
  have "devs w' path = dev_write (devs w path) off (take n buf)"
    by (subst n(3)) (simp add: put_dev_def)
  then have "dev_read (devs w' path) off n = take n buf"
    using n(1) by (simp add: dev_read_write_same)
  with n show ?thesis by auto
qed

theorem pwrite_all_exact_witness:
  "dev_read (devs (snd (disk_pwrite_all ''d'' [1, 2, 3] 8
      (ex_inst\<lparr>outs := [Interrupted, Done 2, Unsupported, Done 0, Done 5]\<rparr>))) ''d'') 8 3 = [1, 2, 3]"
proof -
  let ?w = "ex_inst\<lparr>outs := [Interrupted, Done 2, Unsupported, Done 0, Done 5]\<rparr>"
  have ok: "fst (disk_pwrite_all ''d'' [1, 2, 3] 8 ?w)"
    by (simp add: disk_pwrite_all.simps pwrite_once_def ask_def ask_ok_def xfer_def put_dev_def ex_inst_def)
  obtain w' where r: "disk_pwrite_all ''d'' [1, 2, 3] 8 ?w = (True, w')"
    using ok by (metis prod.collapse)
  show ?thesis using pwrite_all_exact [OF r] by (auto simp: r numeral_3_eq_3)
qed

text \<open>C29: the write loop ends: with a kernel that only interrupts calls or transfers at least one
  byte each time, \<open>disk_pwrite_all\<close> succeeds once it has been given one transfer per byte, if the
  range lies on the device.\<close>

theorem pwrite_all_terminates:
  assumes "list_all progressing (outs w)" "length buf \<le> transfers (outs w)" "off + length buf \<le> dsize w path"
  shows "fst (disk_pwrite_all path buf off w)"
  by (rule disk_pwrite_all_progress [OF assms])

theorem pwrite_all_terminates_witness:
  "fst (disk_pwrite_all ''d'' [7, 8] 512 (ex_inst\<lparr>outs := [Interrupted, Done 1, Interrupted, Done 9]\<rparr>))"
  by (rule pwrite_all_terminates) (simp_all add: progressing_def transfers_def ex_inst_def)

text \<open>C30: after \<open>write_gpt_partition_table_native\<close> reports success, both copies of the table are
  valid (signature, location, header CRC computed with its field zeroed, CRC of the entry array),
  each points to the other, and nothing between the two copies, on another device or elsewhere in the
  system has changed.\<close>

theorem gpt_written_valid:
  assumes "write_gpt_partition_table_native stk path ps w = (Inr (), w')" "length stk = 36"
  shows "let L = unat (fst (get_disk_size_bytes path w) div SECTOR_SIZE - 1) in
    gpt_copy_ok (devs w' path) 1 L 2 \<and> gpt_copy_ok (devs w' path) L 1 (L - 32) \<and>
    dev_read (devs w' path) 17408 ((L - 32) * 512 - 17408) = dev_read (devs w path) 17408 ((L - 32) * 512 - 17408) \<and>
    w' = w\<lparr>devs := (devs w)(path := devs w' path), outs := outs w'\<rparr>"
proof -
  note v = native_valid [OF assms]
  show ?thesis
    unfolding Let_def using v(1,2) v(4) [unfolded only_dev_def] by (auto simp: dev_read_def v(3))
qed

theorem gpt_written_valid_witness:
  "\<exists>w'. write_gpt_partition_table_native ex_stk ''/dev/sda'' ex_parts ex_inst = (Inr (), w') \<and>
     gpt_copy_ok (devs w' ''/dev/sda'') 1 8388607 2 \<and> gpt_copy_ok (devs w' ''/dev/sda'') 8388607 1 8388575"
proof -
  obtain w' where r: "write_gpt_partition_table_native ex_stk ''/dev/sda'' ex_parts ex_inst = (Inr (), w')"
    using ex_native by blast
  show ?thesis
    by (rule exI [of _ w']) (use gpt_written_valid [OF r] r in \<open>simp add: ex_size ex_stk_def Let_def\<close>)
qed

text \<open>C31: planning, writing and finding fit together: for a plan made for the size of the disk, the GPT
  writer can fail only on a system call, and after it has succeeded \<open>discover_partitions\<close> on that
  disk either fails to open or read it or reports partition 1 as EFI and partition 2 as root, also when
  the home partition has the same type.\<close>

theorem gpt_plan_roundtrip:
  assumes "build_partition_plan ex layout TABLE_GPT (bytes div SECTOR_SIZE) = Inr (ps, lbl)"
    and "fst (get_disk_size_bytes path w) = bytes" "length stk = 36"
    and "write_gpt_partition_table_native stk path ps w = (r, w')"
  shows "(r = Inr () \<or> r = Inl Open_failed \<or> r = Inl Write_failed \<or> r = Inl Fsync_failed) \<and>
    (\<forall>v :: inst. r = Inr () \<and> devs v path = devs w' path \<longrightarrow> fst (discover_partitions path v) \<in> {None, Some (1, 2)})"
proof (intro conjI allI impI)
  show "r = Inr () \<or> r = Inl Open_failed \<or> r = Inl Write_failed \<or> r = Inl Fsync_failed"
    using native_plan_errors [OF assms(1,2,4)] by blast
  fix v :: inst assume v: "r = Inr () \<and> devs v path = devs w' path"
  show "fst (discover_partitions path v) \<in> {None, Some (1, 2)}"
  proof (cases "fst (discover_partitions path v)")
    case (Some x)
    then obtain v' where "discover_partitions path v = (Some x, v')" by (metis prod.collapse)
    from native_discover [OF assms(1) plan_shape(1) [OF assms(1)] _ assms(3) this] v assms(4) Some
    show ?thesis by simp
  qed simp
qed

theorem gpt_plan_roundtrip_witness:
  "\<exists>w'. write_gpt_partition_table_native ex_stk ''/dev/sda'' ex_parts ex_inst = (Inr (), w') \<and>
     fst (discover_partitions ''/dev/sda'' (w'\<lparr>outs := [Done 3, Done 512, Done 512, Done 16384]\<rparr>)) = Some (1, 2)"
proof -
  obtain w' where r: "write_gpt_partition_table_native ex_stk ''/dev/sda'' ex_parts ex_inst = (Inr (), w')"
    using ex_native by blast
  have "only_dev ''/dev/sda'' ex_inst w'"
    using native_valid(4) [OF r] by (simp add: ex_stk_def)
  then have sz: "dsize w' ''/dev/sda'' = 4294967296" by (simp add: only_dev_fields ex_inst_def)
  let ?v = "w'\<lparr>outs := [Done 3, Done 512, Done 512, Done 16384]\<rparr>"
  have "fst (discover_partitions ''/dev/sda'' ?v) \<noteq> None"
    using sz by (simp add: discover_partitions_def ask_ok_def ask_val_def ask_def sys_pread_def xfer_def Let_def
        split: prod.split option.split)
  then show ?thesis
    using gpt_plan_roundtrip [OF ex_plan ex_size _ r, THEN conjunct2, rule_format, of ?v] r
    by (auto simp: ex_stk_def)
qed

end
