(* ===== verification/INST_Fstab.thy ===== *)
theory INST_Fstab
  imports INST_Table
begin

unbundle bit_operations_syntax

text \<open>
  The placeholders of \<^verbatim>\<open>src/tools/install-eclipse/install-eclipse.c\<close>: the installer patches
  \<^verbatim>\<open>/etc/fstab\<close> and \<^verbatim>\<open>rboot.conf\<close> inside the freshly written file-system images by searching the
  raw partition for template lines (\<open>scan_fstab_targets\<close>), overwriting the device field
  (\<open>apply_fstab_targets\<close>) and reading it back (\<open>verify_fstab_targets\<close>); if that fails it mounts the
  partition and writes the file (\<open>write_fstab_via_mount\<close>).

  \<open>INST_Fstab_Correct\<close> shows that a target is only ever reported where its text stands on the device, that a
  patch that reports success has put the device names there and changed nothing else, and that
  a template line which crosses the boundary of two 64 KiB reads by more than the 20 bytes carried over is missed.
\<close>

section \<open>Targets\<close>

datatype fstab_patch_kind = FSTAB_PATCH_REPLACE | FSTAB_PATCH_COMMENT_LINE

record fstab_patch_target =
  placeholder :: string
  match_text :: "string option"
  replacement :: "byte list"
  kind :: fstab_patch_kind
  match_offset :: nat
  required :: bool
  found :: bool
  toffset :: nat

abbreviation FSTAB_PLACEHOLDER_LEN :: nat where "FSTAB_PLACEHOLDER_LEN \<equiv> 20"
abbreviation FSTAB_PATCH_CHUNK :: nat where "FSTAB_PATCH_CHUNK \<equiv> 65536"
abbreviation FSTAB_PATCH_MAX_SCAN :: nat where "FSTAB_PATCH_MAX_SCAN \<equiv> 167772160"
abbreviation FSTAB_PATCH_OVERLAP :: nat where "FSTAB_PATCH_OVERLAP \<equiv> 20"

definition FSTAB_PLACEHOLDER_ROOT :: string where "FSTAB_PLACEHOLDER_ROOT = ''__ECLIPSE_ROOT_DEV__''"
definition FSTAB_PLACEHOLDER_EFI :: string where "FSTAB_PLACEHOLDER_EFI = ''__ECLIPSE_EFI_DEV___''"
definition FSTAB_PLACEHOLDER_HOME :: string where "FSTAB_PLACEHOLDER_HOME = ''__ECLIPSE_HOME_DEV__''"
definition FSTAB_PLACEHOLDER_SWAP :: string where "FSTAB_PLACEHOLDER_SWAP = ''__ECLIPSE_SWAP_DEV__''"
definition RBOOT_PLACEHOLDER_ROOT :: string where "RBOOT_PLACEHOLDER_ROOT = ''__ECLIPSE_CMDROOTDEV''"

definition FSTAB_TEMPLATE_LINE_ROOT :: string where
  "FSTAB_TEMPLATE_LINE_ROOT = ''__ECLIPSE_ROOT_DEV__  /                  btrfs   defaults          0  1''"
definition FSTAB_TEMPLATE_LINE_EFI :: string where
  "FSTAB_TEMPLATE_LINE_EFI = ''__ECLIPSE_EFI_DEV___  /boot/efi          vfat    defaults,noatime  0  0''"
definition FSTAB_TEMPLATE_LINE_HOME :: string where
  "FSTAB_TEMPLATE_LINE_HOME = ''__ECLIPSE_HOME_DEV__  /home              btrfs   defaults          0  0''"
definition FSTAB_TEMPLATE_LINE_SWAP :: string where
  "FSTAB_TEMPLATE_LINE_SWAP = ''__ECLIPSE_SWAP_DEV__  none               swap    sw                0  0''"
definition RBOOT_TEMPLATE_ROOT_KEY :: string where
  "RBOOT_TEMPLATE_ROOT_KEY = ''ROOT=__ECLIPSE_CMDROOTDEV''"

text \<open>A device name padded with spaces, or cut, to the length of a placeholder.\<close>

definition format_fstab_device_field :: "string \<Rightarrow> byte list" where
  "format_fstab_device_field device =
     bytes_of (take 20 device @ replicate (20 - length device) (CHR '' ''))"

section \<open>Searching\<close>

text \<open>The first position of \<open>text\<close> in the window, from position \<open>i\<close> on; the answer is its offset on the device.\<close>

fun text_from :: "byte list \<Rightarrow> byte list \<Rightarrow> nat \<Rightarrow> nat option" where
  "text_from text [] at = None"
| "text_from text (b # win) at =
     (if length (b # win) < length text then None
      else if take (length text) (b # win) = text then Some at
      else text_from text win (Suc at))"

definition text_in_window :: "byte list \<Rightarrow> nat \<Rightarrow> string \<Rightarrow> nat option" where
  "text_in_window window window_base text =
     (if text = [] \<or> length window < length text then None
      else text_from (bytes_of text) window window_base)"

definition fstab_targets_ready :: "fstab_patch_target list \<Rightarrow> bool" where
  "fstab_targets_ready targets \<longleftrightarrow> list_all (\<lambda>t. \<not> required t \<or> found t) targets"

definition target_text :: "fstab_patch_target \<Rightarrow> string" where
  "target_text t = (case match_text t of Some s \<Rightarrow> s | None \<Rightarrow> placeholder t)"

definition try_target :: "byte list \<Rightarrow> nat \<Rightarrow> fstab_patch_target \<Rightarrow> fstab_patch_target" where
  "try_target window window_base t =
     (if found t then t
      else case text_in_window window window_base (target_text t) of
             None \<Rightarrow> t
           | Some hit \<Rightarrow> t\<lparr>toffset := hit + match_offset t, found := True\<rparr>)"

definition scan_end :: "fstab_patch_target list \<Rightarrow> inst \<Rightarrow> (bool \<times> fstab_patch_target list) \<times> inst" where
  "scan_end targets w = ((fstab_targets_ready targets, targets), w)"

text \<open>How much one \<open>pread\<close> of the loop returns, and what is kept of the window.\<close>

definition scan_read :: "inst \<Rightarrow> string \<Rightarrow> nat \<Rightarrow> nat \<Rightarrow> nat \<Rightarrow> nat" where
  "scan_read w path carry_len file_pos k =
     (let room = FSTAB_PATCH_CHUNK + FSTAB_PATCH_OVERLAP - carry_len;
          chunk = (if room < FSTAB_PATCH_CHUNK then room else FSTAB_PATCH_CHUNK)
      in xfer w path chunk file_pos k)"

definition scan_carry :: "byte list \<Rightarrow> byte list" where
  "scan_carry window =
     (if length window > FSTAB_PATCH_OVERLAP then drop (length window - FSTAB_PATCH_OVERLAP) window else window)"

text \<open>The loop: \<open>carry\<close> are the bytes kept from the previous window, which end at \<open>file_pos\<close>.\<close>

function scan_loop :: "string \<Rightarrow> fstab_patch_target list \<Rightarrow> byte list \<Rightarrow> nat \<Rightarrow> inst \<Rightarrow> (bool \<times> fstab_patch_target list) \<times> inst" where
  "scan_loop path targets carry file_pos w =
     (if file_pos \<ge> FSTAB_PATCH_MAX_SCAN then scan_end targets w
      else
        let (a, w') = ask w in
        case a of
          Done k \<Rightarrow>
            let nread = scan_read w path (length carry) file_pos k
            in if nread = 0 \<and> carry = [] then scan_end targets w'
               else
                 let window = carry @ dev_read (devs w path) file_pos nread;
                     targets = map (try_target window (file_pos - length carry)) targets
                 in if fstab_targets_ready targets then ((True, targets), w')
                    else if nread = 0 then scan_end targets w'
                    else scan_loop path targets (scan_carry window) (file_pos + nread) w'
        | _ \<Rightarrow> ((False, targets), w'))"
  by pat_completeness auto
termination
  by (relation "measure (\<lambda>(path, targets, carry, file_pos, w). length (outs w))")
     (auto dest!: ask_shorter [OF sym])

declare scan_loop.simps [simp del]

definition scan_fstab_targets :: "string \<Rightarrow> fstab_patch_target list \<Rightarrow> inst \<Rightarrow> (bool \<times> fstab_patch_target list) \<times> inst" where
  "scan_fstab_targets block_dev targets w = scan_loop block_dev targets [] 0 w"

section \<open>Patching\<close>

definition patch_bytes :: "fstab_patch_target \<Rightarrow> byte list" where
  "patch_bytes t = (case kind t of FSTAB_PATCH_COMMENT_LINE \<Rightarrow> bytes_of ''#'' | FSTAB_PATCH_REPLACE \<Rightarrow> replacement t)"

text \<open>Each patch is one \<open>pwrite\<close>, which has to transfer everything. The failure of \<open>fsync\<close> is only logged.\<close>

fun apply_each :: "string \<Rightarrow> fstab_patch_target list \<Rightarrow> inst \<Rightarrow> bool \<times> inst" where
  "apply_each path [] w = (True, w)"
| "apply_each path (t # ts) w =
     (if \<not> found t then apply_each path ts w
      else
        let bs = patch_bytes t;
            (v, w) = ask_val w;
            n = (case v of Some k \<Rightarrow> xfer w path (length bs) (toffset t) k | None \<Rightarrow> 0);
            w = put_dev path (toffset t) (take n bs) w
        in if n \<noteq> length bs then (False, w) else apply_each path ts w)"

definition apply_fstab_targets :: "string \<Rightarrow> fstab_patch_target list \<Rightarrow> inst \<Rightarrow> bool \<times> inst" where
  "apply_fstab_targets block_dev targets w =
     (let (ok, w) = apply_each block_dev targets w in
      if \<not> ok then (False, w) else let (_, w) = ask_ok w in (True, w))"

fun verify_fstab_targets :: "string \<Rightarrow> fstab_patch_target list \<Rightarrow> inst \<Rightarrow> bool \<times> inst" where
  "verify_fstab_targets path [] w = (True, w)"
| "verify_fstab_targets path (t # ts) w =
     (if \<not> found t then verify_fstab_targets path ts w
      else
        let want = (case kind t of FSTAB_PATCH_COMMENT_LINE \<Rightarrow> 1 | FSTAB_PATCH_REPLACE \<Rightarrow> FSTAB_PLACEHOLDER_LEN);
            (r, w) = disk_pread_all path want (toffset t) [] w
        in case r of
             None \<Rightarrow> (False, w)
           | Some buf \<Rightarrow>
               if length buf \<noteq> want then (False, w)
               else if buf \<noteq> patch_bytes t then (False, w)
               else verify_fstab_targets path ts w)"

definition replace_target :: "string \<Rightarrow> string \<Rightarrow> byte list \<Rightarrow> fstab_patch_target" where
  "replace_target ph text field = \<lparr>placeholder = ph, match_text = Some text, replacement = field,
     kind = FSTAB_PATCH_REPLACE, match_offset = 0, required = True, found = False, toffset = 0\<rparr>"

definition comment_target :: "string \<Rightarrow> string \<Rightarrow> fstab_patch_target" where
  "comment_target ph text = \<lparr>placeholder = ph, match_text = Some text, replacement = [],
     kind = FSTAB_PATCH_COMMENT_LINE, match_offset = 0, required = False, found = False, toffset = 0\<rparr>"

definition fstab_targets :: "string \<Rightarrow> string \<Rightarrow> string \<Rightarrow> string \<Rightarrow> layout_mode \<Rightarrow> fstab_patch_target list" where
  "fstab_targets efi_dev root_dev home_dev swap_dev layout =
     [replace_target FSTAB_PLACEHOLDER_ROOT FSTAB_TEMPLATE_LINE_ROOT (format_fstab_device_field root_dev),
      replace_target FSTAB_PLACEHOLDER_EFI FSTAB_TEMPLATE_LINE_EFI (format_fstab_device_field efi_dev)]
     @ (if layout = LAYOUT_ADVANCED
        then [replace_target FSTAB_PLACEHOLDER_HOME FSTAB_TEMPLATE_LINE_HOME (format_fstab_device_field home_dev),
              replace_target FSTAB_PLACEHOLDER_SWAP FSTAB_TEMPLATE_LINE_SWAP (format_fstab_device_field swap_dev)]
        else [comment_target FSTAB_PLACEHOLDER_HOME FSTAB_TEMPLATE_LINE_HOME,
              comment_target FSTAB_PLACEHOLDER_SWAP FSTAB_TEMPLATE_LINE_SWAP])"

text \<open>\<open>sync\<close> and \<open>ioctl(BLKFLSBUF)\<close> flush caches; the result of the latter is only logged.\<close>

definition patch_fstab_on_block_device ::
  "string \<Rightarrow> string \<Rightarrow> string \<Rightarrow> string \<Rightarrow> string \<Rightarrow> layout_mode \<Rightarrow> bool \<Rightarrow> inst \<Rightarrow> bool \<times> inst" where
  "patch_fstab_on_block_device block_dev efi_dev root_dev home_dev swap_dev layout dry_run w =
     (if dry_run then (True, w)
      else
        let (ok, w) = ask_ok w in
        if \<not> ok then (False, w)
        else
          let ((ok, targets), w) = scan_fstab_targets block_dev (fstab_targets efi_dev root_dev home_dev swap_dev layout) w in
          if \<not> ok then (False, w)
          else
            let (ok, w) = apply_fstab_targets block_dev targets w in
            if \<not> ok then (False, w)
            else let (_, w) = ask_ok w in verify_fstab_targets block_dev targets w)"

definition rboot_target :: "string \<Rightarrow> fstab_patch_target" where
  "rboot_target root_dev = \<lparr>placeholder = RBOOT_PLACEHOLDER_ROOT, match_text = Some RBOOT_TEMPLATE_ROOT_KEY,
     replacement = format_fstab_device_field root_dev, kind = FSTAB_PATCH_REPLACE, match_offset = 5, required = True,
     found = False, toffset = 0\<rparr>"

text \<open>Always reports success.\<close>

definition patch_rboot_root_on_efi :: "string \<Rightarrow> string \<Rightarrow> bool \<Rightarrow> inst \<Rightarrow> bool \<times> inst" where
  "patch_rboot_root_on_efi block_dev root_dev dry_run w =
     (if dry_run then (True, w)
      else
        let (ok, w) = ask_ok w in
        if \<not> ok then (True, w)
        else
          let ((ok, targets), w) = scan_fstab_targets block_dev [rboot_target root_dev] w in
          if \<not> ok then (True, w)
          else let (_, w) = apply_fstab_targets block_dev targets w in (True, w))"

section \<open>Writing fstab through a mount\<close>

definition put_file :: "string \<Rightarrow> byte list \<Rightarrow> inst \<Rightarrow> inst" where
  "put_file path bs w = w\<lparr>fs := (fs w)(path := Some bs)\<rparr>"

definition pad20 :: "string \<Rightarrow> string" where
  "pad20 s = s @ replicate (20 - length s) (CHR '' '')"

definition fstab_text :: "string \<Rightarrow> string \<Rightarrow> string \<Rightarrow> string \<Rightarrow> layout_mode \<Rightarrow> string" where
  "fstab_text efi_dev root_dev home_dev swap_dev layout =
     ''# /etc/fstab - generado por install-eclipse'' @ [NL]
     @ ''# <dispositivo>  <punto de montaje>  <tipo>  <opciones>       <dump>  <pass>'' @ [NL]
     @ pad20 root_dev @ ''  /                  btrfs   defaults          0  1'' @ [NL]
     @ pad20 efi_dev @ ''  /boot/efi          vfat    defaults,noatime  0  0'' @ [NL]
     @ (if layout = LAYOUT_ADVANCED \<and> home_dev \<noteq> []
        then pad20 home_dev @ ''  /home              btrfs   defaults          0  0'' @ [NL] else [])
     @ (if layout = LAYOUT_ADVANCED \<and> swap_dev \<noteq> []
        then pad20 swap_dev @ ''  none               swap    sw                0  0'' @ [NL] else [])"

text \<open>A write error shows when the stream is closed; the number given with it is how much reached the file.\<close>

definition write_fstab_file :: "string \<Rightarrow> string \<Rightarrow> string \<Rightarrow> string \<Rightarrow> string \<Rightarrow> layout_mode \<Rightarrow> bool \<Rightarrow> inst \<Rightarrow> bool \<times> inst" where
  "write_fstab_file path efi_dev root_dev home_dev swap_dev layout dry_run w =
     (if dry_run then (True, w)
      else
        let (ok, w) = ask_ok w in
        if \<not> ok then (False, w)
        else
          let text = bytes_of (fstab_text efi_dev root_dev home_dev swap_dev layout);
              w = put_file path [] w;
              (v, w) = ask_val w;
              n = (case v of Some k \<Rightarrow> min k (length text) | None \<Rightarrow> 0);
              w = put_file path (take n text) w
          in (n = length text, w))"

definition shell_mkdir_p :: "(string \<Rightarrow> inst \<Rightarrow> inst) \<Rightarrow> string \<Rightarrow> bool \<Rightarrow> inst \<Rightarrow> bool \<times> inst" where
  "shell_mkdir_p sh path dry_run w =
     run_command_logged sh (take 511 (''sh -c '' @ [CHR 0x22] @ ''mkdir -p '' @ [CHR 0x27] @ path @ [CHR 0x27, CHR 0x22])) dry_run w"

definition shell_mount :: "string \<Rightarrow> string \<Rightarrow> bool \<Rightarrow> inst \<Rightarrow> bool \<times> inst" where
  "shell_mount source target dry_run w =
     (if dry_run then (True, w)
      else let (ok, w) = ask_ok w
           in if ok then (True, w\<lparr>mounts := (source, target) # mounts w\<rparr>) else (False, w))"

definition shell_umount :: "string \<Rightarrow> bool \<Rightarrow> inst \<Rightarrow> bool \<times> inst" where
  "shell_umount target dry_run w =
     (if dry_run then (True, w)
      else let (ok, w) = ask_ok w
           in (True, if ok then w\<lparr>mounts := filter (\<lambda>m. snd m \<noteq> target) (mounts w)\<rparr> else w))"

definition INST_ROOT_MNT :: string where "INST_ROOT_MNT = ''/tmp/eclipse-inst-root''"

definition write_fstab_via_mount ::
  "(string \<Rightarrow> inst \<Rightarrow> inst) \<Rightarrow> string \<Rightarrow> string \<Rightarrow> string \<Rightarrow> string \<Rightarrow> layout_mode \<Rightarrow> bool \<Rightarrow> inst \<Rightarrow> bool \<times> inst" where
  "write_fstab_via_mount sh root_dev efi_dev home_dev swap_dev layout dry_run w =
     (let (ok, w) = shell_mkdir_p sh INST_ROOT_MNT dry_run w in
      if \<not> ok then (False, w)
      else
        let (ok, w) = shell_mount root_dev INST_ROOT_MNT dry_run w in
        if \<not> ok then (False, w)
        else
          let (ok, w) = write_fstab_file (INST_ROOT_MNT @ ''/etc/fstab'') efi_dev root_dev home_dev swap_dev layout dry_run w;
              (_, w) = shell_umount INST_ROOT_MNT dry_run w
          in (ok, w))"

end
