(* ===== verification/INST_Image.thy ===== *)
theory INST_Image
  imports INST_SHA256 INST_Fstab
begin

unbundle bit_operations_syntax

text \<open>
  Images: the checksum of a file (\<open>verify_sha256_file\<close>), decompression to a file or a device
  (\<open>decompress_gz_to_path\<close>, \<open>write_gz_image_to_disk\<close>), the capacity check, the retries and the
  comparison of the first 64 KiB after writing, and the copying of the upgrade files, from
  \<^verbatim>\<open>src/tools/install-eclipse/install-eclipse.c\<close>.

  zlib is the argument \<open>gz\<close>: it maps a compressed file to the bytes that can be decompressed and to
  whether the stream ends properly. \<open>gzread\<close> returns as many bytes as asked for while they last, fewer at the end of a
  proper stream, and an error where a broken one cannot be continued.
\<close>

section \<open>zlib\<close>

type_synonym gunzip = "byte list \<Rightarrow> byte list \<times> bool"

definition gzread :: "byte list \<times> bool \<Rightarrow> nat \<Rightarrow> nat \<Rightarrow> byte list option" where
  "gzread s pos n = (if pos + n \<le> length (fst s) \<or> snd s then Some (take n (drop pos (fst s))) else None)"

text \<open>\<open>gzopen\<close>: the stream behind a path.\<close>

definition gzopen :: "gunzip \<Rightarrow> string \<Rightarrow> inst \<Rightarrow> (byte list \<times> bool) option \<times> inst" where
  "gzopen gz path w = (let (ok, w) = ask_ok w in (if ok then map_option gz (fs w path) else None, w))"

section \<open>Checksums\<close>

function chunks_of :: "nat \<Rightarrow> 'a list \<Rightarrow> 'a list list" where
  "chunks_of n xs = (if xs = [] \<or> n = 0 then [] else take n xs # chunks_of n (drop n xs))"
  by auto
termination by (relation "measure (\<lambda>(n, xs). length xs)") auto

declare chunks_of.simps [simp del]

definition sha256_file_path :: "string \<Rightarrow> inst \<Rightarrow> string option \<times> inst" where
  "sha256_file_path path w =
     (let (ok, w) = ask_ok w in
      if \<not> ok then (None, w)
      else case fs w path of
             None \<Rightarrow> (None, w)
           | Some bs \<Rightarrow>
               let ctx = foldl sha256_update sha256_init (chunks_of 4096 bs);
                   (ok, w) = ask_ok w
               in if \<not> ok then (None, w) else (Some (sha256_hex_digest (sha256_final ctx)), w))"

text \<open>\<open>fscanf(fp, "%64s", expected)\<close>.\<close>

definition scan_s :: "nat \<Rightarrow> string \<Rightarrow> (string \<times> string) option" where
  "scan_s n s = (let s = skip_ws s; t = take n (takeWhile (\<lambda>c. \<not> isspace c) s) in
     if t = [] then None else Some (t, drop (length t) s))"

definition to_lower :: "char \<Rightarrow> char" where
  "to_lower c = (if 65 \<le> ord c \<and> ord c \<le> 90 then char_of (ord c + 32) else c)"

definition strcasecmp_eq :: "string \<Rightarrow> string \<Rightarrow> bool" where
  "strcasecmp_eq a b \<longleftrightarrow> map to_lower a = map to_lower b"

definition verify_sha256_file :: "string \<Rightarrow> inst \<Rightarrow> bool \<times> inst" where
  "verify_sha256_file img w =
     (let sha_path = take 255 (img @ ''.sha256'') in
      if \<not> struct_file_exists sha_path w then (True, w)
      else
        let (ok, w) = ask_ok w in
        if \<not> ok then (False, w)
        else
          case scan_s 64 (case fs w sha_path of Some bs \<Rightarrow> text_of bs | None \<Rightarrow> []) of
            None \<Rightarrow> (False, w)
          | Some (expected, _) \<Rightarrow>
              let (h, w) = sha256_file_path img w in
              case h of
                None \<Rightarrow> (False, w)
              | Some actual \<Rightarrow> (strcasecmp_eq expected actual, w))"

section \<open>Sizes\<close>

definition gzip_uncompressed_size :: "string \<Rightarrow> inst \<Rightarrow> u64 option \<times> inst" where
  "gzip_uncompressed_size path w =
     (let (ok, w) = ask_ok w in
      if \<not> ok then (None, w)
      else case fs w path of
             None \<Rightarrow> (None, w)
           | Some bs \<Rightarrow>
               if length bs < 4 then (None, w)
               else
                 let (ok, w) = ask_ok w in
                 if \<not> ok then (None, w) else (Some (le_load (drop (length bs - 4) bs)), w))"

text \<open>An unreadable size is only worth a warning.\<close>

definition verify_efi_image_fits_partition :: "partition_plan \<Rightarrow> inst \<Rightarrow> bool \<times> inst" where
  "verify_efi_image_fits_partition p w =
     (case image_path p of
        None \<Rightarrow> (True, w)
      | Some img \<Rightarrow>
          let part_bytes = sectors p * SECTOR_SIZE;
              (unc, w) = gzip_uncompressed_size img w
          in case unc of None \<Rightarrow> (True, w) | Some n \<Rightarrow> (\<not> n > part_bytes, w))"

section \<open>Writing images\<close>

function gz_to_dev :: "byte list \<times> bool \<Rightarrow> string \<Rightarrow> nat \<Rightarrow> nat \<Rightarrow> inst \<Rightarrow> bool \<times> inst" where
  "gz_to_dev s path off pos w =
     (case gzread s pos 4096 of
        None \<Rightarrow> (False, w)
      | Some bs \<Rightarrow>
          if bs = [] then (True, w)
          else
            let (ok, w) = disk_pwrite_all path bs (off + pos) w in
            if \<not> ok then (False, w) else gz_to_dev s path off (pos + length bs) w)"
  by pat_completeness auto
termination
  by (relation "measure (\<lambda>(s, path, off, pos, w). length (fst s) - pos)") (auto simp: gzread_def split: if_splits)

declare gz_to_dev.simps [simp del]

definition write_gz_image_to_disk :: "gunzip \<Rightarrow> string \<Rightarrow> string \<Rightarrow> u64 \<Rightarrow> bool \<Rightarrow> inst \<Rightarrow> bool \<times> inst" where
  "write_gz_image_to_disk gz gz_path disk_path start dry_run w =
     (if dry_run then (True, w)
      else
        let (s, w) = gzopen gz gz_path w in
        case s of
          None \<Rightarrow> (False, w)
        | Some s \<Rightarrow>
            let (ok, w) = ask_ok w in
            if \<not> ok then (False, w)
            else
              let (ok, w) = gz_to_dev s disk_path (unat (start * SECTOR_SIZE)) 0 w in
              if \<not> ok then (False, w)
              else let (_, w) = ask_ok w in ask_ok w)"

fun write_attempts :: "gunzip \<Rightarrow> nat \<Rightarrow> string \<Rightarrow> string \<Rightarrow> bool \<Rightarrow> inst \<Rightarrow> bool \<times> inst" where
  "write_attempts gz 0 img path dry_run w = (False, w)"
| "write_attempts gz (Suc n) img path dry_run w =
     (let (ok, w) = write_gz_image_to_disk gz img path 0 dry_run w in
      if ok then (True, w) else write_attempts gz n img path dry_run w)"

text \<open>\<open>gzopen(NULL)\<close> fails; the planned image partitions have a path.\<close>

definition write_partition_image_with_retry :: "gunzip \<Rightarrow> string \<Rightarrow> partition_plan \<Rightarrow> bool \<Rightarrow> inst \<Rightarrow> bool \<times> inst" where
  "write_partition_image_with_retry gz part_path p dry_run w =
     write_attempts gz 3 (case image_path p of Some i \<Rightarrow> i | None \<Rightarrow> []) part_path dry_run w"

definition read_gz_prefix :: "gunzip \<Rightarrow> string \<Rightarrow> nat \<Rightarrow> inst \<Rightarrow> byte list option \<times> inst" where
  "read_gz_prefix gz path n w =
     (let (s, w) = gzopen gz path w in
      case s of
        None \<Rightarrow> (None, w)
      | Some s \<Rightarrow>
          case gzread s 0 n of
            None \<Rightarrow> (None, w)
          | Some bs \<Rightarrow>
              let (ok, w) = ask_ok w in
              if \<not> ok then (None, w) else (if length bs = n then Some bs else None, w))"

abbreviation VERIFY_PREFIX_BYTES :: nat where "VERIFY_PREFIX_BYTES \<equiv> 65536"

definition verify_partition_write :: "gunzip \<Rightarrow> string \<Rightarrow> partition_plan \<Rightarrow> bool \<Rightarrow> inst \<Rightarrow> bool \<times> inst" where
  "verify_partition_write gz part_path p dry_run w =
     (if dry_run then (True, w)
      else case image_path p of
             None \<Rightarrow> (True, w)
           | Some img \<Rightarrow>
               let (ok, w) = ask_ok w in
               if \<not> ok then (False, w)
               else
                 let (r, w) = disk_pread_all part_path VERIFY_PREFIX_BYTES 0 [] w in
                 case r of
                   None \<Rightarrow> (False, w)
                 | Some disk_buf \<Rightarrow>
                     if length disk_buf \<noteq> VERIFY_PREFIX_BYTES then (False, w)
                     else
                       let (src, w) = read_gz_prefix gz img VERIFY_PREFIX_BYTES w in
                       case src of
                         None \<Rightarrow> (False, w)
                       | Some src_buf \<Rightarrow>
                           (strcasecmp_eq (sha256_hex_buffer disk_buf) (sha256_hex_buffer src_buf), w))"

section \<open>Files\<close>

text \<open>Each chunk is one \<open>write\<close>, which has to transfer everything; a short one leaves its prefix.\<close>

function gz_to_file :: "byte list \<times> bool \<Rightarrow> string \<Rightarrow> nat \<Rightarrow> inst \<Rightarrow> bool \<times> inst" where
  "gz_to_file s path pos w =
     (case gzread s pos 4096 of
        None \<Rightarrow> (False, w)
      | Some bs \<Rightarrow>
          if bs = [] then (True, w)
          else
            let (v, w) = ask_val w;
                n = (case v of Some k \<Rightarrow> min k (length bs) | None \<Rightarrow> 0);
                w = put_file path (take pos (fst s) @ take n bs) w
            in if n \<noteq> length bs then (False, w) else gz_to_file s path (pos + length bs) w)"
  by pat_completeness auto
termination
  by (relation "measure (\<lambda>(s, path, pos, w). length (fst s) - pos)") (auto simp: gzread_def split: if_splits)

declare gz_to_file.simps [simp del]

definition decompress_gz_to_path :: "gunzip \<Rightarrow> string \<Rightarrow> string \<Rightarrow> bool \<Rightarrow> inst \<Rightarrow> bool \<times> inst" where
  "decompress_gz_to_path gz gz_path out_path dry_run w =
     (if dry_run then (True, w)
      else
        let (s, w) = gzopen gz gz_path w in
        case s of
          None \<Rightarrow> (False, w)
        | Some s \<Rightarrow>
            let (ok, w) = ask_ok w in
            if \<not> ok then (False, w)
            else
              let (ok, w) = gz_to_file s out_path 0 (put_file out_path [] w) in
              if \<not> ok then (False, w)
              else let (_, w) = ask_ok w in ask_ok w)"

text \<open>\<open>shell_copy_file\<close>: reads of up to 64 KiB, each written out by an inner loop that continues after
  short writes and \<open>EINTR\<close>. A \<open>write\<close> that returns 0 leaves the loop where it is.\<close>

function copy_chunk :: "string \<Rightarrow> byte list \<Rightarrow> byte list \<Rightarrow> inst \<Rightarrow> bool \<times> inst" where
  "copy_chunk dst written bs w =
     (if bs = [] then (True, w)
      else
        let (a, w) = ask w in
        case a of
          Done k \<Rightarrow>
            let n = min k (length bs); written = written @ take n bs
            in copy_chunk dst written (drop n bs) (put_file dst written w)
        | Interrupted \<Rightarrow> copy_chunk dst written bs w
        | _ \<Rightarrow> (False, w))"
  by pat_completeness auto
termination
  by (relation "measure (\<lambda>(dst, written, bs, w). length (outs w))")
     (auto simp: put_file_def dest!: ask_shorter [OF sym])

declare copy_chunk.simps [simp del]

text \<open>The outer loop over the rest of the source; a \<open>read\<close> error ends it.\<close>

function copy_loop :: "string \<Rightarrow> byte list \<Rightarrow> byte list \<Rightarrow> inst \<Rightarrow> bool \<times> inst" where
  "copy_loop dst written rest w =
     (let (v, w') = ask_val w in
      case v of
        None \<Rightarrow> (False, w')
      | Some k \<Rightarrow>
          let n = min k (min 65536 (length rest)) in
          if n = 0 then (True, w')
          else
            let (ok, w'') = copy_chunk dst written (take n rest) w' in
            if \<not> ok then (False, w'') else copy_loop dst (written @ take n rest) (drop n rest) w'')"
  by pat_completeness auto
termination
  by (relation "measure (\<lambda>(dst, written, rest, w). length rest)") auto

declare copy_loop.simps [simp del]

definition shell_copy_file :: "string \<Rightarrow> string \<Rightarrow> bool \<Rightarrow> inst \<Rightarrow> bool \<times> inst" where
  "shell_copy_file src dst dry_run w =
     (if dry_run then (True, w)
      else
        let (ok, w) = ask_ok w in
        if \<not> ok then (False, w)
        else case fs w src of
               None \<Rightarrow> (False, w)
             | Some bs \<Rightarrow>
                 let (ok, w) = ask_ok w in
                 if \<not> ok then (False, w)
                 else
                   let (ok, w) = copy_loop dst [] bs (put_file dst [] w) in
                   if \<not> ok then (False, w) else let (_, w) = ask_ok w in (True, w))"

definition copy_upgrade_payload_if_exists :: "string \<Rightarrow> string \<Rightarrow> bool \<Rightarrow> inst \<Rightarrow> bool \<times> inst" where
  "copy_upgrade_payload_if_exists src dst dry_run w =
     (if \<not> struct_file_exists src w then (True, w) else shell_copy_file src dst dry_run w)"

end
