(* ===== verification/INST_Dialogue.thy ===== *)
theory INST_Dialogue
  imports INST_Image
begin

text \<open>
  Finding disks, command-line options and the questions of
  \<^verbatim>\<open>src/tools/install-eclipse/install-eclipse.c\<close>: \<open>scan_disks\<close>, \<open>parse_args\<close>, \<open>safe_flush_input\<close>, the
  four prompts and \<open>ask_yes_no\<close>. The console output is not modelled. \<open>ents\<close> are the names that
  \<open>readdir\<close> returns for \<^verbatim>\<open>/sys/class/block\<close>.
\<close>

section \<open>Configuration\<close>

record config =
  c_disk_path :: string
  c_disk_set :: bool
  c_mode :: install_mode
  c_mode_set :: bool
  c_auto_yes :: bool
  c_dry_run :: bool
  c_layout :: layout_mode
  c_layout_set :: bool
  c_table :: table_mode
  c_table_set :: bool

definition empty_config :: config where
  "empty_config = \<lparr>c_disk_path = [], c_disk_set = False, c_mode = MODE_UNSET, c_mode_set = False, c_auto_yes = False,
     c_dry_run = False, c_layout = LAYOUT_UNSET, c_layout_set = False, c_table = TABLE_UNSET, c_table_set = False\<rparr>"

datatype arg_error = Missing_value string | Bad_mode string | Layout_conflict | Table_conflict | Unknown_arg string

fun parse_args_loop :: "string list \<Rightarrow> config \<Rightarrow> arg_error + config" where
  "parse_args_loop [] cfg = Inr cfg"
| "parse_args_loop (a # rest) cfg =
     (if a = ''--disk''
      then (case rest of
              [] \<Rightarrow> Inl (Missing_value a)
            | v # rest \<Rightarrow> parse_args_loop rest (cfg\<lparr>c_disk_path := take 127 v, c_disk_set := True\<rparr>))
      else if a = ''--mode''
      then (case rest of
              [] \<Rightarrow> Inl (Missing_value a)
            | v # rest \<Rightarrow>
                if v = ''new'' then parse_args_loop rest (cfg\<lparr>c_mode := MODE_NEW, c_mode_set := True\<rparr>)
                else if v = ''upgrade'' then parse_args_loop rest (cfg\<lparr>c_mode := MODE_UPGRADE, c_mode_set := True\<rparr>)
                else Inl (Bad_mode v))
      else if a = ''--yes'' then parse_args_loop rest (cfg\<lparr>c_auto_yes := True\<rparr>)
      else if a = ''--dry-run'' then parse_args_loop rest (cfg\<lparr>c_dry_run := True\<rparr>)
      else if a = ''--simple''
      then (if c_layout_set cfg \<and> c_layout cfg \<noteq> LAYOUT_SIMPLE then Inl Layout_conflict
            else parse_args_loop rest (cfg\<lparr>c_layout := LAYOUT_SIMPLE, c_layout_set := True\<rparr>))
      else if a = ''--advanced''
      then (if c_layout_set cfg \<and> c_layout cfg \<noteq> LAYOUT_ADVANCED then Inl Layout_conflict
            else parse_args_loop rest (cfg\<lparr>c_layout := LAYOUT_ADVANCED, c_layout_set := True\<rparr>))
      else if a = ''--mbr''
      then (if c_table_set cfg \<and> c_table cfg \<noteq> TABLE_MBR then Inl Table_conflict
            else parse_args_loop rest (cfg\<lparr>c_table := TABLE_MBR, c_table_set := True\<rparr>))
      else if a = ''--gpt''
      then (if c_table_set cfg \<and> c_table cfg \<noteq> TABLE_GPT then Inl Table_conflict
            else parse_args_loop rest (cfg\<lparr>c_table := TABLE_GPT, c_table_set := True\<rparr>))
      else Inl (Unknown_arg a))"

text \<open>The arguments after \<open>argv[0]\<close>.\<close>

definition parse_args :: "string list \<Rightarrow> arg_error + config" where
  "parse_args args = parse_args_loop args empty_config"

section \<open>Disks\<close>

record disk_info =
  di_path :: string
  di_size :: u64
  di_removable :: bool

abbreviation MAX_DISKS :: nat where "MAX_DISKS \<equiv> 64"

text \<open>The answer of \<open>stat\<close> is whether the path is a block device. \<open>disk_list\<close> repeats the paths of \<open>disks\<close>.\<close>

definition add_disk_if_present :: "string \<Rightarrow> disk_info list \<times> inst \<Rightarrow> disk_info list \<times> inst" where
  "add_disk_if_present path = (\<lambda>(disks, w).
     if length disks \<ge> MAX_DISKS then (disks, w)
     else if path \<in> di_path ` set disks then (disks, w)
     else
       let (blk, w) = ask_ok w in
       if \<not> blk then (disks, w)
       else
         let (n, w) = get_disk_size_bytes path w in
         if n = 0 then (disks, w)
         else
           let (rm, w) = is_removable_disk path w
           in (disks @ [\<lparr>di_path = take 127 path, di_size = n, di_removable = rm\<rparr>], w))"

definition prefix_of :: "string \<Rightarrow> string \<Rightarrow> bool" where
  "prefix_of p s \<longleftrightarrow> take (length p) s = p"

definition is_supported_disk_name :: "string \<Rightarrow> bool" where
  "is_supported_disk_name name \<longleftrightarrow>
     name \<noteq> [] \<and> (prefix_of ''sd'' name \<or> prefix_of ''vd'' name \<or> prefix_of ''xvd'' name \<or> prefix_of ''hd'' name \<or>
       prefix_of ''nvme'' name \<or> prefix_of ''mmcblk'' name)"

definition sysfs_entry :: "disk_info list \<times> inst \<Rightarrow> string \<Rightarrow> disk_info list \<times> inst" where
  "sysfs_entry = (\<lambda>(disks, w) name.
     if length disks \<ge> MAX_DISKS then (disks, w)
     else if name = ''.'' \<or> name = ''..'' then (disks, w)
     else if name = [] \<or> length name \<ge> 96 then (disks, w)
     else if \<not> is_supported_disk_name name then (disks, w)
     else
       let (is_part, w) = ask_ok w in
       if is_part then (disks, w) else add_disk_if_present (''/dev/'' @ name) (disks, w))"

definition scan_disks_sysfs :: "string list option \<Rightarrow> disk_info list \<times> inst \<Rightarrow> disk_info list \<times> inst" where
  "scan_disks_sysfs ents st = (case ents of None \<Rightarrow> st | Some names \<Rightarrow> foldl sysfs_entry st names)"

definition letters :: string where "letters = ''abcdefghijklmnopqrstuvwxyz''"

definition nvme_names :: "string list" where
  "nvme_names = concat (map (\<lambda>c. map (\<lambda>n. ''/dev/nvme'' @ [digit_char c] @ ''n'' @ [digit_char n]) [1..<10]) [0..<10])"

definition scan_disks :: "string list option \<Rightarrow> inst \<Rightarrow> disk_info list \<times> inst" where
  "scan_disks ents w =
     (let st = scan_disks_sysfs ents ([], w);
          st = foldl (\<lambda>st c. add_disk_if_present (''/dev/sd'' @ [c]) st) st letters;
          st = foldl (\<lambda>st p. add_disk_if_present p st) st nvme_names
      in foldl (\<lambda>st c. add_disk_if_present (''/dev/vd'' @ [c]) st) st letters)"

section \<open>Input\<close>

text \<open>The loop of \<open>safe_flush_input\<close>: characters typed, with carriage returns dropped and erase characters
  honoured, up to a newline, the end of input or a full buffer. The flag says whether the input ended.\<close>

fun read_keys :: "nat \<Rightarrow> string \<Rightarrow> string \<Rightarrow> bool \<times> string \<times> string" where
  "read_keys room buf ks =
     (if length buf \<ge> room then (False, buf, ks)
      else case ks of
             [] \<Rightarrow> (True, buf, [])
           | c # ks \<Rightarrow>
               if c = CR then read_keys room buf ks
               else if c = NL then (False, buf, ks)
               else if c = CHR 0x08 \<or> c = CHR 0x7F then read_keys room (butlast buf) ks
               else read_keys room (buf @ [c]) ks)"

declare read_keys.simps [simp del]

definition safe_flush_input :: "nat \<Rightarrow> inst \<Rightarrow> string option \<times> inst" where
  "safe_flush_input sz w =
     (if sz < 2 then (None, w)
      else
        let (eof, buf, ks) = read_keys (sz - 1) [] (keys w); w = w\<lparr>keys := ks\<rparr>
        in if eof then (if buf = [] then None else Some (cstr_of buf), w)
           else (Some (trim_leading_ws (cstr_of buf)), w))"

definition prompt_disk_selection :: "config \<Rightarrow> string list \<Rightarrow> inst \<Rightarrow> config option \<times> inst" where
  "prompt_disk_selection cfg disk_list w =
     (if c_disk_set cfg then (Some cfg, w)
      else if disk_list = [] then (None, w)
      else
        let cfg = cfg\<lparr>c_disk_path := take 127 (disk_list ! 0)\<rparr> in
        if c_auto_yes cfg then (Some cfg, w)
        else
          let (r, w) = safe_flush_input 64 w in
          case r of
            None \<Rightarrow> (Some cfg, w)
          | Some input \<Rightarrow>
              if input = [] then (Some cfg, w)
              else
                case parse_menu_index input (int (length disk_list)) of
                  (_, Some idx) \<Rightarrow> (Some (cfg\<lparr>c_disk_path := take 127 (disk_list ! nat (idx - 1))\<rparr>), w)
                | (code, None) \<Rightarrow>
                    if code = -1 \<and> list_all isdigit input then (Some cfg, w)
                    else (Some (cfg\<lparr>c_disk_path := take 127 input\<rparr>), w))"

definition prompt_install_mode :: "config \<Rightarrow> existing_install_info \<Rightarrow> inst \<Rightarrow> config \<times> inst" where
  "prompt_install_mode cfg info w =
     (if c_mode_set cfg then (cfg, w)
      else
        let suggested = (if suggest_upgrade info then MODE_UPGRADE else MODE_NEW) in
        if c_auto_yes cfg then (cfg\<lparr>c_mode := suggested\<rparr>, w)
        else
          let (r, w) = safe_flush_input 32 w in
          case r of
            None \<Rightarrow> (cfg\<lparr>c_mode := suggested\<rparr>, w)
          | Some input \<Rightarrow>
              if input = [] then (cfg\<lparr>c_mode := suggested\<rparr>, w)
              else
                let choice = snd (parse_menu_index input 2)
                in (cfg\<lparr>c_mode := (if choice = Some 2 then MODE_UPGRADE else if choice = Some 1 then MODE_NEW
                                   else suggested)\<rparr>, w))"

definition prompt_layout :: "config \<Rightarrow> inst \<Rightarrow> config \<times> inst" where
  "prompt_layout cfg w =
     (if c_layout_set cfg then (cfg, w)
      else if c_auto_yes cfg then (cfg\<lparr>c_layout := LAYOUT_SIMPLE\<rparr>, w)
      else
        let (r, w) = safe_flush_input 32 w in
        case r of
          None \<Rightarrow> (cfg\<lparr>c_layout := LAYOUT_SIMPLE\<rparr>, w)
        | Some input \<Rightarrow>
            if input = [] then (cfg\<lparr>c_layout := LAYOUT_SIMPLE\<rparr>, w)
            else (cfg\<lparr>c_layout := (if snd (parse_menu_index input 2) = Some 2 then LAYOUT_ADVANCED else LAYOUT_SIMPLE)\<rparr>, w))"

definition prompt_table :: "config \<Rightarrow> bool \<Rightarrow> inst \<Rightarrow> config \<times> inst" where
  "prompt_table cfg running_on_efi w =
     (if c_table_set cfg then (cfg, w)
      else
        let suggested = (if running_on_efi then TABLE_GPT else TABLE_MBR) in
        if c_auto_yes cfg then (cfg\<lparr>c_table := suggested\<rparr>, w)
        else
          let (r, w) = safe_flush_input 32 w in
          case r of
            None \<Rightarrow> (cfg\<lparr>c_table := suggested\<rparr>, w)
          | Some input \<Rightarrow>
              if input = [] then (cfg\<lparr>c_table := suggested\<rparr>, w)
              else
                let choice = snd (parse_menu_index input 2)
                in (cfg\<lparr>c_table := (if choice = Some 1 then TABLE_MBR else if choice = Some 2 then TABLE_GPT
                                    else suggested)\<rparr>, w))"

definition ask_yes_no :: "bool \<Rightarrow> bool \<Rightarrow> inst \<Rightarrow> bool \<times> inst" where
  "ask_yes_no default_yes auto_yes w =
     (if auto_yes then (True, w)
      else
        let (r, w) = safe_flush_input 32 w in
        case r of
          None \<Rightarrow> (default_yes, w)
        | Some input \<Rightarrow>
            if input = [] then (default_yes, w)
            else (hd input = CHR ''y'' \<or> hd input = CHR ''Y'' \<or> hd input = CHR ''s'' \<or> hd input = CHR ''S'', w))"

end
