(* ===== verification/INST_Main.thy ===== *)
theory INST_Main
  imports INST_Dialogue
begin

text \<open>
  The two modes of \<^verbatim>\<open>src/tools/install-eclipse/install-eclipse.c\<close> and its \<open>main\<close>: a new installation
  (partition table, EFI and root images with verification, home and swap, \<^verbatim>\<open>/etc/fstab\<close>,
  \<^verbatim>\<open>rboot.conf\<close>) and the selective upgrade of the EFI partition, behind the questions and checks of \<open>main\<close>.

  The arguments: \<open>gz\<close> is zlib, \<open>sh\<close> what a shell command does, \<open>stk\<close> the uninitialised name array of
  the GPT writer, \<open>ents\<close> the entries of \<^verbatim>\<open>/sys/class/block\<close>. \<open>sync\<close> and the rescan of the partition table
  have no effect on the modelled state.
\<close>

section \<open>Finishing a new installation\<close>

definition mkswap_cmd :: "string \<Rightarrow> string" where
  "mkswap_cmd swap_dev =
     take 511 (''sh -c '' @ [CHR 0x22] @ ''mkswap -L SWAP '' @ [CHR 0x27] @ swap_dev @ [CHR 0x27, CHR 0x22])"

definition format_home :: "gunzip \<Rightarrow> string \<Rightarrow> bool \<Rightarrow> inst \<Rightarrow> bool \<times> inst" where
  "format_home gz home_dev dry_run w =
     (let ex = (\<lambda>p. struct_file_exists p w); home_img = HOME_IMAGE_GZ ex in
      if \<not> struct_file_exists home_img w then (True, w)
      else write_gz_image_to_disk gz home_img home_dev 0 dry_run w)"

text \<open>The raw patch first, the mount if it fails.\<close>

definition put_fstab ::
  "(string \<Rightarrow> inst \<Rightarrow> inst) \<Rightarrow> string \<Rightarrow> string \<Rightarrow> string \<Rightarrow> string \<Rightarrow> layout_mode \<Rightarrow> bool \<Rightarrow> inst \<Rightarrow> bool \<times> inst" where
  "put_fstab sh root_dev efi_dev home_dev swap_dev layout dry_run w =
     (let (ok, w) = patch_fstab_on_block_device root_dev efi_dev root_dev home_dev swap_dev layout dry_run w in
      if ok then (True, w)
      else write_fstab_via_mount sh root_dev efi_dev home_dev swap_dev layout dry_run w)"

definition write_fstab_to_root ::
  "gunzip \<Rightarrow> (string \<Rightarrow> inst \<Rightarrow> inst) \<Rightarrow> string \<Rightarrow> nat \<Rightarrow> layout_mode \<Rightarrow> bool \<Rightarrow> inst \<Rightarrow> bool \<times> inst" where
  "write_fstab_to_root gz sh disk_path part_count layout dry_run w =
     (case (partition_dev_path disk_path 1 160, partition_dev_path disk_path 2 160) of
        (Some efi_dev, Some root_dev) \<Rightarrow>
          if layout = LAYOUT_ADVANCED \<and> part_count \<ge> 4
          then
            (case (partition_dev_path disk_path 3 160, partition_dev_path disk_path 4 160) of
               (Some home_dev, Some swap_dev) \<Rightarrow>
                 let (ok, w) = format_home gz home_dev dry_run w in
                 if \<not> ok then (False, w)
                 else
                   let (ok, w) = run_command_logged sh (mkswap_cmd swap_dev) dry_run w in
                   if \<not> ok then (False, w)
                   else put_fstab sh root_dev efi_dev home_dev swap_dev layout dry_run w
             | _ \<Rightarrow> (False, w))
          else put_fstab sh root_dev efi_dev [] [] LAYOUT_SIMPLE dry_run w
      | _ \<Rightarrow> (False, w))"

definition resize_root_to_partition :: "string \<Rightarrow> bool \<Rightarrow> inst \<Rightarrow> bool \<times> inst" where
  "resize_root_to_partition root_dev dry_run w = (True, w)"

definition trigger_partition_rescan :: "string \<Rightarrow> inst \<Rightarrow> inst" where
  "trigger_partition_rescan disk_path w =
     (let (ok, w) = ask_ok w in if ok then snd (ask_ok w) else w)"

definition write_table ::
  "(string \<Rightarrow> inst \<Rightarrow> inst) \<Rightarrow> u16 list \<Rightarrow> config \<Rightarrow> partition_plan list \<Rightarrow> inst \<Rightarrow> (table_error + unit) \<times> inst" where
  "write_table sh stk cfg parts w =
     (if c_table cfg = TABLE_GPT then write_gpt_partition_table sh stk (c_disk_path cfg) parts (c_dry_run cfg) w
      else write_mbr_partition_table (c_disk_path cfg) parts (c_dry_run cfg) w)"

text \<open>Writing an image and comparing its beginning.\<close>

definition put_image :: "gunzip \<Rightarrow> string \<Rightarrow> partition_plan \<Rightarrow> bool \<Rightarrow> inst \<Rightarrow> bool \<times> inst" where
  "put_image gz dev p dry_run w =
     (let (ok, w) = write_partition_image_with_retry gz dev p dry_run w in
      if \<not> ok then (False, w) else verify_partition_write gz dev p dry_run w)"

text \<open>The branch \<open>cfg.mode == MODE_NEW\<close> of \<open>main\<close> after the confirmation.\<close>

definition install_new ::
  "gunzip \<Rightarrow> (string \<Rightarrow> inst \<Rightarrow> inst) \<Rightarrow> u16 list \<Rightarrow> config \<Rightarrow> partition_plan list \<Rightarrow> inst \<Rightarrow> bool \<times> inst" where
  "install_new gz sh stk cfg parts w =
     (let (t, w) = write_table sh stk cfg parts w in
      case t of
        Inl _ \<Rightarrow> (False, w)
      | Inr _ \<Rightarrow>
          let w = trigger_partition_rescan (c_disk_path cfg) w in
          case (partition_dev_path (c_disk_path cfg) 1 160, partition_dev_path (c_disk_path cfg) 2 160) of
            (Some efi_dev, Some root_dev) \<Rightarrow>
              let (ok, w) = verify_efi_image_fits_partition (parts ! 0) w in
              if \<not> ok then (False, w)
              else
                let (ok, w) = put_image gz efi_dev (parts ! 0) (c_dry_run cfg) w in
                if \<not> ok then (False, w)
                else
                  let (ok, w) = put_image gz root_dev (parts ! 1) (c_dry_run cfg) w in
                  if \<not> ok then (False, w)
                  else
                    let (_, w) = resize_root_to_partition root_dev (c_dry_run cfg) w;
                        (ok, w) = write_fstab_to_root gz sh (c_disk_path cfg) (length parts) (c_layout cfg) (c_dry_run cfg) w
                    in if \<not> ok then (False, w)
                       else patch_rboot_root_on_efi efi_dev root_dev (c_dry_run cfg) w
          | _ \<Rightarrow> (False, w))"

section \<open>Upgrade\<close>

text \<open>\<open>sscanf(line, "%255s %255s", src, tgt)\<close> on the lines of \<^verbatim>\<open>/proc/mounts\<close>.\<close>

definition mount_line :: "string \<Rightarrow> (string \<times> string) option" where
  "mount_line line =
     Option.bind (scan_s 255 line) (\<lambda>(src, rest). Option.bind (scan_s 255 rest) (\<lambda>(tgt, _). Some (src, tgt)))"

fun find_mount :: "string \<Rightarrow> string list \<Rightarrow> string option" where
  "find_mount mp [] = None"
| "find_mount mp (l # ls) =
     (case mount_line l of Some (src, tgt) \<Rightarrow> if tgt = mp then Some src else find_mount mp ls | None \<Rightarrow> find_mount mp ls)"

definition find_mount_device :: "string \<Rightarrow> inst \<Rightarrow> string option \<times> inst" where
  "find_mount_device mp w =
     (let (ok, w) = ask_ok w in
      (if ok then find_mount mp (fgets_lines 1024 (case fs w ''/proc/mounts'' of Some bs \<Rightarrow> text_of bs | None \<Rightarrow> [])) else None, w))"

definition UPD_STAGING_MNT :: string where "UPD_STAGING_MNT = ''/tmp/eclipse-upd-staging''"
definition UPD_EFI_MNT :: string where "UPD_EFI_MNT = ''/tmp/eclipse-upd-efi''"
definition UPD_ROOT_MNT :: string where "UPD_ROOT_MNT = ''/tmp/eclipse-upd-root''"

text \<open>The clean-up at the end: unmount what was mounted, remove the extracted image, and after success set
  the root device in \<open>rboot.conf\<close>.\<close>

definition sys_unlink :: "string \<Rightarrow> inst \<Rightarrow> inst" where
  "sys_unlink path w = (let (ok, w) = ask_ok w in if ok then w\<lparr>fs := (fs w)(path := None)\<rparr> else w)"

definition upgrade_cleanup :: "bool \<Rightarrow> bool \<Rightarrow> bool \<Rightarrow> string \<Rightarrow> string \<Rightarrow> bool \<Rightarrow> string \<Rightarrow> inst \<Rightarrow> bool \<times> inst" where
  "upgrade_cleanup rc staged root_mounted efi_dev root_dev dry_run root_img w =
     (let w = (if staged then snd (shell_umount UPD_STAGING_MNT dry_run w) else w);
          w = (if root_mounted
               then let w = (if root_img \<noteq> [] \<and> \<not> dry_run then sys_unlink root_img w else w)
                    in snd (shell_umount UPD_ROOT_MNT dry_run w)
               else w);
          w = (if rc then snd (patch_rboot_root_on_efi efi_dev root_dev dry_run w) else w)
      in (rc, w))"

text \<open>Copying bootloader, kernel and initramfs from \<open>src_mnt\<close> to \<open>efi_dest\<close>; the initramfs is
  optional.\<close>

definition copy_payload :: "(string \<Rightarrow> inst \<Rightarrow> inst) \<Rightarrow> string \<Rightarrow> string \<Rightarrow> bool \<Rightarrow> inst \<Rightarrow> bool \<times> inst" where
  "copy_payload sh src_mnt efi_dest dry_run w =
     (let (ok, w) = shell_mkdir_p sh (take 319 (efi_dest @ ''/EFI/Boot'')) dry_run w in
      if \<not> ok then (False, w)
      else
        let (ok, w) = shell_mkdir_p sh (take 319 (efi_dest @ ''/EFI/zCore'')) dry_run w in
        if \<not> ok then (False, w)
        else
          let (ok, w) = copy_upgrade_payload_if_exists (take 255 (src_mnt @ ''/EFI/Boot/BootX64.efi''))
                          (take 399 (efi_dest @ ''/EFI/Boot/BootX64.efi'')) dry_run w in
          if \<not> ok then (False, w)
          else
            let (ok, w) = copy_upgrade_payload_if_exists (take 255 (src_mnt @ ''/EFI/zCore/zcore.elf''))
                            (take 399 (efi_dest @ ''/EFI/zCore/zcore.elf'')) dry_run w in
            if \<not> ok then (False, w)
            else
              let (_, w) = copy_upgrade_payload_if_exists (take 255 (src_mnt @ ''/EFI/zCore/initramfs.img''))
                             (take 399 (efi_dest @ ''/EFI/zCore/initramfs.img'')) dry_run w
              in (True, w))"

text \<open>From the EFI destination on: the system's own mount is preferred and left mounted.\<close>

definition upgrade_efi :: "(string \<Rightarrow> inst \<Rightarrow> inst) \<Rightarrow> string \<Rightarrow> string \<Rightarrow> bool \<Rightarrow> inst \<Rightarrow> bool \<times> inst" where
  "upgrade_efi sh src_mnt efi_dev dry_run w =
     (let (m, w) = find_mount_device ''/boot/efi'' w in
      case m of
        Some _ \<Rightarrow> copy_payload sh src_mnt ''/boot/efi'' dry_run w
      | None \<Rightarrow>
          let (ok, w) = shell_mkdir_p sh UPD_EFI_MNT dry_run w in
          if \<not> ok then (False, w)
          else
            let (ok, w) = shell_mount efi_dev UPD_EFI_MNT dry_run w in
            if \<not> ok then (False, w)
            else
              let (ok, w) = copy_payload sh src_mnt UPD_EFI_MNT dry_run w;
                  (_, w) = shell_umount UPD_EFI_MNT dry_run w
              in (ok, w))"

text \<open>Without pre-extracted files the image is unpacked onto the root partition and mounted.\<close>

definition upgrade_from_image ::
  "gunzip \<Rightarrow> (string \<Rightarrow> inst \<Rightarrow> inst) \<Rightarrow> string \<Rightarrow> string \<Rightarrow> bool \<Rightarrow> inst \<Rightarrow> bool \<times> inst" where
  "upgrade_from_image gz sh efi_dev root_dev dry_run w =
     (let img = EFI_IMAGE_GZ (\<lambda>p. struct_file_exists p w) in
      if \<not> struct_file_exists img w then (False, w)
      else
        let (ok, w) = shell_mkdir_p sh UPD_ROOT_MNT dry_run w in
        if \<not> ok then (False, w)
        else
          let (ok, w) = shell_mount root_dev UPD_ROOT_MNT dry_run w in
          if \<not> ok then (False, w)
          else
            let root_img = UPD_ROOT_MNT @ ''/eclipse-upd-efi.img'';
                (ok, w) = decompress_gz_to_path gz img root_img dry_run w
            in if \<not> ok then upgrade_cleanup False False True efi_dev root_dev dry_run root_img w
               else
                 let (ok, w) = shell_mkdir_p sh UPD_STAGING_MNT dry_run w in
                 if \<not> ok then upgrade_cleanup False False True efi_dev root_dev dry_run root_img w
                 else
                   let (ok, w) = shell_mount root_img UPD_STAGING_MNT dry_run w in
                   if \<not> ok then upgrade_cleanup False False True efi_dev root_dev dry_run root_img w
                   else
                     let (rc, w) = upgrade_efi sh UPD_STAGING_MNT efi_dev dry_run w
                     in upgrade_cleanup rc True True efi_dev root_dev dry_run root_img w)"

definition run_upgrade :: "gunzip \<Rightarrow> (string \<Rightarrow> inst \<Rightarrow> inst) \<Rightarrow> string \<Rightarrow> bool \<Rightarrow> inst \<Rightarrow> bool \<times> inst" where
  "run_upgrade gz sh disk_path dry_run w =
     (let (d, w) = discover_partitions disk_path w in
      case d of
        None \<Rightarrow> (False, w)
      | Some (efi, root) \<Rightarrow>
          (case (partition_dev_path disk_path (int efi) 160, partition_dev_path disk_path (int root) 160) of
             (Some efi_dev, Some root_dev) \<Rightarrow>
               if struct_file_exists ''/boot/efi-staging/EFI/Boot/BootX64.efi'' w
               then let (rc, w) = upgrade_efi sh ''/boot/efi-staging'' efi_dev dry_run w
                    in upgrade_cleanup rc False False efi_dev root_dev dry_run [] w
               else upgrade_from_image gz sh efi_dev root_dev dry_run w
           | _ \<Rightarrow> (False, w)))"

section \<open>main\<close>

text \<open>The exit status: 0 success, 1 error, 2 cancelled by the user.\<close>

text \<open>The checks on the images before anything is written.\<close>

definition check_images :: "install_mode \<Rightarrow> inst \<Rightarrow> bool \<times> inst" where
  "check_images mode w =
     (let ex = (\<lambda>p. struct_file_exists p w) in
      if \<not> struct_file_exists (EFI_IMAGE_GZ ex) w then (False, w)
      else if mode = MODE_NEW \<and> \<not> struct_file_exists (ROOTFS_IMAGE_GZ ex) w then (False, w)
      else
        let (ok, w) = verify_sha256_file (EFI_IMAGE_GZ ex) w in
        if \<not> ok then (False, w)
        else if mode = MODE_NEW then verify_sha256_file (ROOTFS_IMAGE_GZ ex) w else (True, w))"

text \<open>From the summary on: the confirmation and the work.\<close>

definition confirm_and_run ::
  "gunzip \<Rightarrow> (string \<Rightarrow> inst \<Rightarrow> inst) \<Rightarrow> u16 list \<Rightarrow> config \<Rightarrow> partition_plan list \<Rightarrow> inst \<Rightarrow> nat \<times> inst" where
  "confirm_and_run gz sh stk cfg parts w =
     (let (yes, w) = (if c_auto_yes cfg then (True, w) else ask_yes_no False False w) in
      if \<not> yes then (2, w)
      else
        let (ok, w) = (if c_mode cfg = MODE_NEW then install_new gz sh stk cfg parts w
                       else run_upgrade gz sh (c_disk_path cfg) (c_dry_run cfg) w)
        in (if ok then 0 else 1, w))"

text \<open>From the choice of mode on, for a disk of \<open>disk_bytes\<close> bytes.\<close>

definition choose_and_run ::
  "gunzip \<Rightarrow> (string \<Rightarrow> inst \<Rightarrow> inst) \<Rightarrow> u16 list \<Rightarrow> config \<Rightarrow> u64 \<Rightarrow> inst \<Rightarrow> nat \<times> inst" where
  "choose_and_run gz sh stk cfg disk_bytes w =
     (let (e, w) = detect_existing_install (c_disk_path cfg) w in
      case e of
        None \<Rightarrow> (1, w)
      | Some existing \<Rightarrow>
          let (cfg, w) = prompt_install_mode cfg existing w;
              (cfg, w) = (if c_mode cfg = MODE_NEW
                          then let (cfg, w) = prompt_layout cfg w
                               in prompt_table cfg (struct_file_exists ''/sys/firmware/efi'' w) w
                          else (cfg, w));
              (removable, w) = is_removable_disk (c_disk_path cfg) w;
              (go, w) = (if removable \<and> \<not> c_auto_yes cfg then ask_yes_no False False w else (True, w))
          in if \<not> go then (2, w)
             else
               let (ok, w) = check_images (c_mode cfg) w in
               if \<not> ok then (1, w)
               else if c_mode cfg = MODE_NEW
               then (case build_partition_plan (\<lambda>p. struct_file_exists p w) (c_layout cfg) (c_table cfg)
                            (disk_bytes div SECTOR_SIZE) of
                       Inl _ \<Rightarrow> (1, w)
                     | Inr (parts, _) \<Rightarrow> confirm_and_run gz sh stk cfg parts w)
               else confirm_and_run gz sh stk cfg [] w)"

definition inst_main ::
  "gunzip \<Rightarrow> (string \<Rightarrow> inst \<Rightarrow> inst) \<Rightarrow> u16 list \<Rightarrow> string list option \<Rightarrow> string list \<Rightarrow> inst \<Rightarrow> nat \<times> inst" where
  "inst_main gz sh stk ents args w =
     (case parse_args args of
        Inl _ \<Rightarrow> (1, w)
      | Inr cfg \<Rightarrow>
          let (disks, w) = scan_disks ents w in
          if disks = [] \<and> \<not> c_disk_set cfg then (1, w)
          else
            let (c, w) = prompt_disk_selection cfg (map di_path disks) w in
            case c of
              None \<Rightarrow> (1, w)
            | Some cfg \<Rightarrow>
                let (disk_bytes, w) = get_disk_size_bytes (c_disk_path cfg) w in
                if disk_bytes = 0 then (1, w) else choose_and_run gz sh stk cfg disk_bytes w)"

end
