(* ===== verification/INST_Fstab_Correct.thy ===== *)
theory INST_Fstab_Correct
  imports INST_Fstab INST_Table_Correct
begin

unbundle bit_operations_syntax

text \<open>
  Correctness of the placeholder search and of the patch: soundness of the scan as an invariant of
  its loop, the exact effect of a patch that reports success, and the boundary at which the scan
  loses a template line.
\<close>

section \<open>The scan\<close>

lemma text_from_sound: "text_from t win at = Some h \<Longrightarrow> \<exists>i. h = at + i \<and> i + length t \<le> length win \<and> take (length t) (drop i win) = t"
proof (induction t win at rule: text_from.induct)
  case (2 t b win at)
  show ?case
  proof (cases "length (b # win) < length t \<or> take (length t) (b # win) = t")
    case True
    with 2 show ?thesis by (intro exI [of _ 0]) (auto split: if_splits)
  next
    case False
    then have "text_from t win (Suc at) = Some h" using 2(2) by auto
    with 2(1) False obtain i where "h = Suc at + i" "i + length t \<le> length win" "take (length t) (drop i win) = t" by auto
    then show ?thesis by (intro exI [of _ "Suc i"]) auto
  qed
qed simp

lemma text_from_none: "text_from t win at = None \<Longrightarrow> i + length t \<le> length win \<Longrightarrow> t \<noteq> [] \<Longrightarrow> take (length t) (drop i win) \<noteq> t"
proof (induction t win at arbitrary: i rule: text_from.induct)
  case (2 t b win at)
  then show ?case by (cases i) (auto split: if_splits)
qed simp

lemma dev_read_sub: "i + m \<le> n \<Longrightarrow> take m (drop i (dev_read f off n)) = dev_read f (off + i) m"
  by (rule nth_equalityI) (auto simp: dev_read_def add.assoc)

text \<open>Where a target has been found, its text stands on the device.\<close>

definition hit_ok :: "(nat \<Rightarrow> byte) \<Rightarrow> fstab_patch_target \<Rightarrow> bool" where
  "hit_ok f t \<longleftrightarrow> (found t \<longrightarrow> match_offset t \<le> toffset t \<and>
     dev_read f (toffset t - match_offset t) (length (target_text t)) = bytes_of (target_text t))"

text \<open>A target keeps what it looks for and what it puts there.\<close>

definition same_target :: "fstab_patch_target \<Rightarrow> fstab_patch_target \<Rightarrow> bool" where
  "same_target t t' \<longleftrightarrow> t' = t\<lparr>toffset := toffset t', found := found t'\<rparr>"

lemma same_target_refl [simp]: "same_target t t"
  by (simp add: same_target_def)

lemma same_target_trans: "same_target a b \<Longrightarrow> same_target b c \<Longrightarrow> same_target a c"
  unfolding same_target_def
  by (metis fstab_patch_target.surjective fstab_patch_target.update_convs(7,8))

lemma same_targets_trans: "list_all2 same_target as bs \<Longrightarrow> list_all2 same_target bs cs \<Longrightarrow> list_all2 same_target as cs"
  by (rule list_all2_trans [OF same_target_trans])

lemma same_target_fields:
  assumes "same_target t t'"
  shows "patch_bytes t' = patch_bytes t" "target_text t' = target_text t" "match_offset t' = match_offset t"
    "required t' = required t" "kind t' = kind t"
  by (subst assms [unfolded same_target_def],
      simp add: patch_bytes_def target_text_def split: fstab_patch_kind.split option.split)+

lemma length_bytes_of [simp]: "length (bytes_of s) = length s"
  by (simp add: bytes_of_def)

lemma try_target_ok:
  assumes "hit_ok f t" "win = dev_read f base (length win)"
  shows "hit_ok f (try_target win base t)" "same_target t (try_target win base t)"
proof -
  have "hit_ok f (try_target win base t) \<and> same_target t (try_target win base t)"
  proof (cases "found t \<or> text_in_window win base (target_text t) = None")
    case True
    then show ?thesis using assms by (auto simp: try_target_def)
  next
    case False
    then obtain h where h: "text_in_window win base (target_text t) = Some h" by auto
    then obtain i where i: "h = base + i" "i + length (target_text t) \<le> length win"
        "take (length (target_text t)) (drop i win) = bytes_of (target_text t)"
      by (auto simp: text_in_window_def split: if_splits dest!: text_from_sound)
    have "dev_read f (base + i) (length (target_text t)) = bytes_of (target_text t)"
      using dev_read_sub [OF i(2), of f base] assms(2) i(3) by simp
    then show ?thesis
      using False h i by (auto simp: try_target_def hit_ok_def same_target_def target_text_def split: option.splits)
  qed
  then show "hit_ok f (try_target win base t)" "same_target t (try_target win base t)" by auto
qed

lemma dev_read_extend:
  "carry = dev_read f (pos - length carry) (length carry) \<Longrightarrow> length carry \<le> pos \<Longrightarrow>
   carry @ dev_read f pos n = dev_read f (pos - length carry) (length carry + n)"
  by (simp add: dev_read_append)

lemma dev_read_tail: "m \<le> n \<Longrightarrow> drop (n - m) (dev_read f off n) = dev_read f (off + (n - m)) m"
  by (rule nth_equalityI) (auto simp: dev_read_def add.assoc)

lemma scan_loop_sound:
  "scan_loop path ts carry pos w = ((ok, ts'), w') \<Longrightarrow>
   carry = dev_read (devs w path) (pos - length carry) (length carry) \<Longrightarrow> length carry \<le> pos \<Longrightarrow>
   list_all (hit_ok (devs w path)) ts \<Longrightarrow>
   same_but_outs w w' \<and> list_all (hit_ok (devs w path)) ts' \<and> list_all2 same_target ts ts' \<and> (ok \<longrightarrow> fstab_targets_ready ts')"
proof (induction path ts carry pos w arbitrary: ok ts' w' rule: scan_loop.induct)
  case (1 path ts carry pos w)
  have rfl: "list_all2 same_target ts ts" by (simp add: list_all2_conv_all_nth)
  show ?case
  proof (cases "pos \<ge> FSTAB_PATCH_MAX_SCAN")
    case True
    with 1 rfl show ?thesis by (auto simp: scan_loop.simps scan_end_def)
  next
    case False
    obtain a v where a: "ask w = (a, v)" by fastforce
    then have s: "same_but_outs w v" by (rule ask_same)
    show ?thesis
    proof (cases a)
      case (Done k)
      define n where "n = scan_read w path (length carry) pos k"
      define win where "win = carry @ dev_read (devs w path) pos n"
      define ts1 where "ts1 = map (try_target win (pos - length carry)) ts"
      have step: "scan_loop path ts carry pos w =
          (if n = 0 \<and> carry = [] then scan_end ts v
           else if fstab_targets_ready ts1 then ((True, ts1), v)
           else if n = 0 then scan_end ts1 v
           else scan_loop path ts1 (scan_carry win) (pos + n) v)"
        using False by (subst scan_loop.simps) (auto simp: a Done Let_def n_def win_def ts1_def)
      have win: "win = dev_read (devs w path) (pos - length carry) (length carry + n)"
        unfolding win_def using dev_read_extend 1(3,4) by blast
      have ts: "list_all (hit_ok (devs w path)) ts1" "list_all2 same_target ts ts1"
        using try_target_ok [of "devs w path" _ win "pos - length carry"] win 1(5)
        by (auto simp: ts1_def list_all_iff list_all2_conv_all_nth)
      show ?thesis
      proof (cases "n = 0 \<or> fstab_targets_ready ts1")
        case True
        then show ?thesis
          using 1(2,5) s ts rfl unfolding step by (auto simp: scan_end_def split: if_splits)
      next
        case go: False
        then have run: "scan_loop path ts1 (scan_carry win) (pos + n) v = ((ok, ts'), w')"
          using 1(2) unfolding step by simp
        have c: "scan_carry win = dev_read (devs v path) (pos + n - length (scan_carry win)) (length (scan_carry win))"
            "length (scan_carry win) \<le> pos + n"
          using win dev_read_tail [of 20 "length carry + n" "devs w path" "pos - length carry"] 1(4)
          by (auto simp: scan_carry_def same_fields [OF s])
        have "same_but_outs v w' \<and> list_all (hit_ok (devs w path)) ts' \<and> list_all2 same_target ts1 ts' \<and>
            (ok \<longrightarrow> fstab_targets_ready ts')"
          using "1.IH" [OF False a [symmetric] refl Done n_def _ win_def ts1_def _ _ run c] go ts
          by (auto simp: same_fields [OF s])
        then show ?thesis
          using s ts(2) same_trans same_targets_trans by blast
      qed
    qed (use 1 False a s rfl in \<open>auto simp: scan_loop.simps\<close>)
  qed
qed

section \<open>The patch\<close>

text \<open>The bytes a list of targets overwrites.\<close>

definition patched_at :: "fstab_patch_target list \<Rightarrow> nat \<Rightarrow> bool" where
  "patched_at ts i \<longleftrightarrow> (\<exists>t \<in> set ts. found t \<and> toffset t \<le> i \<and> i < toffset t + length (patch_bytes t))"

lemma apply_each_effect:
  "apply_each path ts w = (ok, w') \<Longrightarrow>
   only_dev path w w' \<and> (\<forall>i. \<not> patched_at ts i \<longrightarrow> devs w' path i = devs w path i)"
proof (induction ts arbitrary: w)
  case Nil
  then show ?case by auto
next
  case (Cons t ts)
  show ?case
  proof (cases "found t")
    case False
    with Cons show ?thesis by (auto simp: patched_at_def)
  next
    case True
    obtain v w1 where v: "ask_val w = (v, w1)" by fastforce
    define n where "n = (case v of Some k \<Rightarrow> xfer w1 path (length (patch_bytes t)) (toffset t) k | None \<Rightarrow> 0)"
    define w2 where "w2 = put_dev path (toffset t) (take n (patch_bytes t)) w1"
    have w2: "only_dev path w w2"
      using same_only_dev [OF ask_val_same [OF v]] only_devI [of w2 "outs w2" path "toffset t" "take n (patch_bytes t)" w1]
      by (auto simp: w2_def put_dev_def intro: only_dev_trans)
    have d2: "devs w2 path i = devs w path i" if "\<not> patched_at (t # ts) i" for i
      using that True same_fields(1) [OF ask_val_same [OF v]]
      by (auto simp: w2_def put_dev_def dev_write_def patched_at_def)
    have "(if n \<noteq> length (patch_bytes t) then (False, w2) else apply_each path ts w2) = (ok, w')"
      using Cons.prems True by (auto simp: v n_def w2_def Let_def split: if_splits)
    then show ?thesis
    proof (cases "n = length (patch_bytes t)")
      case True
      then have "apply_each path ts w2 = (ok, w')"
        using \<open>(if n \<noteq> length (patch_bytes t) then (False, w2) else apply_each path ts w2) = (ok, w')\<close> by simp
      from Cons.IH [OF this] w2 d2 show ?thesis
        by (auto simp: patched_at_def intro: only_dev_trans)
    qed (use w2 d2 in auto)
  qed
qed

lemma apply_targets_effect:
  assumes "apply_fstab_targets path ts w = (ok, w')"
  shows "only_dev path w w'" "\<not> patched_at ts i \<Longrightarrow> devs w' path i = devs w path i"
proof -
  obtain ok1 w1 where 1: "apply_each path ts w = (ok1, w1)" by fastforce
  have s: "same_but_outs w1 w'"
    using assms 1 by (auto simp: apply_fstab_targets_def split: if_splits prod.splits dest: ask_ok_same)
  show "only_dev path w w'"
    using apply_each_effect [OF 1] same_only_dev [OF s] by (blast intro: only_dev_trans)
  show "\<not> patched_at ts i \<Longrightarrow> devs w' path i = devs w path i"
    using apply_each_effect [OF 1] by (simp add: same_fields [OF s])
qed

lemma verify_effect:
  "verify_fstab_targets path ts w = (ok, w') \<Longrightarrow>
   same_but_outs w w' \<and> (ok \<longrightarrow> (\<forall>t \<in> set ts. found t \<longrightarrow>
     dev_read (devs w path) (toffset t) (length (patch_bytes t)) = patch_bytes t))"
proof (induction ts arbitrary: w)
  case (Cons t ts)
  show ?case
  proof (cases "found t")
    case False
    with Cons show ?thesis by auto
  next
    case True
    let ?want = "case kind t of FSTAB_PATCH_COMMENT_LINE \<Rightarrow> 1 | FSTAB_PATCH_REPLACE \<Rightarrow> FSTAB_PLACEHOLDER_LEN"
    obtain r w1 where r: "disk_pread_all path ?want (toffset t) [] w = (r, w1)" by fastforce
    note e = disk_pread_all_effect [OF r]
    have s: "same_but_outs w w1" using e by simp
    show ?thesis
    proof (cases "\<exists>buf. r = Some buf \<and> length buf = ?want \<and> buf = patch_bytes t")
      case True
      then obtain buf where b: "r = Some buf" "length buf = ?want" "buf = patch_bytes t" by blast
      then have "verify_fstab_targets path ts w1 = (ok, w')"
        using Cons.prems \<open>found t\<close> r by simp
      from Cons.IH [OF this] have ih: "same_but_outs w1 w'" "ok \<longrightarrow> (\<forall>t \<in> set ts. found t \<longrightarrow>
          dev_read (devs w path) (toffset t) (length (patch_bytes t)) = patch_bytes t)"
        by (auto simp: same_fields [OF s])
      obtain n where "n \<le> ?want" "buf = dev_read (devs w path) (toffset t) n" using e b(1) by auto
      then have "dev_read (devs w path) (toffset t) (length (patch_bytes t)) = patch_bytes t"
        using b by simp
      then show ?thesis using ih s by (auto intro: same_trans)
    next
      case no: False
      then have "ok = False \<and> w' = w1"
        using Cons.prems True r by (auto split: option.splits if_splits)
      then show ?thesis using s by simp
    qed
  qed
qed simp

lemma patch_fstab_effect:
  assumes "patch_fstab_on_block_device path efi root home swap layout False w = (ok, w')"
  shows "\<exists>ts. list_all2 same_target (fstab_targets efi root home swap layout) ts \<and>
    list_all (hit_ok (devs w path)) ts \<and> only_dev path w w' \<and>
    (\<forall>i. \<not> patched_at ts i \<longrightarrow> devs w' path i = devs w path i) \<and>
    (ok \<longrightarrow> fstab_targets_ready ts \<and>
      (\<forall>t \<in> set ts. found t \<longrightarrow> dev_read (devs w' path) (toffset t) (length (patch_bytes t)) = patch_bytes t))"
proof -
  let ?T = "fstab_targets efi root home swap layout"
  have T: "list_all2 same_target ?T ?T" "list_all (hit_ok f) ?T" for f
    by (simp_all add: list_all2_conv_all_nth fstab_targets_def hit_ok_def replace_target_def comment_target_def)
  obtain ok1 w1 where 1: "ask_ok w = (ok1, w1)" by fastforce
  have s1: "same_but_outs w w1" by (rule ask_ok_same [OF 1])
  obtain ok2 ts w2 where 2: "scan_fstab_targets path ?T w1 = ((ok2, ts), w2)" by (metis prod.collapse)
  have sc: "same_but_outs w1 w2" "list_all (hit_ok (devs w path)) ts" "list_all2 same_target ?T ts" "ok2 \<longrightarrow> fstab_targets_ready ts"
    using scan_loop_sound [OF 2 [unfolded scan_fstab_targets_def]] T by (auto simp: dev_read_def same_fields [OF s1])
  have s2: "same_but_outs w w2" using s1 sc(1) by (rule same_trans)
  show ?thesis
  proof (cases "ok1 \<and> ok2")
    case False
    then have "ok = False" "same_but_outs w w'"
      using assms 1 2 s1 s2 by (auto simp: patch_fstab_on_block_device_def split: if_splits)
    then show ?thesis
      using sc same_only_dev [of w w' path] by (intro exI [of _ ts]) (simp add: same_fields)
  next
    case True
    obtain ok3 w3 where 3: "apply_fstab_targets path ts w2 = (ok3, w3)" by fastforce
    note a = apply_targets_effect [OF 3]
    have o3: "only_dev path w w3" using same_only_dev [OF s2] a(1) by (rule only_dev_trans)
    have d3: "\<forall>i. \<not> patched_at ts i \<longrightarrow> devs w3 path i = devs w path i" using a(2) by (simp add: same_fields [OF s2])
    obtain x w4 where 4: "ask_ok w3 = (x, w4)" by fastforce
    have s4: "same_but_outs w3 w4" by (rule ask_ok_same [OF 4])
    show ?thesis
    proof (cases ok3)
      case False
      then have "ok = False" "w' = w3"
        using assms 1 2 3 True by (auto simp: patch_fstab_on_block_device_def)
      then show ?thesis using sc o3 d3 by (intro exI [of _ ts]) simp
    next
      case ok3: True
      then have v: "verify_fstab_targets path ts w4 = (ok, w')"
        using assms 1 2 3 4 True by (simp add: patch_fstab_on_block_device_def)
      note ve = verify_effect [OF v]
      have s': "same_but_outs w3 w'" using s4 ve same_trans by blast
      have "only_dev path w w'" using o3 same_only_dev [OF s'] by (rule only_dev_trans)
      then show ?thesis
        using sc True ve d3 by (intro exI [of _ ts]) (simp add: same_fields [OF s'] same_fields [OF s4])
    qed
  qed
qed

text \<open>The template lines, and which device belongs into which line.\<close>

definition fstab_lines :: "string list" where
  "fstab_lines = [FSTAB_TEMPLATE_LINE_ROOT, FSTAB_TEMPLATE_LINE_EFI, FSTAB_TEMPLATE_LINE_HOME, FSTAB_TEMPLATE_LINE_SWAP]"

definition fstab_wanted :: "string \<Rightarrow> string \<Rightarrow> string \<Rightarrow> string \<Rightarrow> layout_mode \<Rightarrow> (string \<times> string) list" where
  "fstab_wanted efi root home swap layout =
     [(FSTAB_TEMPLATE_LINE_ROOT, root), (FSTAB_TEMPLATE_LINE_EFI, efi)]
     @ (if layout = LAYOUT_ADVANCED then [(FSTAB_TEMPLATE_LINE_HOME, home), (FSTAB_TEMPLATE_LINE_SWAP, swap)] else [])"

definition stands_at :: "(nat \<Rightarrow> byte) \<Rightarrow> nat \<Rightarrow> string \<Rightarrow> bool" where
  "stands_at f a text \<longleftrightarrow> dev_read f a (length text) = bytes_of text"

lemma length_device_field [simp]: "length (format_fstab_device_field d) = 20"
  by (simp add: format_fstab_device_field_def)

lemma fstab_targets_lines:
  "t \<in> set (fstab_targets efi root home swap layout) \<Longrightarrow>
   target_text t \<in> set fstab_lines \<and> match_offset t = 0 \<and> length (patch_bytes t) \<le> 20"
  by (auto simp: fstab_targets_def replace_target_def comment_target_def target_text_def patch_bytes_def fstab_lines_def
      split: if_splits)

lemma fstab_wanted_targets:
  "(line, d) \<in> set (fstab_wanted efi root home swap layout) \<Longrightarrow>
   \<exists>ph. replace_target ph line (format_fstab_device_field d) \<in> set (fstab_targets efi root home swap layout)"
  by (auto simp: fstab_targets_def fstab_wanted_def split: if_splits)

lemma list_all2_left: "list_all2 P xs ys \<Longrightarrow> x \<in> set xs \<Longrightarrow> \<exists>y \<in> set ys. P x y"
  by (metis in_set_conv_nth list_all2_conv_all_nth)

lemma list_all2_right: "list_all2 P xs ys \<Longrightarrow> y \<in> set ys \<Longrightarrow> \<exists>x \<in> set xs. P x y"
  by (metis in_set_conv_nth list_all2_conv_all_nth)

lemma patched_in_line:
  assumes "list_all2 same_target (fstab_targets efi root home swap layout) ts" "list_all (hit_ok f) ts" "patched_at ts i"
  shows "\<exists>line \<in> set fstab_lines. \<exists>a. a \<le> i \<and> i < a + 20 \<and> stands_at f a line"
proof -
  obtain t where t: "t \<in> set ts" "found t" "toffset t \<le> i" "i < toffset t + length (patch_bytes t)"
    using assms(3) by (auto simp: patched_at_def)
  obtain t0 where t0: "t0 \<in> set (fstab_targets efi root home swap layout)" "same_target t0 t"
    using list_all2_right [OF assms(1) t(1)] by blast
  have "stands_at f (toffset t) (target_text t)"
    using assms(2) t fstab_targets_lines [OF t0(1)] same_target_fields [OF t0(2)]
    by (auto simp: list_all_iff hit_ok_def stands_at_def)
  moreover have "target_text t \<in> set fstab_lines" "length (patch_bytes t) \<le> 20"
    using fstab_targets_lines [OF t0(1)] same_target_fields [OF t0(2)] by auto
  ultimately show ?thesis using t by (intro bexI [of _ "target_text t"] exI [of _ "toffset t"]) auto
qed

lemma wanted_patched:
  assumes "list_all2 same_target (fstab_targets efi root home swap layout) ts" "list_all (hit_ok f) ts" "fstab_targets_ready ts"
    and "\<forall>t \<in> set ts. found t \<longrightarrow> dev_read g (toffset t) (length (patch_bytes t)) = patch_bytes t"
    and "(line, d) \<in> set (fstab_wanted efi root home swap layout)"
  shows "\<exists>a. stands_at f a line \<and> dev_read g a 20 = format_fstab_device_field d"
proof -
  obtain ph t where t: "t \<in> set ts" "same_target (replace_target ph line (format_fstab_device_field d)) t"
    using fstab_wanted_targets [OF assms(5)] list_all2_left [OF assms(1)] by blast
  note eqs = same_target_fields [OF t(2)]
  have fnd: "found t" using assms(3) t(1) eqs by (auto simp: fstab_targets_ready_def list_all_iff replace_target_def)
  have pb: "patch_bytes t = format_fstab_device_field d" "target_text t = line" "match_offset t = 0"
    using eqs by (simp_all add: replace_target_def patch_bytes_def target_text_def)
  have "stands_at f (toffset t) line"
    using assms(2) t(1) fnd pb by (auto simp: list_all_iff hit_ok_def stands_at_def)
  moreover have "dev_read g (toffset t) 20 = format_fstab_device_field d"
    using assms(4) t(1) fnd pb by fastforce
  ultimately show ?thesis by blast
qed

lemma patch_fstab_lines:
  assumes "patch_fstab_on_block_device path efi root home swap layout False w = (ok, w')"
  shows "only_dev path w w' \<and>
    (\<forall>i. devs w' path i = devs w path i \<or>
       (\<exists>line \<in> set fstab_lines. \<exists>a. a \<le> i \<and> i < a + 20 \<and> stands_at (devs w path) a line)) \<and>
    (ok \<longrightarrow> (\<forall>(line, d) \<in> set (fstab_wanted efi root home swap layout).
       \<exists>a. stands_at (devs w path) a line \<and> dev_read (devs w' path) a 20 = format_fstab_device_field d))"
proof -
  obtain ts where ts: "list_all2 same_target (fstab_targets efi root home swap layout) ts" "list_all (hit_ok (devs w path)) ts"
    and od: "only_dev path w w'" and keep: "\<forall>i. \<not> patched_at ts i \<longrightarrow> devs w' path i = devs w path i"
    and ok: "ok \<longrightarrow> fstab_targets_ready ts \<and>
      (\<forall>t \<in> set ts. found t \<longrightarrow> dev_read (devs w' path) (toffset t) (length (patch_bytes t)) = patch_bytes t)"
    using patch_fstab_effect [OF assms] by blast
  have "devs w' path i = devs w path i \<or> (\<exists>line \<in> set fstab_lines. \<exists>a. a \<le> i \<and> i < a + 20 \<and> stands_at (devs w path) a line)" for i
    using keep patched_in_line [OF ts] by blast
  moreover have "ok \<longrightarrow> (\<forall>(line, d) \<in> set (fstab_wanted efi root home swap layout).
       \<exists>a. stands_at (devs w path) a line \<and> dev_read (devs w' path) a 20 = format_fstab_device_field d)"
    using ok wanted_patched [OF ts] by blast
  ultimately show ?thesis using od by blast
qed

text \<open>The same for \<open>rboot.conf\<close>: the field behind \<open>ROOT=\<close>.\<close>

lemma patch_rboot_effect:
  assumes "patch_rboot_root_on_efi path root False w = (ok, w')"
  shows "only_dev path w w' \<and>
    (\<forall>i. devs w' path i = devs w path i \<or> (\<exists>a. a + 5 \<le> i \<and> i < a + 25 \<and> stands_at (devs w path) a RBOOT_TEMPLATE_ROOT_KEY))"
proof -
  let ?T = "[rboot_target root]"
  have T: "list_all (hit_ok f) ?T" for f by (simp add: hit_ok_def rboot_target_def)
  obtain ok1 w1 where 1: "ask_ok w = (ok1, w1)" by fastforce
  have s1: "same_but_outs w w1" by (rule ask_ok_same [OF 1])
  obtain ok2 ts w2 where 2: "scan_fstab_targets path ?T w1 = ((ok2, ts), w2)" by (metis prod.collapse)
  have sc: "same_but_outs w1 w2" "list_all (hit_ok (devs w path)) ts" "list_all2 same_target ?T ts"
    using scan_loop_sound [OF 2 [unfolded scan_fstab_targets_def]] T by (auto simp: dev_read_def same_fields [OF s1])
  have s2: "same_but_outs w w2" using s1 sc(1) by (rule same_trans)
  obtain ok3 w3 where 3: "apply_fstab_targets path ts w2 = (ok3, w3)" by fastforce
  note a = apply_targets_effect [OF 3]
  have o3: "only_dev path w w3" using same_only_dev [OF s2] a(1) by (rule only_dev_trans)
  have hit: "\<exists>a. a + 5 \<le> i \<and> i < a + 25 \<and> stands_at (devs w path) a RBOOT_TEMPLATE_ROOT_KEY" if p: "patched_at ts i" for i
  proof -
    obtain t where ts: "ts = [t]" "same_target (rboot_target root) t" using sc(3) by (auto simp: list_all2_Cons1)
    note eqs = same_target_fields [OF ts(2)]
    have t: "found t" "toffset t \<le> i" "i < toffset t + 20" "match_offset t = 5" "target_text t = RBOOT_TEMPLATE_ROOT_KEY"
      using p ts(1) eqs by (auto simp: patched_at_def rboot_target_def patch_bytes_def target_text_def)
    then show ?thesis
      using sc(2) ts(1) by (intro exI [of _ "toffset t - 5"]) (auto simp: hit_ok_def stands_at_def)
  qed
  have "w' = w1 \<or> w' = w2 \<or> w' = w3"
    using assms 1 2 3 by (auto simp: patch_rboot_root_on_efi_def split: if_splits)
  then show ?thesis
    using same_only_dev [OF s1] same_only_dev [OF s2] same_fields(1) [OF s1] same_fields(1) [OF s2] o3 a(2) hit by metis
qed

section \<open>Lines across a chunk boundary\<close>

lemma text_from_None:
  assumes "\<And>i. i + length t \<le> length win \<Longrightarrow> take (length t) (drop i win) \<noteq> t"
  shows "text_from t win at = None"
  using text_from_sound [of t win at] assms by (cases "text_from t win at") auto

lemma text_from_dev_None:
  assumes "\<And>j. off \<le> j \<Longrightarrow> j + length t \<le> off + n \<Longrightarrow> dev_read f j (length t) \<noteq> t"
  shows "text_from t (dev_read f off n) at = None"
proof (rule text_from_None)
  fix i assume "i + length t \<le> length (dev_read f off n)"
  then show "take (length t) (drop i (dev_read f off n)) \<noteq> t"
    using dev_read_sub [of i "length t" n f off] assms [of "off + i"] by simp
qed

text \<open>A partition of 128 KiB of zeros with the root line of the template at offset 65506: it begins
  30 bytes before the end of the first 64 KiB.\<close>

definition root_line :: "byte list" where
  "root_line = bytes_of FSTAB_TEMPLATE_LINE_ROOT"

definition straddling :: "nat \<Rightarrow> byte" where
  "straddling = dev_write (\<lambda>_. 0) 65506 root_line"

lemma root_line_length: "length root_line = 71"
  by (simp add: root_line_def FSTAB_TEMPLATE_LINE_ROOT_def bytes_of_def)

lemma root_line_start: "root_line ! 0 = 95" "root_line ! 1 = 95" "root_line ! 2 = 69"
  by (simp_all add: root_line_def FSTAB_TEMPLATE_LINE_ROOT_def bytes_of_def ord_def)

text \<open>The three bytes that open the line do not occur again in its tail.\<close>

lemma root_line_tail: "list_all (\<lambda>d. \<not> (root_line ! d = 95 \<and> (root_line @ [0, 0]) ! (d + 1) = 95 \<and> (root_line @ [0, 0]) ! (d + 2) = 69)) [10..<71]"
  by (simp add: root_line_def FSTAB_TEMPLATE_LINE_ROOT_def bytes_of_def ord_def upt_rec)

lemma straddling_no_match:
  assumes "j + 71 \<le> 65536 \<or> 65516 \<le> j"
  shows "dev_read straddling j (length root_line) \<noteq> root_line"
proof
  assume e: "dev_read straddling j (length root_line) = root_line"
  have at: "straddling (j + k) = root_line ! k" if "k < 71" for k
    using arg_cong [OF e, of "\<lambda>l. l ! k"] that by (simp add: dev_read_def root_line_length)
  have s: "straddling j = 95" "straddling (j + 1) = 95" "straddling (j + 2) = 69"
    using at [of 0] at [of 1] at [of 2] root_line_start by simp_all
  show False
  proof (cases "65506 \<le> j \<and> j < 65577")
    case False
    then show False using s(1) by (auto simp: straddling_def dev_write_def root_line_length)
  next
    case True
    define d where "d = j - 65506"
    have d: "j = 65506 + d" "10 \<le> d" "d < 71" using True assms by (auto simp: d_def)
    have f: "straddling (65506 + i) = (root_line @ [0, 0]) ! i" if "i < 73" for i
      using that by (auto simp: straddling_def dev_write_def root_line_length nth_append nth_Cons')
    have "root_line ! d = 95" "(root_line @ [0, 0]) ! (d + 1) = 95" "(root_line @ [0, 0]) ! (d + 2) = 69"
      using s f [of d] f [of "d + 1"] f [of "d + 2"] d
      by (simp_all add: nth_append root_line_length add.assoc)
    moreover have "d \<in> set [10..<71]" unfolding set_upt using d by simp
    ultimately show False using root_line_tail unfolding list_all_iff by blast
  qed
qed

lemma dev_read_0: "dev_read f off 0 = []"
  by (simp add: dev_read_def)

lemma dev_read_eq_Nil: "dev_read f off n = [] \<longleftrightarrow> n = 0"
  by (metis length_0_conv length_dev_read)

lemma straddling_line_missed:
  fixes field :: "byte list"
  assumes w: "devs w path = straddling" "dsize w path = 131072" "outs w = [Done 65536, Done 65536, Done 65536]"
  defines "t \<equiv> replace_target FSTAB_PLACEHOLDER_ROOT FSTAB_TEMPLATE_LINE_ROOT field"
  shows "dev_read (devs w path) 65506 71 = root_line" "fst (fst (scan_fstab_targets path [t] w)) = False"
proof -
  show "dev_read (devs w path) 65506 71 = root_line"
    by (simp add: w straddling_def dev_read_write_same root_line_length)
  have miss: "try_target (dev_read straddling off n) off t = t" if "n \<le> 65536 \<and> off = 0 \<or> 65516 \<le> off" for off n
  proof -
    have "text_from root_line (dev_read straddling off n) off = None"
      by (rule text_from_dev_None) (use straddling_no_match that root_line_length in auto)
    then show ?thesis
      by (simp add: try_target_def text_in_window_def t_def target_text_def replace_target_def root_line_def)
  qed
  have nr: "\<not> fstab_targets_ready [t]"
    by (simp add: fstab_targets_ready_def t_def replace_target_def)
  let ?w1 = "w\<lparr>outs := [Done 65536, Done 65536]\<rparr>" and ?w2 = "w\<lparr>outs := [Done 65536]\<rparr>" and ?w3 = "w\<lparr>outs := []\<rparr>"
  have a: "ask w = (Done 65536, ?w1)" "ask ?w1 = (Done 65536, ?w2)" "ask ?w2 = (Done 65536, ?w3)"
    by (simp_all add: ask_def w)
  have r: "scan_read w path 0 0 65536 = 65536" "scan_read ?w1 path 20 65536 65536 = 65536"
      "scan_read ?w2 path 20 131072 65536 = 0"
    by (simp_all add: scan_read_def xfer_def w)
  have c: "scan_carry (dev_read straddling 0 65536) = dev_read straddling 65516 20"
      "scan_carry (dev_read straddling 65516 65556) = dev_read straddling 131052 20"
    using dev_read_tail [of 20 65536 straddling 0] dev_read_tail [of 20 65556 straddling 65516]
    by (simp_all add: scan_carry_def)
  have win: "dev_read straddling 65516 20 @ dev_read straddling 65536 65536 = dev_read straddling 65516 65556"
    using dev_read_append [of straddling 65516 20 65536] by simp
  have 3: "scan_loop path [t] (dev_read straddling 131052 20) 131072 ?w2 = scan_end [t] ?w3"
    using miss [of 20 131052] nr
    by (subst scan_loop.simps) (simp add: a r w Let_def dev_read_eq_Nil dev_read_0)
  have 2: "scan_loop path [t] (dev_read straddling 65516 20) 65536 ?w1 = scan_end [t] ?w3"
    using miss [of 65556 65516] nr 3 c(2) win by (subst scan_loop.simps) (simp add: a r w Let_def dev_read_eq_Nil)
  have "scan_loop path [t] [] 0 w = scan_end [t] ?w3"
    using miss [of 65536 0] nr 2 c(1) by (subst scan_loop.simps) (simp add: a r w Let_def)
  then show "fst (fst (scan_fstab_targets path [t] w)) = False"
    using nr by (simp add: scan_fstab_targets_def scan_end_def)
qed

end
