(* ===== verification/INST_Image_Correct.thy ===== *)
theory INST_Image_Correct
  imports INST_Image INST_Fstab_Correct
begin

text \<open>
  Correctness of the image writer and of the checksum test: a successful write leaves the whole
  decompressed image at the start of the device and changes nothing else, also after failed
  attempts; a file passes \<open>verify_sha256_file\<close> only if it has no checksum file or its SHA-256, as defined by FIPS 180-4,
  is the one recorded there.
\<close>

section \<open>Checksums\<close>

lemma concat_chunks_of: "0 < n \<Longrightarrow> concat (chunks_of n xs) = xs"
  by (induction n xs rule: chunks_of.induct) (subst chunks_of.simps, simp)

lemma sha256_file_path_Some:
  assumes "sha256_file_path path w = (Some h, w')"
  shows "\<exists>bs. fs w path = Some bs \<and> h = sha256_hex_digest (sha256_fips bs) \<and> same_but_outs w w'"
proof -
  obtain ok1 w1 where 1: "ask_ok w = (ok1, w1)" by fastforce
  obtain bs where bs: "fs w1 path = Some bs"
    using assms 1 by (auto simp: sha256_file_path_def split: if_splits option.splits)
  obtain ok2 w2 where 2: "ask_ok w1 = (ok2, w2)" by fastforce
  have "h = sha256_hex_digest (sha256_final (foldl sha256_update sha256_init (chunks_of 4096 bs)))" "w' = w2"
    using assms 1 2 bs by (auto simp: sha256_file_path_def Let_def split: if_splits)
  moreover have "sha256_final (foldl sha256_update sha256_init (chunks_of 4096 bs)) = sha256_fips bs"
    using sha256_final_fips [OF absorbed_feed [of "chunks_of 4096 bs"]] by (simp add: concat_chunks_of)
  ultimately show ?thesis
    using bs ask_ok_same [OF 1] ask_ok_same [OF 2] by (auto simp: same_fields intro: same_trans)
qed

lemma sha256_file_path_same: "sha256_file_path path w = (h, w') \<Longrightarrow> same_but_outs w w'"
  by (auto simp: sha256_file_path_def Let_def split: prod.splits if_splits option.splits dest!: ask_ok_same
      intro: same_trans)

text \<open>What passing the test means.\<close>

definition image_trusted :: "string \<Rightarrow> inst \<Rightarrow> bool" where
  "image_trusted img w \<longleftrightarrow>
     (let sha = take 255 (img @ ''.sha256'') in
      \<not> struct_file_exists sha w \<or>
      (\<exists>bs sum expected rest. fs w img = Some bs \<and> fs w sha = Some sum \<and> scan_s 64 (text_of sum) = Some (expected, rest) \<and>
         strcasecmp_eq expected (sha256_hex_digest (sha256_fips bs))))"

lemma verify_sha256_file_same: "verify_sha256_file img w = (ok, w') \<Longrightarrow> same_but_outs w w'"
  by (auto simp: verify_sha256_file_def Let_def split: prod.splits if_splits option.splits
      dest!: ask_ok_same sha256_file_path_same intro: same_trans)

lemma verify_sha256_file_trusted:
  assumes "verify_sha256_file img w = (True, w')"
  shows "image_trusted img w"
proof (cases "struct_file_exists (take 255 (img @ ''.sha256'')) w")
  case True
  let ?sha = "take 255 (img @ ''.sha256'')"
  obtain ok1 w1 where 1: "ask_ok w = (ok1, w1)" by fastforce
  have s: "same_but_outs w w1" by (rule ask_ok_same [OF 1])
  from assms 1 True obtain expected rest where
    e: "scan_s 64 (case fs w1 ?sha of Some bs \<Rightarrow> text_of bs | None \<Rightarrow> []) = Some (expected, rest)"
    by (auto simp: verify_sha256_file_def Let_def split: if_splits option.splits)
  then obtain sm where sm: "fs w1 ?sha = Some sm"
    by (cases "fs w1 ?sha") (auto simp: scan_s_def skip_ws_def)
  obtain h w2 where 2: "sha256_file_path img w1 = (h, w2)" by fastforce
  from assms 1 True e 2 obtain a where a: "h = Some a" "strcasecmp_eq expected a"
    by (auto simp: verify_sha256_file_def Let_def split: if_splits option.splits)
  from sha256_file_path_Some [OF 2 [unfolded a(1)]] obtain bs where
    "fs w1 img = Some bs" "a = sha256_hex_digest (sha256_fips bs)" by blast
  with e sm a s show ?thesis by (auto simp: image_trusted_def Let_def same_fields)
qed (simp add: image_trusted_def)

section \<open>Writing an image\<close>

lemma gzopen_same: "gzopen gz path w = (s, w') \<Longrightarrow> same_but_outs w w'"
  by (auto simp: gzopen_def split: prod.splits dest: ask_ok_same)

lemma gzread_len: "gzread s pos n = Some bs \<Longrightarrow> bs = take n (drop pos (fst s))"
  by (auto simp: gzread_def split: if_splits)

text \<open>The device after the bytes before \<open>pos\<close> have been written, and the rest up to \<open>n\<close>.\<close>

lemma gz_to_dev_effect:
  "gz_to_dev s path off pos w = (ok, w') \<Longrightarrow> pos \<le> length (fst s) \<Longrightarrow> w = (put_dev path off (take pos (fst s)) v)\<lparr>outs := r\<rparr> \<Longrightarrow>
   \<exists>n r'. pos \<le> n \<and> n \<le> length (fst s) \<and> (ok \<longrightarrow> n = length (fst s) \<and> snd s) \<and>
     w' = (put_dev path off (take n (fst s)) v)\<lparr>outs := r'\<rparr>"
proof (induction s path off pos w arbitrary: r rule: gz_to_dev.induct)
  case (1 s path off pos w)
  show ?case
  proof (cases "gzread s pos 4096")
    case None
    with 1 show ?thesis by (auto simp: gz_to_dev.simps)
  next
    case (Some bs)
    then have bs: "bs = take 4096 (drop pos (fst s))" by (rule gzread_len)
    show ?thesis
    proof (cases "bs = []")
      case True
      then have "pos = length (fst s)" using bs 1(3) by simp
      moreover have "snd s" using Some bs True by (auto simp: gzread_def split: if_splits)
      ultimately show ?thesis using 1(2,4) Some True by (auto simp: gz_to_dev.simps)
    next
      case False
      obtain ok1 w1 where p: "disk_pwrite_all path bs (off + pos) w = (ok1, w1)" by fastforce
      from disk_pwrite_all_effect [OF p] obtain m where
        m: "m \<le> length bs" "ok1 \<longrightarrow> m = length bs" "w1 = (put_dev path (off + pos) (take m bs) w)\<lparr>outs := outs w1\<rparr>" by blast
      have "put_dev path (off + pos) (take m bs) (put_dev path off (take pos (fst s)) v) =
          put_dev path off (take (pos + m) (fst s)) v"
        using put_dev_append [of path off "take pos (fst s)" "take m bs" v] 1(3) m(1)
        by (simp add: bs take_add)
      then have "w1 = (put_dev path off (take (pos + m) (fst s)) v)\<lparr>outs := r\<rparr>\<lparr>outs := outs w1\<rparr>"
        using m(3) unfolding 1(4) put_dev_outs by simp
      then have w1: "w1 = (put_dev path off (take (pos + m) (fst s)) v)\<lparr>outs := outs w1\<rparr>" by simp
      have le: "pos + m \<le> length (fst s)" using m(1) bs 1(3) by auto
      show ?thesis
      proof (cases ok1)
        case True
        then have "gz_to_dev s path off (pos + length bs) w1 = (ok, w')"
          using 1(2) Some False p by (subst (asm) gz_to_dev.simps) simp
        moreover have w1': "w1 = (put_dev path off (take (pos + length bs) (fst s)) v)\<lparr>outs := outs w1\<rparr>"
          "pos + length bs \<le> length (fst s)" using w1 le m(2) True by simp_all
        ultimately obtain n r' where "pos + length bs \<le> n" "n \<le> length (fst s)" "ok \<longrightarrow> n = length (fst s) \<and> snd s"
          "w' = (put_dev path off (take n (fst s)) v)\<lparr>outs := r'\<rparr>"
          using "1.IH" [OF Some False p [symmetric] refl _ _ w1'(2) w1'(1)] True by blast
        then show ?thesis by (intro exI [of _ n] exI [of _ r']) simp
      next
        case f: False
        then have "ok = False" "w' = w1"
          using 1(2) Some False p by (auto simp: gz_to_dev.simps)
        with w1 le show ?thesis by (intro exI [of _ "pos + m"]) auto
      qed
    qed
  qed
qed

lemma write_gz_effect:
  assumes "write_gz_image_to_disk gz img path 0 False w = (ok, w')" "fs w img = Some bs"
  shows "\<exists>n. (ok \<longrightarrow> n = length (fst (gz bs)) \<and> snd (gz bs)) \<and> w' = (put_dev path 0 (take n (fst (gz bs))) w)\<lparr>outs := outs w'\<rparr>"
proof -
  obtain s w1 where 1: "gzopen gz img w = (s, w1)" by fastforce
  have s1: "same_but_outs w w1" by (rule gzopen_same [OF 1])
  have sb: "s = None \<or> s = Some (gz bs)"
    using 1 assms(2) ask_ok_same by (fastforce simp: gzopen_def same_fields split: prod.splits if_splits)
  obtain ok2 w2 where 2: "ask_ok w1 = (ok2, w2)" by fastforce
  have s2: "same_but_outs w w2" using s1 ask_ok_same [OF 2] by (rule same_trans)
  have none: "same_but_outs w x \<Longrightarrow> x = (put_dev path 0 (take 0 (fst (gz bs))) w)\<lparr>outs := outs x\<rparr>" for x
    by (simp add: same_but_outs_def)
  show ?thesis
  proof (cases "s = None \<or> \<not> ok2")
    case True
    then have "ok = False" "w' = w1 \<or> w' = w2"
      using assms(1) 1 2 sb by (auto simp: write_gz_image_to_disk_def)
    then show ?thesis using none s1 s2 by (intro exI [of _ 0]) auto
  next
    case False
    then have s: "s = Some (gz bs)" using sb by blast
    obtain ok3 w3 where 3: "gz_to_dev (gz bs) path 0 0 w2 = (ok3, w3)" by fastforce
    have "w2 = (put_dev path 0 (take 0 (fst (gz bs))) w)\<lparr>outs := outs w2\<rparr>" by (rule none [OF s2])
    from gz_to_dev_effect [OF 3 _ this] obtain n r where
      n: "ok3 \<longrightarrow> n = length (fst (gz bs)) \<and> snd (gz bs)" "w3 = (put_dev path 0 (take n (fst (gz bs))) w)\<lparr>outs := r\<rparr>" by auto
    obtain x w4 where 4: "ask_ok w3 = (x, w4)" by fastforce
    obtain y w5 where 5: "ask_ok w4 = (y, w5)" by fastforce
    have "same_but_outs w3 w'" "ok \<longrightarrow> ok3"
      using assms(1) 1 2 3 4 5 s False ask_ok_same [OF 4] ask_ok_same [OF 5]
      by (auto simp: write_gz_image_to_disk_def split: if_splits intro: same_trans)
    then have "w' = (put_dev path 0 (take n (fst (gz bs))) w)\<lparr>outs := outs w'\<rparr>"
      using n(2) by (simp add: same_but_outs_def)
    then show ?thesis using n(1) \<open>ok \<longrightarrow> ok3\<close> by blast
  qed
qed

text \<open>Repeated attempts overwrite each other's bytes with the same ones.\<close>

lemma put_dev_over:
  "put_dev path off (take m bs) (put_dev path off (take n bs) w) = put_dev path off (take (max m n) bs) w"
  by (auto simp: put_dev_def dev_write_def fun_eq_iff intro!: inst.equality)

lemma write_attempts_effect:
  "write_attempts gz k img path False w = (ok, w') \<Longrightarrow> fs w img = Some bs \<Longrightarrow>
   \<exists>n. (ok \<longrightarrow> n \<ge> length (fst (gz bs)) \<and> snd (gz bs)) \<and> w' = (put_dev path 0 (take n (fst (gz bs))) w)\<lparr>outs := outs w'\<rparr>"
proof (induction k arbitrary: w)
  case 0
  then show ?case by (intro exI [of _ 0]) simp
next
  case (Suc k)
  obtain ok1 w1 where 1: "write_gz_image_to_disk gz img path 0 False w = (ok1, w1)" by fastforce
  from write_gz_effect [OF 1 Suc.prems(2)] obtain m where
    m: "ok1 \<longrightarrow> m = length (fst (gz bs)) \<and> snd (gz bs)" "w1 = (put_dev path 0 (take m (fst (gz bs))) w)\<lparr>outs := outs w1\<rparr>" by blast
  show ?case
  proof (cases ok1)
    case True
    with 1 Suc.prems(1) m show ?thesis by (intro exI [of _ m]) simp
  next
    case False
    with 1 Suc.prems(1) have "write_attempts gz k img path False w1 = (ok, w')" by simp
    moreover have "fs w1 img = Some bs" by (subst m(2)) (simp add: put_dev_def Suc.prems(2))
    ultimately obtain n where n: "ok \<longrightarrow> n \<ge> length (fst (gz bs)) \<and> snd (gz bs)"
      "w' = (put_dev path 0 (take n (fst (gz bs))) w1)\<lparr>outs := outs w'\<rparr>" using Suc.IH by blast
    have "w' = (put_dev path 0 (take (max n m) (fst (gz bs))) w)\<lparr>outs := outs w'\<rparr>"
      by (subst n(2), subst m(2)) (simp add: put_dev_outs put_dev_over)
    with n(1) show ?thesis by (intro exI [of _ "max n m"]) auto
  qed
qed

lemma write_attempts_no_file:
  "write_attempts gz k img path False w = (ok, w') \<Longrightarrow> fs w img = None \<Longrightarrow> \<not> ok"
proof (induction k arbitrary: w)
  case (Suc k)
  obtain s w1 where 1: "gzopen gz img w = (s, w1)" by fastforce
  then have "s = None" "fs w1 img = None"
    using Suc.prems(2) ask_ok_same by (fastforce simp: gzopen_def same_fields split: prod.splits if_splits)+
  with 1 Suc show ?case by (simp add: write_gz_image_to_disk_def)
qed simp

lemma read_gz_prefix_same: "read_gz_prefix gz path n w = (r, w') \<Longrightarrow> same_but_outs w w'"
  by (auto simp: read_gz_prefix_def split: prod.splits option.splits if_splits dest!: gzopen_same ask_ok_same
      intro: same_trans)

lemma disk_pread_all_same: "disk_pread_all path left off acc w = (r, w') \<Longrightarrow> same_but_outs w w'"
  using disk_pread_all_effect by blast

lemma verify_partition_write_same: "verify_partition_write gz path p dry w = (ok, w') \<Longrightarrow> same_but_outs w w'"
  by (auto simp: verify_partition_write_def split: prod.splits option.splits if_splits
      dest!: read_gz_prefix_same ask_ok_same disk_pread_all_same intro: same_trans)

text \<open>What a successful write of an image leaves.\<close>

lemma image_effect:
  assumes "write_partition_image_with_retry gz dev p False w = (True, w')" "image_path p = Some img"
  shows "\<exists>bs. fs w img = Some bs \<and> snd (gz bs) \<and> only_dev dev w w' \<and> devs w' dev = dev_write (devs w dev) 0 (fst (gz bs))"
proof -
  have r: "write_attempts gz 3 img dev False w = (True, w')"
    using assms by (simp add: write_partition_image_with_retry_def)
  obtain bs where bs: "fs w img = Some bs" using write_attempts_no_file [OF r] by (cases "fs w img") auto
  obtain n where n: "length (fst (gz bs)) \<le> n" "snd (gz bs)" "w' = (put_dev dev 0 (take n (fst (gz bs))) w)\<lparr>outs := outs w'\<rparr>"
    using write_attempts_effect [OF r bs] by blast
  have "devs w' dev = dev_write (devs w dev) 0 (fst (gz bs))" using n(1) by (subst n(3)) (simp add: put_dev_def)
  then show ?thesis using bs n(2) only_devI [OF n(3)] by blast
qed

end
