(* ===== verification/INST_Main_Correct.thy ===== *)
theory INST_Main_Correct
  imports INST_Main INST_Image_Correct
begin

text \<open>
  What \<open>main\<close> of \<^verbatim>\<open>src/tools/install-eclipse/install-eclipse.c\<close> does to the system before it has
  permission, and in a dry run: nothing. Everything up to the confirmation only reads; in a dry run
  every step after it does too. The relation \<open>untouched\<close> says so: devices, files, directories,
  mounts and the list of executed commands are the same, only input has been consumed.
\<close>

section \<open>Frames\<close>

text \<open>A relation between the state before and after a step that can be chained. A loop over a list whose
  steps respect it respects it.\<close>

locale frame =
  fixes R :: "inst \<Rightarrow> inst \<Rightarrow> bool"
  assumes stay: "R w w"
    and chain: "R a b \<Longrightarrow> R b c \<Longrightarrow> R a c"
begin

lemma foldl_frame:
  assumes "\<And>st x. R (snd st) (snd (f st x))"
  shows "R (snd st) (snd (foldl f st xs))"
proof (induction xs arbitrary: st)
  case (Cons x xs)
  show ?case using chain [OF assms Cons.IH [of "f st x"]] by simp
qed (simp add: stay)

end

definition untouched :: "inst \<Rightarrow> inst \<Rightarrow> bool" where
  "untouched w w' \<longleftrightarrow> w' = w\<lparr>keys := keys w', outs := outs w'\<rparr>"

lemma untouched_refl [simp, intro]: "untouched w w"
  by (simp add: untouched_def)

lemma untouched_keys [simp, intro]: "untouched w (w\<lparr>keys := k\<rparr>)"
  by (simp add: untouched_def)

lemma untouched_fields:
  assumes "untouched w w'"
  shows "devs w' = devs w" "dsize w' = dsize w" "fs w' = fs w" "isdir w' = isdir w" "path_env w' = path_env w" "cmds w' = cmds w"
    "mounts w' = mounts w"
  by (subst assms [unfolded untouched_def], simp)+

lemma untouched_trans: "untouched a b \<Longrightarrow> untouched b c \<Longrightarrow> untouched a c"
  by (auto simp: untouched_def intro!: inst.equality) (metis untouched_def untouched_fields)+

lemma same_untouched: "same_but_outs w w' \<Longrightarrow> untouched w w'"
  by (auto simp: untouched_def same_fields intro!: inst.equality)

interpretation same: frame same_but_outs
  by unfold_locales (auto intro: same_trans)

interpretation quiet: frame untouched
  by unfold_locales (auto intro: untouched_trans)

lemma untouched_exists: "untouched w w' \<Longrightarrow> struct_file_exists p w' = struct_file_exists p w"
  by (simp add: struct_file_exists_def untouched_fields)

lemma untouched_trusted: "untouched w w' \<Longrightarrow> image_trusted p w' = image_trusted p w"
  by (simp add: image_trusted_def Let_def untouched_exists untouched_fields)

section \<open>Reading\<close>

lemma is_removable_disk_same: "is_removable_disk path w = (r, w') \<Longrightarrow> same_but_outs w w'"
  by (auto simp: is_removable_disk_def split: prod.splits if_splits option.splits dest: ask_ok_same)

lemma sys_pread_same: "sys_pread path n off w = (r, w') \<Longrightarrow> same_but_outs w w'"
  by (auto simp: sys_pread_def split: prod.splits dest: ask_val_same)

lemma detect_existing_install_same: "detect_existing_install path w = (r, w') \<Longrightarrow> same_but_outs w w'"
  by (auto simp: detect_existing_install_def Let_def split: prod.splits if_splits option.splits
      dest!: ask_ok_same sys_pread_same intro: same_trans)

lemma discover_partitions_same: "discover_partitions path w = (r, w') \<Longrightarrow> same_but_outs w w'"
  by (auto simp: discover_partitions_def Let_def split: prod.splits if_splits option.splits
      dest!: ask_ok_same sys_pread_same intro: same_trans)

lemma add_disk_same: "same_but_outs (snd st) (snd (add_disk_if_present path st))"
  by (auto simp: add_disk_if_present_def Let_def split: prod.splits
      dest!: ask_ok_same get_disk_size_bytes_same is_removable_disk_same intro: same_trans)

lemma sysfs_entry_same: "same_but_outs (snd st) (snd (sysfs_entry st name))"
  using add_disk_same
  by (fastforce simp: sysfs_entry_def Let_def split: prod.splits dest!: ask_ok_same intro: same_trans)

lemma add_disks_same: "same_but_outs (snd st) (snd (foldl (\<lambda>st x. add_disk_if_present (f x) st) st xs))"
  by (rule same.foldl_frame) (rule add_disk_same)

lemma scan_disks_sysfs_same: "same_but_outs w (snd (scan_disks_sysfs ents ([], w)))"
  using same.foldl_frame [of sysfs_entry "([], w)", OF sysfs_entry_same]
  by (auto simp: scan_disks_sysfs_def split: option.splits)

lemma scan_disks_same: "scan_disks ents w = (ds, w') \<Longrightarrow> same_but_outs w w'"
proof -
  have "same_but_outs w (snd (scan_disks ents w))"
    unfolding scan_disks_def Let_def
    by (rule same_trans [OF same_trans [OF same_trans [OF scan_disks_sysfs_same]]], (rule add_disks_same)+)
  then show "scan_disks ents w = (ds, w') \<Longrightarrow> same_but_outs w w'" by simp
qed

lemma safe_flush_input_quiet: "safe_flush_input n w = (r, w') \<Longrightarrow> untouched w w'"
  by (auto simp: safe_flush_input_def Let_def split: prod.splits if_splits)

lemma ask_yes_no_quiet: "ask_yes_no d a w = (r, w') \<Longrightarrow> untouched w w'"
  by (auto simp: ask_yes_no_def split: prod.splits if_splits option.splits dest: safe_flush_input_quiet)

lemma check_images_same: "check_images mode w = (ok, w') \<Longrightarrow> same_but_outs w w'"
  by (auto simp: check_images_def Let_def split: prod.splits if_splits dest!: verify_sha256_file_same intro: same_trans)

text \<open>The answers at the prompts change the configuration, never whether it is a dry run or confirmed
  beforehand.\<close>

definition same_flags :: "config \<Rightarrow> config \<Rightarrow> bool" where
  "same_flags c d \<longleftrightarrow> c_dry_run d = c_dry_run c \<and> c_auto_yes d = c_auto_yes c"

lemma prompt_disk_selection_quiet:
  "prompt_disk_selection cfg ds w = (r, w') \<Longrightarrow> untouched w w' \<and> (\<forall>c. r = Some c \<longrightarrow> same_flags cfg c)"
  by (auto simp: prompt_disk_selection_def Let_def same_flags_def split: prod.splits if_splits option.splits
      dest: safe_flush_input_quiet)

lemma prompt_install_mode_quiet: "prompt_install_mode cfg i w = (c, w') \<Longrightarrow> untouched w w' \<and> same_flags cfg c"
  by (auto simp: prompt_install_mode_def Let_def same_flags_def split: prod.splits if_splits option.splits
      dest: safe_flush_input_quiet)

lemma prompt_layout_quiet: "prompt_layout cfg w = (c, w') \<Longrightarrow> untouched w w' \<and> same_flags cfg c"
  by (auto simp: prompt_layout_def Let_def same_flags_def split: prod.splits if_splits option.splits
      dest: safe_flush_input_quiet)

lemma prompt_table_quiet: "prompt_table cfg e w = (c, w') \<Longrightarrow> untouched w w' \<and> same_flags cfg c"
  by (auto simp: prompt_table_def Let_def same_flags_def split: prod.splits if_splits option.splits
      dest: safe_flush_input_quiet)

section \<open>A dry run\<close>

lemma write_attempts_dry [simp]: "write_attempts gz (Suc n) img path True w = (True, w)"
  by (simp add: write_gz_image_to_disk_def)

lemma put_image_dry [simp]: "put_image gz dev p True w = (True, w)"
  by (simp add: put_image_def write_partition_image_with_retry_def verify_partition_write_def numeral_3_eq_3 del: write_attempts.simps)

lemma write_table_dry: "c_dry_run cfg \<Longrightarrow> write_table sh stk cfg parts w = (Inr (), w)"
  by (simp add: write_table_def write_gpt_partition_table_def write_mbr_partition_table_def)

lemma run_command_dry [simp]: "run_command_logged sh cmd True w = (True, w)"
  by (simp add: run_command_logged_def)

lemma shell_dry [simp]:
  "shell_mkdir_p sh path True w = (True, w)" "shell_mount a b True w = (True, w)" "shell_umount b True w = (True, w)"
  "decompress_gz_to_path gz a b True w = (True, w)" "copy_upgrade_payload_if_exists a b True w = (True, w)"
  "patch_rboot_root_on_efi a b True w = (True, w)"
  by (simp_all add: shell_mkdir_p_def shell_mount_def shell_umount_def decompress_gz_to_path_def
      copy_upgrade_payload_if_exists_def shell_copy_file_def patch_rboot_root_on_efi_def)

lemma write_fstab_to_root_dry: "snd (write_fstab_to_root gz sh path n layout True w) = w"
  by (simp add: write_fstab_to_root_def format_home_def write_gz_image_to_disk_def put_fstab_def
      patch_fstab_on_block_device_def Let_def split: option.splits)

lemma verify_efi_fits_same: "verify_efi_image_fits_partition p w = (ok, w') \<Longrightarrow> same_but_outs w w'"
  by (auto simp: verify_efi_image_fits_partition_def gzip_uncompressed_size_def Let_def
      split: prod.splits if_splits option.splits dest!: ask_ok_same intro: same_trans)

lemma ask_ok_snd: "same_but_outs w (snd (ask_ok w))"
  by (rule ask_ok_same) (rule prod.collapse [symmetric])

lemma rescan_same: "same_but_outs w (trigger_partition_rescan path w)"
  by (auto simp: trigger_partition_rescan_def split: prod.splits dest!: ask_ok_same intro: same_trans [OF _ ask_ok_snd])

lemma install_new_dry:
  assumes "c_dry_run cfg" "install_new gz sh stk cfg parts w = (ok, w')"
  shows "same_but_outs w w'"
proof -
  obtain ok1 w1 where 1: "verify_efi_image_fits_partition (parts ! 0) (trigger_partition_rescan (c_disk_path cfg) w) = (ok1, w1)"
    by fastforce
  have "w' = w1 \<or> w' = trigger_partition_rescan (c_disk_path cfg) w"
    using assms 1 write_fstab_to_root_dry [of gz sh "c_disk_path cfg" "length parts" "c_layout cfg" w1]
    by (auto simp: install_new_def write_table_dry resize_root_to_partition_def Let_def
        split: prod.splits option.splits if_splits)
  then show ?thesis using rescan_same same_trans [OF rescan_same verify_efi_fits_same [OF 1]] by auto
qed

lemma find_mount_device_same: "find_mount_device mp w = (r, w') \<Longrightarrow> same_but_outs w w'"
  by (auto simp: find_mount_device_def split: prod.splits dest: ask_ok_same)

lemma upgrade_efi_dry: "upgrade_efi sh src efi True w = (ok, w') \<Longrightarrow> same_but_outs w w'"
  by (auto simp: upgrade_efi_def copy_payload_def split: prod.splits option.splits dest: find_mount_device_same)

lemma upgrade_cleanup_dry [simp]: "upgrade_cleanup rc s r efi root True img w = (rc, w)"
  by (simp add: upgrade_cleanup_def)

lemma run_upgrade_dry: "run_upgrade gz sh path True w = (ok, w') \<Longrightarrow> same_but_outs w w'"
  by (auto simp: run_upgrade_def upgrade_from_image_def Let_def split: prod.splits option.splits if_splits
      dest!: upgrade_efi_dry discover_partitions_same intro: same_trans)

section \<open>Permission\<close>

lemma check_images_trusted:
  assumes "check_images mode w = (True, w')"
  shows "image_trusted (EFI_IMAGE_GZ (\<lambda>p. struct_file_exists p w)) w"
    "mode = MODE_NEW \<Longrightarrow> image_trusted (ROOTFS_IMAGE_GZ (\<lambda>p. struct_file_exists p w)) w"
proof -
  let ?e = "EFI_IMAGE_GZ (\<lambda>p. struct_file_exists p w)" and ?r = "ROOTFS_IMAGE_GZ (\<lambda>p. struct_file_exists p w)"
  obtain ok w1 where 1: "verify_sha256_file ?e w = (ok, w1)" by fastforce
  then have ok: "ok" "mode = MODE_NEW \<Longrightarrow> verify_sha256_file ?r w1 = (True, w')"
    using assms by (auto simp: check_images_def Let_def split: if_splits)
  then show "image_trusted ?e w" using 1 verify_sha256_file_trusted by simp
  assume "mode = MODE_NEW"
  from verify_sha256_file_trusted [OF ok(2) [OF this]] untouched_trusted [OF same_untouched [OF verify_sha256_file_same [OF 1]]]
  show "image_trusted ?r w" by simp
qed

text \<open>The confirmation: given on the command line, or by a line that starts with one of four letters.\<close>

definition approved :: "bool \<Rightarrow> inst \<Rightarrow> inst \<Rightarrow> bool" where
  "approved auto u v \<longleftrightarrow> (auto \<and> v = u) \<or>
     (\<exists>input. safe_flush_input 32 u = (Some input, v) \<and> input \<noteq> [] \<and> hd input \<in> set ''yYsS'')"

text \<open>The work after the confirmation.\<close>

definition work ::
  "gunzip \<Rightarrow> (string \<Rightarrow> inst \<Rightarrow> inst) \<Rightarrow> u16 list \<Rightarrow> config \<Rightarrow> partition_plan list \<Rightarrow> inst \<Rightarrow> bool \<times> inst" where
  "work gz sh stk c parts v =
     (if c_mode c = MODE_NEW then install_new gz sh stk c parts v else run_upgrade gz sh (c_disk_path c) (c_dry_run c) v)"

lemma approved_quiet: "approved a u v \<Longrightarrow> untouched u v"
  by (auto simp: approved_def dest: safe_flush_input_quiet)

lemma ask_yes_no_approved: "ask_yes_no False False u = (True, v) \<Longrightarrow> approved False u v"
  by (auto simp: ask_yes_no_def approved_def split: prod.splits option.splits if_splits)

lemma work_dry: "c_dry_run c \<Longrightarrow> work gz sh stk c parts v = (ok, w') \<Longrightarrow> untouched v w'"
  by (auto simp: work_def split: if_splits dest!: install_new_dry run_upgrade_dry intro: same_untouched)

lemma confirm_and_run_eq:
  "confirm_and_run gz sh stk c parts w =
     (let (yes, v) = (if c_auto_yes c then (True, w) else ask_yes_no False False w) in
      if \<not> yes then (2, v) else let (ok, w') = work gz sh stk c parts v in (if ok then 0 else 1, w'))"
  unfolding confirm_and_run_def work_def by (rule refl)

lemma confirm_and_run_cases:
  assumes "confirm_and_run gz sh stk c parts w = (code, w')"
  shows "(code = 2 \<and> untouched w w') \<or>
    (\<exists>v ok. approved (c_auto_yes c) w v \<and> work gz sh stk c parts v = (ok, w') \<and> code = (if ok then 0 else 1))"
proof -
  obtain yes v where y: "(if c_auto_yes c then (True, w) else ask_yes_no False False w) = (yes, v)" by fastforce
  obtain ok u where u: "work gz sh stk c parts v = (ok, u)" by fastforce
  have r: "(code, w') = (if \<not> yes then (2, v) else (if ok then 0 else 1, u))"
    using assms unfolding confirm_and_run_eq y by (cases yes) (simp_all add: u)
  show ?thesis
  proof (cases yes)
    case True
    then have "approved (c_auto_yes c) w v"
      using y ask_yes_no_approved [of w v] by (cases "c_auto_yes c") (simp_all add: approved_def)
    moreover have "w' = u" "code = (if ok then 0 else 1)" using r True by simp_all
    ultimately show ?thesis using u by blast
  next
    case False
    moreover have "untouched w v" using y ask_yes_no_quiet [of False False w yes v] by (auto split: if_splits)
    ultimately show ?thesis using r by simp
  qed
qed

text \<open>A run that got as far as the work: what has been established by then, with nothing touched.\<close>

definition go_ahead ::
  "gunzip \<Rightarrow> (string \<Rightarrow> inst \<Rightarrow> inst) \<Rightarrow> u16 list \<Rightarrow> config \<Rightarrow> config \<Rightarrow> u64 \<Rightarrow> inst \<Rightarrow> nat \<Rightarrow> inst \<Rightarrow> bool" where
  "go_ahead gz sh stk cfg c disk_bytes w code w' \<longleftrightarrow>
     (\<exists>parts u v ok. same_flags cfg c \<and> untouched w u \<and> approved (c_auto_yes cfg) u v \<and>
        image_trusted (EFI_IMAGE_GZ (\<lambda>p. struct_file_exists p w)) w \<and>
        (c_mode c = MODE_NEW \<longrightarrow> image_trusted (ROOTFS_IMAGE_GZ (\<lambda>p. struct_file_exists p w)) w \<and>
           (\<exists>s. build_partition_plan (\<lambda>p. struct_file_exists p w) (c_layout c) (c_table c) (disk_bytes div SECTOR_SIZE) = Inr (parts, s))) \<and>
        work gz sh stk c parts v = (ok, w') \<and> code = (if ok then 0 else 1))"

lemma go_ahead_from:
  assumes "same_flags cfg d" "untouched w v" "go_ahead gz sh stk d c n v code w'"
  shows "go_ahead gz sh stk cfg c n w code w'"
proof -
  have eqs: "(\<lambda>p. struct_file_exists p v) = (\<lambda>p. struct_file_exists p w)" "image_trusted p v = image_trusted p w" for p
    using untouched_exists [OF assms(2)] untouched_trusted [OF assms(2)] by auto
  have fl: "same_flags d c \<longleftrightarrow> same_flags cfg c" "c_auto_yes d = c_auto_yes cfg"
    using assms(1) by (auto simp: same_flags_def)
  show ?thesis
    using assms(3) untouched_trans [OF assms(2)] unfolding go_ahead_def eqs fl by blast
qed

lemma plan_and_confirm_cases:
  assumes "check_images (c_mode c) w = (True, w1)"
    and "(if c_mode c = MODE_NEW
          then (case build_partition_plan (\<lambda>p. struct_file_exists p w1) (c_layout c) (c_table c) (n div SECTOR_SIZE) of
                  Inl _ \<Rightarrow> (1, w1)
                | Inr (parts, _) \<Rightarrow> confirm_and_run gz sh stk c parts w1)
          else confirm_and_run gz sh stk c [] w1) = (code, w')"
  shows "(code \<noteq> 0 \<and> untouched w w') \<or> go_ahead gz sh stk c c n w code w'"
proof -
  have q: "untouched w w1" by (rule same_untouched [OF check_images_same [OF assms(1)]])
  note t = check_images_trusted [OF assms(1)]
  have ex: "(\<lambda>p. struct_file_exists p w1) = (\<lambda>p. struct_file_exists p w)" using untouched_exists [OF q] by simp
  have go: "(code \<noteq> 0 \<and> untouched w w') \<or> go_ahead gz sh stk c c n w code w'"
    if r: "confirm_and_run gz sh stk c parts w1 = (code, w')"
      and p: "c_mode c = MODE_NEW \<Longrightarrow> \<exists>s. build_partition_plan (\<lambda>p. struct_file_exists p w) (c_layout c) (c_table c) (n div SECTOR_SIZE) = Inr (parts, s)"
    for parts
    using confirm_and_run_cases [OF r]
  proof
    assume "code = 2 \<and> untouched w1 w'"
    then show ?thesis using untouched_trans [OF q] by simp
  next
    assume "\<exists>v ok. approved (c_auto_yes c) w1 v \<and> work gz sh stk c parts v = (ok, w') \<and> code = (if ok then 0 else 1)"
    then show ?thesis using q t p unfolding go_ahead_def same_flags_def by blast
  qed
  show ?thesis
  proof (cases "c_mode c = MODE_NEW")
    case True
    show ?thesis
    proof (cases "build_partition_plan (\<lambda>p. struct_file_exists p w) (c_layout c) (c_table c) (n div SECTOR_SIZE)")
      case (Inl e)
      then show ?thesis using assms(2) True q unfolding ex by simp
    next
      case (Inr r)
      then show ?thesis using assms(2) True go [of "fst r"] unfolding ex by (cases r) simp
    qed
  next
    case False
    then show ?thesis using assms(2) go [of "[]"] by simp
  qed
qed

text \<open>The questions between the choice of the disk and the checks.\<close>

lemma mode_prompts_quiet:
  assumes "(if c_mode c = MODE_NEW then let (c, w) = prompt_layout c w in prompt_table c (struct_file_exists e w) w else (c, w)) = (d, w')"
  shows "untouched w w' \<and> same_flags c d \<and> c_disk_path d = c_disk_path c"
proof -
  obtain c1 w1 where 1: "prompt_layout c w = (c1, w1)" by fastforce
  have d: "c_disk_path c1 = c_disk_path c"
    using 1 by (auto simp: prompt_layout_def Let_def split: prod.splits if_splits option.splits)
  have t: "c_disk_path d' = c_disk_path c1" if "prompt_table c1 b w1 = (d', w'')" for b d' w''
    using that by (auto simp: prompt_table_def Let_def split: prod.splits if_splits option.splits)
  show ?thesis
    using assms 1 prompt_layout_quiet [OF 1] d t
    by (auto simp: same_flags_def split: if_splits dest!: prompt_table_quiet intro: untouched_trans)
qed

lemma prompt_install_mode_disk: "prompt_install_mode cfg i w = (c, w') \<Longrightarrow> c_disk_path c = c_disk_path cfg"
  by (auto simp: prompt_install_mode_def Let_def split: prod.splits if_splits option.splits)

lemma choose_and_run_cases:
  assumes "choose_and_run gz sh stk cfg n w = (code, w')"
  shows "(code \<noteq> 0 \<and> untouched w w') \<or> (\<exists>c. c_disk_path c = c_disk_path cfg \<and> go_ahead gz sh stk cfg c n w code w')"
proof -
  obtain e w1 where 1: "detect_existing_install (c_disk_path cfg) w = (e, w1)" by fastforce
  have q1: "untouched w w1" by (rule same_untouched [OF detect_existing_install_same [OF 1]])
  show ?thesis
  proof (cases e)
    case None
    then show ?thesis using assms 1 q1 by (simp add: choose_and_run_def)
  next
    case (Some i)
    obtain c2 w2 where 2: "prompt_install_mode cfg i w1 = (c2, w2)" by fastforce
    obtain c3 w3 where 3: "(if c_mode c2 = MODE_NEW
        then let (c, w) = prompt_layout c2 w2 in prompt_table c (struct_file_exists ''/sys/firmware/efi'' w) w
        else (c2, w2)) = (c3, w3)" by fastforce
    obtain rm w4 where 4: "is_removable_disk (c_disk_path c3) w3 = (rm, w4)" by fastforce
    obtain go w5 where 5: "(if rm \<and> \<not> c_auto_yes c3 then ask_yes_no False False w4 else (True, w4)) = (go, w5)" by fastforce
    obtain ok w6 where 6: "check_images (c_mode c3) w5 = (ok, w6)" by fastforce
    have q3: "untouched w w3"
      using q1 prompt_install_mode_quiet [OF 2] mode_prompts_quiet [OF 3] by (meson untouched_trans)
    have "untouched w4 w5" using 5 ask_yes_no_quiet [of False False w4 go w5] by (auto split: if_splits)
    then have q5: "untouched w w5"
      using q3 same_untouched [OF is_removable_disk_same [OF 4]] by (meson untouched_trans)
    have fl: "same_flags cfg c3" "c_disk_path c3 = c_disk_path cfg"
      using prompt_install_mode_quiet [OF 2] mode_prompts_quiet [OF 3] prompt_install_mode_disk [OF 2]
      by (auto simp: same_flags_def)
    have q6: "untouched w w6" using q5 same_untouched [OF check_images_same [OF 6]] by (rule untouched_trans)
    have r: "(if \<not> go then (2, w5) else if \<not> ok then (1, w6) else if c_mode c3 = MODE_NEW
          then (case build_partition_plan (\<lambda>p. struct_file_exists p w6) (c_layout c3) (c_table c3) (n div SECTOR_SIZE) of
                  Inl _ \<Rightarrow> (1, w6)
                | Inr (parts, _) \<Rightarrow> confirm_and_run gz sh stk c3 parts w6)
          else confirm_and_run gz sh stk c3 [] w6) = (code, w')"
      using assms unfolding choose_and_run_def 1 Some Let_def prod.case option.case 2 3 [unfolded Let_def] 4 5 6 .
    show ?thesis
    proof (cases "go \<and> ok")
      case True
      from plan_and_confirm_cases [of c3 w5 w6, where n = n and gz = gz and sh = sh and stk = stk and code = code and w' = w'] r True 6
      have "(code \<noteq> 0 \<and> untouched w5 w') \<or> go_ahead gz sh stk c3 c3 n w5 code w'" by simp
      then show ?thesis using untouched_trans [OF q5] go_ahead_from [OF fl(1) q5] fl(2) by blast
    next
      case False
      then show ?thesis using r q5 q6 by (auto split: if_splits)
    qed
  qed
qed

lemma inst_main_cases:
  assumes "inst_main gz sh stk ents args w = (code, w')"
  shows "(code \<noteq> 0 \<and> untouched w w') \<or>
    (\<exists>cfg c u n. parse_args args = Inr cfg \<and> untouched w u \<and> n = fst (get_disk_size_bytes (c_disk_path c) u) \<and> n \<noteq> 0 \<and>
       go_ahead gz sh stk cfg c n w code w')"
proof (cases "parse_args args")
  case (Inl e)
  then show ?thesis using assms by (simp add: inst_main_def)
next
  case (Inr cfg)
  obtain ds w1 where 1: "scan_disks ents w = (ds, w1)" by fastforce
  obtain r w2 where 2: "prompt_disk_selection cfg (map di_path ds) w1 = (r, w2)" by fastforce
  have q1: "untouched w w1" by (rule same_untouched [OF scan_disks_same [OF 1]])
  have q2: "untouched w w2" using q1 prompt_disk_selection_quiet [OF 2] by (meson untouched_trans)
  show ?thesis
  proof (cases "(ds = [] \<and> \<not> c_disk_set cfg) \<or> r = None")
    case True
    then show ?thesis using assms Inr 1 2 q1 q2 by (auto simp: inst_main_def split: if_splits)
  next
    case False
    then obtain c where c: "r = Some c" by blast
    then have fl: "same_flags cfg c" using prompt_disk_selection_quiet [OF 2] by blast
    obtain n w3 where 3: "get_disk_size_bytes (c_disk_path c) w2 = (n, w3)" by fastforce
    have q3: "untouched w w3" using q2 same_untouched [OF get_disk_size_bytes_same [OF 3]] by (rule untouched_trans)
    have r: "(if n = 0 then (1, w3) else choose_and_run gz sh stk c n w3) = (code, w')"
      using assms Inr 1 2 3 c False by (auto simp: inst_main_def)
    show ?thesis
    proof (cases "n = 0")
      case True
      then show ?thesis using r q3 by auto
    next
      case nz: False
      then have "choose_and_run gz sh stk c n w3 = (code, w')" using r by simp
      from choose_and_run_cases [OF this] show ?thesis
      proof
        assume "code \<noteq> 0 \<and> untouched w3 w'"
        then show ?thesis using untouched_trans [OF q3] by blast
      next
        assume "\<exists>d. c_disk_path d = c_disk_path c \<and> go_ahead gz sh stk c d n w3 code w'"
        then obtain d where "c_disk_path d = c_disk_path c" "go_ahead gz sh stk cfg d n w code w'"
          using go_ahead_from [OF fl q3] by blast
        then show ?thesis
          using Inr nz q2 3 by (intro disjI2 exI [of _ cfg] exI [of _ d] exI [of _ w2] exI [of _ n]) simp
      qed
    qed
  qed
qed

end
