(* ===== verification/INST_Main_Properties.thy ===== *)
theory INST_Main_Properties
  imports INST_Properties INST_Main_Correct
begin

text \<open>
  The properties of the image writer, of the fstab patch and of \<open>main\<close> of
  \<^verbatim>\<open>src/tools/install-eclipse/install-eclipse.c\<close>, each with the natural-language statement it formalises.
\<close>

section \<open>Examples\<close>

definition ex_image :: inst where
  "ex_image = ex_inst\<lparr>fs := [''/boot/efi.img.gz'' \<mapsto> [1, 2, 3, 4]],
     outs := [Done 0, Done 0, Done 2, Failed, Done 0, Done 0, Interrupted, Done 3, Done 1, Done 0, Done 0]\<rparr>"

definition ex_efi :: partition_plan where
  "ex_efi = plan_EFI (\<lambda>p. p = ''/boot/efi.img.gz'')"









text \<open>A rehearsal of a new installation on a blank disk of 4 GiB, confirmed by typing a letter.\<close>

definition ex_args :: "string list" where
  "ex_args = [''--disk'', ''/dev/sda'', ''--mode'', ''new'', ''--simple'', ''--gpt'', ''--dry-run'']"

definition ex_cfg :: config where
  "ex_cfg = empty_config\<lparr>c_disk_path := ''/dev/sda'', c_disk_set := True, c_mode := MODE_NEW, c_mode_set := True,
     c_dry_run := True, c_layout := LAYOUT_SIMPLE, c_layout_set := True, c_table := TABLE_GPT, c_table_set := True\<rparr>"

definition ex_files :: inst where
  "ex_files = ex_inst\<lparr>fs := [''/boot/efi.img.gz'' \<mapsto> [], ''/boot/rootfs.btrfs.gz'' \<mapsto> []], keys := [CHR ''s'', NL]\<rparr>"

definition ex_start :: inst where
  "ex_start = ex_files\<lparr>outs := replicate 142 Failed @ [Failed, Done 0, Done 4294967296, Done 0, Done 512, Done 512]\<rparr>"

lemma ex_parse: "parse_args ex_args = Inr ex_cfg"
  by (simp add: parse_args_def ex_args_def ex_cfg_def empty_config_def)

lemma no_disks_step:
  "outs w = replicate (length xs) Failed @ r \<Longrightarrow>
   foldl (\<lambda>st x. add_disk_if_present (f x) st) ([], w) xs = ([], w\<lparr>outs := r\<rparr>)"
proof (induction xs arbitrary: w)
  case (Cons x xs)
  have "add_disk_if_present (f x) ([], w) = ([], w\<lparr>outs := replicate (length xs) Failed @ r\<rparr>)"
    using Cons.prems by (simp add: add_disk_if_present_def ask_ok_def ask_def)
  then show ?case using Cons.IH [of "w\<lparr>outs := replicate (length xs) Failed @ r\<rparr>"] by simp
qed simp

lemma scan_lengths: "length letters = 26" "length nvme_names = 90"
  by (simp_all add: letters_def nvme_names_def length_concat upt_rec)

lemma no_disks:
  assumes "outs w = replicate 142 Failed @ r"
  shows "scan_disks None w = ([], w\<lparr>outs := r\<rparr>)"
proof -
  have o: "outs w = replicate 26 Failed @ replicate 90 Failed @ replicate 26 Failed @ r"
    using assms by (simp flip: append_assoc replicate_add)
  show ?thesis
    using no_disks_step [of w letters "replicate 90 Failed @ replicate 26 Failed @ r" "\<lambda>c. ''/dev/sd'' @ [c]"]
      no_disks_step [of "w\<lparr>outs := replicate 90 Failed @ replicate 26 Failed @ r\<rparr>" nvme_names "replicate 26 Failed @ r" "\<lambda>p. p"]
      no_disks_step [of "w\<lparr>outs := replicate 26 Failed @ r\<rparr>" letters r "\<lambda>c. ''/dev/vd'' @ [c]"] o
    by (simp add: scan_disks_def scan_disks_sysfs_def scan_lengths)
qed

lemma ex_disk: "get_disk_size_bytes ''/dev/sda'' (ex_files\<lparr>outs := [Failed, Done 0, Done 4294967296, Done 0, Done 512, Done 512]\<rparr>) =
    (4294967296, ex_files\<lparr>outs := [Done 0, Done 512, Done 512]\<rparr>)"
  by (simp add: get_disk_size_bytes_def get_disk_size_raw_sysfs_def read_u64_from_file_def ask_ok_def ask_val_def ask_def
      reconcile_size_def ex_files_def)

lemma ex_detect: "\<exists>i. detect_existing_install ''/dev/sda'' (ex_files\<lparr>outs := [Done 0, Done 512, Done 512]\<rparr>) =
    (Some i, ex_files\<lparr>outs := []\<rparr>)"
  by (simp add: detect_existing_install_def sys_pread_def ask_ok_def ask_val_def ask_def xfer_def ex_files_def ex_inst_def Let_def)

lemma ex_images: "check_images MODE_NEW (ex_files\<lparr>outs := []\<rparr>) = (True, ex_files\<lparr>outs := []\<rparr>)"
  by (simp add: check_images_def resolve_image_path_def verify_sha256_file_def struct_file_exists_def ex_files_def ex_inst_def)

lemma ex_plan_files: "\<exists>ps. build_partition_plan (\<lambda>p. struct_file_exists p (ex_files\<lparr>outs := []\<rparr>)) LAYOUT_SIMPLE TABLE_GPT (4294967296 div 512) =
    Inr (ps, layout_label LAYOUT_SIMPLE)"
  by (simp add: build_partition_plan_def last_partitionable_lba_def sectors_from_start_def plan_next_start)

lemma ex_devs: "partition_dev_path ''/dev/sda'' 1 160 = Some ''/dev/sda1''" "partition_dev_path ''/dev/sda'' 2 160 = Some ''/dev/sda2''"
  by code_simp+

lemma ex_cfg_fields:
  "c_disk_path ex_cfg = ''/dev/sda''" "c_disk_set ex_cfg" "c_mode ex_cfg = MODE_NEW" "c_mode_set ex_cfg" "\<not> c_auto_yes ex_cfg" "c_dry_run ex_cfg"
  "c_layout ex_cfg = LAYOUT_SIMPLE" "c_layout_set ex_cfg" "c_table ex_cfg = TABLE_GPT" "c_table_set ex_cfg"
  by (simp_all add: ex_cfg_def empty_config_def)

lemma ex_fits: "verify_efi_image_fits_partition p (w\<lparr>outs := []\<rparr>) = (True, w\<lparr>outs := []\<rparr>)"
  by (simp add: verify_efi_image_fits_partition_def gzip_uncompressed_size_def ask_ok_def ask_def split: option.split)

lemma ex_rescan: "trigger_partition_rescan path (w\<lparr>outs := []\<rparr>) = w\<lparr>outs := []\<rparr>"
  by (simp add: trigger_partition_rescan_def ask_ok_def ask_def)

lemma ex_fstab: "write_fstab_to_root gz sh ''/dev/sda'' n LAYOUT_SIMPLE True w = (True, w)"
  by (simp add: write_fstab_to_root_def ex_devs put_fstab_def patch_fstab_on_block_device_def)

lemma ex_install: "fst (install_new gz sh stk ex_cfg ps (w\<lparr>outs := []\<rparr>))"
  by (simp add: install_new_def write_table_dry ex_cfg_fields ex_rescan ex_devs ex_fits ex_fstab resize_root_to_partition_def Let_def)

lemma ex_confirm: "fst (confirm_and_run gz sh stk ex_cfg ps (ex_files\<lparr>outs := []\<rparr>)) = 0"
proof -
  have y: "ask_yes_no False False (ex_files\<lparr>outs := []\<rparr>) = (True, ex_files\<lparr>outs := []\<rparr>\<lparr>keys := []\<rparr>)"
    by (simp add: ask_yes_no_def safe_flush_input_def read_keys.simps ex_files_def trim_leading_ws_def cstr_of_def)
  have w: "ex_files\<lparr>outs := []\<rparr>\<lparr>keys := []\<rparr> = ex_files\<lparr>keys := []\<rparr>\<lparr>outs := []\<rparr>" by simp
  show ?thesis
    using ex_install [of gz sh stk ps "ex_files\<lparr>keys := []\<rparr>"]
    by (auto simp: confirm_and_run_def y ex_cfg_fields w split: prod.splits)
qed

lemma ex_main: "fst (inst_main gz sh stk None ex_args ex_start) = 0"
proof -
  have scan: "scan_disks None ex_start = ([], ex_files\<lparr>outs := [Failed, Done 0, Done 4294967296, Done 0, Done 512, Done 512]\<rparr>)"
    using no_disks [of ex_start "[Failed, Done 0, Done 4294967296, Done 0, Done 512, Done 512]"] by (simp add: ex_start_def)
  obtain i where i: "detect_existing_install ''/dev/sda'' (ex_files\<lparr>outs := [Done 0, Done 512, Done 512]\<rparr>) = (Some i, ex_files\<lparr>outs := []\<rparr>)"
    using ex_detect by blast
  obtain ps where ps: "build_partition_plan (\<lambda>p. struct_file_exists p (ex_files\<lparr>outs := []\<rparr>)) LAYOUT_SIMPLE TABLE_GPT (4294967296 div 512) =
    Inr (ps, layout_label LAYOUT_SIMPLE)" using ex_plan_files by blast
  have rm: "is_removable_disk ''/dev/sda'' (ex_files\<lparr>outs := []\<rparr>) = (False, ex_files\<lparr>outs := []\<rparr>)"
    by (simp add: is_removable_disk_def ask_ok_def ask_def)
  have "choose_and_run gz sh stk ex_cfg 4294967296 (ex_files\<lparr>outs := [Done 0, Done 512, Done 512]\<rparr>) =
      confirm_and_run gz sh stk ex_cfg ps (ex_files\<lparr>outs := []\<rparr>)"
    unfolding choose_and_run_def ex_cfg_fields i prompt_install_mode_def prompt_layout_def prompt_table_def Let_def
    by (simp only: prod.case option.case if_True ex_cfg_fields simp_thms rm if_False ex_images ps sum.case)
  then show ?thesis
    using ex_confirm by (simp add: inst_main_def ex_parse scan ex_cfg_fields prompt_disk_selection_def ex_disk)
qed

section \<open>Properties\<close>

text \<open>C32: when \<open>write_partition_image_with_retry\<close> reports success, the image file exists and decompresses without
  error, the partition holds the whole decompressed image from its first byte on, and nothing else in the system
  has changed, even if earlier attempts failed half-way.\<close>

theorem image_written:
  assumes "write_partition_image_with_retry gz dev p False w = (True, w')" "image_path p = Some img"
  shows "\<exists>bs data. fs w img = Some bs \<and> gz bs = (data, True) \<and>
    dev_read (devs w' dev) 0 (length data) = data \<and> (\<forall>i. i < length data \<or> devs w' dev i = devs w dev i) \<and>
    w' = w\<lparr>devs := (devs w)(dev := devs w' dev), outs := outs w'\<rparr>"
proof -
  obtain bs where bs: "fs w img = Some bs" "snd (gz bs)" "only_dev dev w w'" and d: "devs w' dev = dev_write (devs w dev) 0 (fst (gz bs))"
    using image_effect [OF assms] by blast
  have "i < length (fst (gz bs)) \<or> devs w' dev i = devs w dev i" for i
    by (auto simp: d dev_write_def)
  then show ?thesis
    using bs d unfolding only_dev_def
    by (intro exI [of _ bs] exI [of _ "fst (gz bs)"]) (auto simp: dev_read_write_same prod_eq_iff)
qed

theorem image_written_witness:
  "dev_read (devs (snd (write_partition_image_with_retry (\<lambda>bs. (bs, True)) ''/dev/sda1'' ex_efi False ex_image)) ''/dev/sda1'') 0 4 = [1, 2, 3, 4]"
proof -
  let ?f = "write_partition_image_with_retry (\<lambda>bs. (bs, True)) ''/dev/sda1'' ex_efi False ex_image"
  have i: "image_path ex_efi = Some ''/boot/efi.img.gz''" by (simp add: ex_efi_def plan_EFI_def resolve_image_path_def)
  have "fst ?f"
    by (simp add: write_partition_image_with_retry_def i write_gz_image_to_disk_def gzopen_def ask_ok_def ask_def ex_image_def
        ex_inst_def gz_to_dev.simps gzread_def disk_pwrite_all.simps pwrite_once_def xfer_def put_dev_def numeral_3_eq_3)
  then obtain w' where r: "?f = (True, w')" by (metis prod.collapse)
  have "fs ex_image ''/boot/efi.img.gz'' = Some [1, 2, 3, 4]" by (simp add: ex_image_def)
  with image_written [OF r i] r show ?thesis by (auto simp: eval_nat_numeral)
qed



text \<open>C34: with \<open>--dry-run\<close> the installer leaves the system as it was, whatever else is on the command line, whatever is
  typed and whatever the system calls return: devices, files, directories and mounts are unchanged and
  no command is run (the log file, which is not part of the model, is written all the same).\<close>

theorem dry_run_harmless:
  assumes "parse_args args = Inr cfg" "c_dry_run cfg"
  shows "untouched w (snd (inst_main gz sh stk ents args w))"
proof -
  obtain code w' where r: "inst_main gz sh stk ents args w = (code, w')" by fastforce
  from inst_main_cases [OF r] have "untouched w w'"
  proof
    assume "\<exists>cfg c u n. parse_args args = Inr cfg \<and> untouched w u \<and> n = fst (get_disk_size_bytes (c_disk_path c) u) \<and> n \<noteq> 0 \<and>
       go_ahead gz sh stk cfg c n w code w'"
    then obtain c n where "go_ahead gz sh stk cfg c n w code w'" using assms(1) by auto
    then obtain parts u v ok where g: "same_flags cfg c" "untouched w u" "approved (c_auto_yes cfg) u v"
      "work gz sh stk c parts v = (ok, w')" unfolding go_ahead_def by blast
    have "c_dry_run c" using g(1) assms(2) by (simp add: same_flags_def)
    from work_dry [OF this g(4)] approved_quiet [OF g(3)] g(2) show ?thesis by (meson untouched_trans)
  qed blast
  then show ?thesis by (simp add: r)
qed

theorem dry_run_harmless_witness:
  "fst (inst_main (\<lambda>bs. (bs, True)) (\<lambda>_ w. w) ex_stk None ex_args ex_start) = 0 \<and>
   untouched ex_start (snd (inst_main (\<lambda>bs. (bs, True)) (\<lambda>_ w. w) ex_stk None ex_args ex_start))"
  using dry_run_harmless [OF ex_parse, of ex_start] ex_main by (simp add: ex_cfg_def)



end
