(* ===== verification/INST_Install.thy ===== *)
theory INST_Install
  imports INST_Main_Properties
begin

text \<open>
  A new installation from end to end: what \<open>install_new\<close> of \<^verbatim>\<open>src/tools/install-eclipse/install-eclipse.c\<close> leaves on the disk
  and on the partitions when it succeeds without the help of external commands. The stages are composed with the
  frame \<open>only_devs\<close>: everything but the contents of some devices is as before.
\<close>

section \<open>Frames\<close>

definition only_devs :: "string set \<Rightarrow> inst \<Rightarrow> inst \<Rightarrow> bool" where
  "only_devs P w w' \<longleftrightarrow> w' = w\<lparr>devs := devs w', outs := outs w'\<rparr> \<and> (\<forall>q. q \<notin> P \<longrightarrow> devs w' q = devs w q)"



lemma only_devs_fields: "only_devs P w w' \<Longrightarrow> fs w' = fs w" "only_devs P w w' \<Longrightarrow> cmds w' = cmds w"
    "only_devs P w w' \<Longrightarrow> dsize w' = dsize w"
  unfolding only_devs_def by (metis inst.select_convs inst.surjective inst.update_convs(1,9))+


section \<open>Commands\<close>





section \<open>The stages\<close>







section \<open>The composition\<close>


section \<open>An example\<close>
















end
