(* ===== verification/ND_Dump.thy ===== *)
theory ND_Dump
  imports DHCP_Netlink
begin

unbundle bit_operations_syntax

text \<open>
  The rtnetlink viewer \<^verbatim>\<open>src/tools/nl_dump/nl_dump.c\<close>: the dump request, the walk over the answers and over the
  attributes of each message, and the lines printed. The receive buffer is an array of 8192 bytes that keeps
  what earlier datagrams left in it; a read outside it is the outcome \<open>Fault\<close>, a \<open>recv\<close> with no answer is
  \<open>Blocked\<close>, and \<open>None\<close> stands for a walk that does not end. The kernel is a parameter: what \<open>socket\<close>, \<open>bind\<close>,
  \<open>sendto\<close> and each \<open>recv\<close> return; so are the process id, the texts of \<open>strerror\<close> and the initial content of the
  stack buffer.
\<close>

section \<open>Constants of the headers and formats\<close>

abbreviation (input) RTM_NEWLINK :: u16 where "RTM_NEWLINK \<equiv> 16"
abbreviation (input) RTM_GETLINK :: u16 where "RTM_GETLINK \<equiv> 18"
abbreviation (input) RTM_GETADDR :: u16 where "RTM_GETADDR \<equiv> 22"
abbreviation (input) IFLA_ADDRESS :: u16 where "IFLA_ADDRESS \<equiv> 1"
abbreviation (input) IFLA_IFNAME :: u16 where "IFLA_IFNAME \<equiv> 3"
abbreviation (input) IFLA_MTU :: u16 where "IFLA_MTU \<equiv> 4"

definition hex_char :: "nat \<Rightarrow> char" where
  "hex_char d = ''0123456789abcdef'' ! (d mod 16)"

text \<open>The conversions \<open>%02x\<close> of a byte and \<open>%x\<close>.\<close>

definition hex02 :: "byte \<Rightarrow> string" where
  "hex02 b = [hex_char (unat b div 16), hex_char (unat b)]"

fun show_hex :: "nat \<Rightarrow> string" where
  "show_hex n = (if n < 16 then [hex_char n] else show_hex (n div 16) @ [hex_char n])"

declare show_hex.simps [simp del]

definition char_text :: "byte list \<Rightarrow> string" where
  "char_text bs = map (\<lambda>b. char_of (unat b)) bs"

section \<open>The source\<close>

datatype nd_event = Stdout string | Stderr string | Send "byte list"

datatype nd_end = Exit int | Fault | Blocked

definition hexdump :: "byte list \<Rightarrow> string" where
  "hexdump p = concat (map (\<lambda>i. (if 0 < i \<and> i mod 16 = 0 then [NL] else []) @ hex02 (p ! i) @ '' '') [0..<length p]) @ [NL]"

definition print_mac :: "byte list \<Rightarrow> string" where
  "print_mac mac = concat (map (\<lambda>i. (if 0 < i then '':'' else []) @ hex02 (mac ! i)) [0..<length mac])"

text \<open>\<open>memcpy(_, buf + pos, n)\<close> and \<open>strncpy(_, buf + pos, n)\<close> from the buffer.\<close>

definition peek :: "byte list \<Rightarrow> nat \<Rightarrow> nat \<Rightarrow> byte list option" where
  "peek buf pos n = (if length buf < pos + n then None else Some (take n (drop pos buf)))"

definition strncpy :: "byte list \<Rightarrow> nat \<Rightarrow> nat \<Rightarrow> byte list option" where
  "strncpy buf pos n =
     (let s = takeWhile (\<lambda>b. b \<noteq> 0) (take n (drop pos buf))
      in if length s < n \<and> length buf \<le> pos + length s then None else Some (s @ replicate (n - length s) 0))"

text \<open>The loop \<open>for (; RTA_OK(rta, len); rta = RTA_NEXT(rta, len))\<close> around a \<open>switch\<close>. \<open>len\<close> is an \<open>int\<close>.\<close>

function rta_walk :: "(nat \<Rightarrow> 's \<Rightarrow> 's option) \<Rightarrow> byte list \<Rightarrow> nat \<Rightarrow> int \<Rightarrow> 's \<Rightarrow> 's option" where
  "rta_walk attr buf pos len st =
     (if len < 4 then Some st
      else if length buf < pos + 4 then None
      else
        let rta_len = unat (get16 pos buf) in
        if rta_len < 4 \<or> len < int rta_len then Some st
        else
          case attr pos st of None \<Rightarrow> None
          | Some st \<Rightarrow> rta_walk attr buf (pos + align4 rta_len) (len - int (align4 rta_len)) st)"
  by pat_completeness auto
termination
proof (relation "measure (\<lambda>(attr, buf, pos, len, st). nat len)")
  fix len :: int and rta_len
  assume "\<not> len < 4" "\<not> (rta_len < 4 \<or> len < int rta_len)"
  then show "((attr, buf, pos + align4 rta_len, len - int (align4 rta_len), st'), attr, buf, pos, len, st)
      \<in> measure (\<lambda>(attr, buf, pos, len, st). nat len)" for attr :: "nat \<Rightarrow> 's \<Rightarrow> 's option" and buf pos st st'
    using align4_ge [of rta_len] by auto
qed simp

declare rta_walk.simps [simp del]

record link_attrs =
  l_ifname :: "byte list"
  l_mtu :: u32
  l_addr :: "byte list"
  l_addr_len :: nat

definition link_attr :: "byte list \<Rightarrow> nat \<Rightarrow> link_attrs \<Rightarrow> link_attrs option" where
  "link_attr buf rta st =
     (let rta_type = get16 (rta + 2) buf in
      if rta_type = IFLA_IFNAME then
        do { s \<leftarrow> strncpy buf (rta + 4) (IFNAMSIZ - 1); Some (st\<lparr>l_ifname := s @ [0]\<rparr>) }
      else if rta_type = IFLA_MTU then
        do { d \<leftarrow> peek buf (rta + 4) 4; Some (st\<lparr>l_mtu := le_load d\<rparr>) }
      else if rta_type = IFLA_ADDRESS then
        let addr_len = unat (get16 rta buf) - 4;
            addr_len = (if 32 < addr_len then 32 else addr_len)
        in do { d \<leftarrow> peek buf (rta + 4) addr_len;
                Some (st\<lparr>l_addr := d @ drop addr_len (l_addr st), l_addr_len := addr_len\<rparr>) }
      else Some st)"

definition dump_link_msg :: "byte list \<Rightarrow> nat \<Rightarrow> string option" where
  "dump_link_msg buf nlh =
     (let len = sint (get32 nlh buf - 32) in
      do { ifi \<leftarrow> peek buf (nlh + 16) 16;
           st \<leftarrow> rta_walk (link_attr buf) buf (nlh + 32) len
                  \<lparr>l_ifname = replicate IFNAMSIZ 0, l_mtu = 0, l_addr = replicate 32 0, l_addr_len = 0\<rparr>;
           Some (''RTM_NEWLINK ifindex='' @ show_int (sint (get32 4 ifi)) @ '' flags=0x'' @ show_hex (unat (get32 8 ifi))
             @ '' type='' @ show_nat (unat (get16 2 ifi)) @ '' family='' @ show_nat (unat (ifi ! 0))
             @ (if l_ifname st ! 0 \<noteq> 0 then '' ifname='' @ char_text (takeWhile (\<lambda>b. b \<noteq> 0) (l_ifname st)) else [])
             @ (if l_mtu st \<noteq> 0 then '' mtu='' @ show_nat (unat (l_mtu st)) else [])
             @ (if l_addr_len st \<noteq> 0 then '' mac='' @ print_mac (take (l_addr_len st) (l_addr st)) else [])
             @ [NL]) })"

record addr_attrs =
  a_local :: "byte list"
  a_local_len :: nat
  a_label :: "byte list"

definition addr_attr :: "byte list \<Rightarrow> nat \<Rightarrow> addr_attrs \<Rightarrow> addr_attrs option" where
  "addr_attr buf rta st =
     (let rta_type = get16 (rta + 2) buf in
      if rta_type = IFA_LOCAL then
        let local_len = unat (get16 rta buf) - 4;
            local_len = (if 16 < local_len then 16 else local_len)
        in do { d \<leftarrow> peek buf (rta + 4) local_len;
                Some (st\<lparr>a_local := d @ drop local_len (a_local st), a_local_len := local_len\<rparr>) }
      else if rta_type = IFA_LABEL then
        do { s \<leftarrow> strncpy buf (rta + 4) (IFNAMSIZ - 1); Some (st\<lparr>a_label := s @ [0]\<rparr>) }
      else Some st)"

text \<open>The address at the end of the line, from the \<open>local_len\<close> bytes stored.\<close>

definition print_local :: "byte list \<Rightarrow> string" where
  "print_local local =
     (if length local = 4 then
        '' local='' @ show_nat (unat (local ! 0)) @ ''.'' @ show_nat (unat (local ! 1)) @ ''.''
          @ show_nat (unat (local ! 2)) @ ''.'' @ show_nat (unat (local ! 3))
      else if length local \<noteq> 0 then '' local=('' @ hexdump local @ '')''
      else [])"

definition dump_addr_msg :: "byte list \<Rightarrow> nat \<Rightarrow> string option" where
  "dump_addr_msg buf nlh =
     (let len = sint (get32 nlh buf - 24) in
      do { ifa \<leftarrow> peek buf (nlh + 16) 8;
           st \<leftarrow> rta_walk (addr_attr buf) buf (nlh + 24) len
                  \<lparr>a_local = replicate 16 0, a_local_len = 0, a_label = replicate IFNAMSIZ 0\<rparr>;
           Some (''RTM_NEWADDR ifindex='' @ show_nat (unat (get32 4 ifa)) @ '' family='' @ show_nat (unat (ifa ! 0))
             @ '' prefix='' @ show_nat (unat (ifa ! 1)) @ '' scope='' @ show_nat (unat (ifa ! 3))
             @ (if a_label st ! 0 \<noteq> 0 then '' label='' @ char_text (takeWhile (\<lambda>b. b \<noteq> 0) (a_label st)) else [])
             @ print_local (take (a_local_len st) (a_local st))
             @ [NL]) })"

text \<open>\<open>nl_request_dump\<close>: the header, then the zeroed union of the two message bodies (16 bytes).\<close>

definition dump_request :: "u32 \<Rightarrow> u16 \<Rightarrow> byte list" where
  "dump_request pid msg_type = nlmsg_bytes 32 msg_type 0x301 1 pid @ replicate 16 0"

definition dump_msg :: "byte list \<Rightarrow> nat \<Rightarrow> nd_event list option" where
  "dump_msg buf nlh =
     (let nlmsg_type = get16 (nlh + 4) buf in
      if nlmsg_type = RTM_NEWLINK then map_option (\<lambda>s. [Stdout s]) (dump_link_msg buf nlh)
      else if nlmsg_type = RTM_NEWADDR then map_option (\<lambda>s. [Stdout s]) (dump_addr_msg buf nlh)
      else Some [])"

text \<open>The inner loop of \<open>nl_recv_dump\<close>. As in \<open>nl_recv_ack\<close> of the DHCP client, \<open>NLMSG_OK\<close> is given
  \<open>(unsigned int)n\<close>.\<close>

datatype nd_walk = WalkMore | WalkReturn | WalkFault

partial_function (option) dump_walk ::
    "(int \<Rightarrow> string) \<Rightarrow> byte list \<Rightarrow> u16 \<Rightarrow> nat \<Rightarrow> int \<Rightarrow> nd_event list \<Rightarrow> (nd_walk \<times> nd_event list) option" where
  "dump_walk strerror buf expected_done_seq nlh n out =
     (if of_int n < (16 :: u32) then Some (WalkMore, out)
      else if length buf < nlh + 16 then Some (WalkFault, out)
      else
        let nlmsg_len = get32 nlh buf in
        if nlmsg_len < 16 \<or> of_int n < nlmsg_len then Some (WalkMore, out)
        else
          let al = nlmsg_align nlmsg_len; nlmsg_type = get16 (nlh + 4) buf; nlmsg_seq = get32 (nlh + 8) buf in
          if nlmsg_type = NLMSG_DONE then Some (WalkReturn, out)
          else if nlmsg_type = NLMSG_ERROR then
            (if length buf < nlh + 20 then Some (WalkFault, out)
             else
               let error = get32 (nlh + 16) buf
               in Some (WalkReturn, out @ [Stderr (''NLMSG_ERROR error='' @ show_int (sint error) @ '' (''
                    @ strerror (sint (- error)) @ '')'' @ [NL])]))
          else if nlmsg_seq \<noteq> ucast expected_done_seq then
            dump_walk strerror buf expected_done_seq (nlh + unat al) (n - int (unat al))
              (out @ [Stderr (''skip msg with seq='' @ show_nat (unat nlmsg_seq) @ [NL])])
          else
            (case dump_msg buf nlh of None \<Rightarrow> Some (WalkFault, out)
             | Some evs \<Rightarrow>
                 dump_walk strerror buf expected_done_seq (nlh + unat al) (n - int (unat al)) (out @ evs)))"

declare dump_walk.simps [code]

definition die :: "(int \<Rightarrow> string) \<Rightarrow> string \<Rightarrow> int \<Rightarrow> nd_event list \<Rightarrow> nd_end \<times> nd_event list" where
  "die strerror msg errno out = (Exit 1, out @ [Stderr (msg @ '': '' @ strerror errno @ [NL])])"

text \<open>\<open>None\<close> in the first component of the result: \<open>nl_recv_dump\<close> returned.\<close>

fun nl_recv_dump :: "(int \<Rightarrow> string) \<Rightarrow> byte list \<Rightarrow> u16 \<Rightarrow> (int + byte list) list \<Rightarrow> nd_event list
    \<Rightarrow> (nd_end option \<times> nd_event list) option" where
  "nl_recv_dump strerror buf seq [] out = Some (Some Blocked, out)"
| "nl_recv_dump strerror buf seq (Inl errno # rs) out =
     (let (e, out) = die strerror ''recv(netlink)'' errno out in Some (Some e, out))"
| "nl_recv_dump strerror buf seq (Inr d # rs) out =
     (let d = take 8192 d; buf = poke buf 0 d in
      case dump_walk strerror buf seq 0 (int (length d)) out of
        None \<Rightarrow> None
      | Some (WalkMore, out) \<Rightarrow> nl_recv_dump strerror buf seq rs out
      | Some (WalkReturn, out) \<Rightarrow> Some (None, out)
      | Some (WalkFault, out) \<Rightarrow> Some (Some Fault, out))"

record nd_kernel =
  nd_socket :: "int option"
  nd_bind :: "int option"
  nd_sendto :: "int option"
  nd_recv :: "(int + byte list) list"
  nd_pid :: u32

definition argv_lines :: "string list \<Rightarrow> nd_event list" where
  "argv_lines argv = Stderr (''nl_dump argc='' @ show_nat (length argv) @ [NL])
     # map (\<lambda>i. Stderr (''  argv['' @ show_nat i @ '']='' @ argv ! i @ [NL])) [0..<length argv]"

definition nd_main :: "(int \<Rightarrow> string) \<Rightarrow> byte list \<Rightarrow> string list \<Rightarrow> nd_kernel \<Rightarrow> (nd_end \<times> nd_event list) option" where
  "nd_main strerror stack argv k =
     (let out = argv_lines argv in
      if length argv \<noteq> 2 then
        Some (Exit 2, out @ [Stderr (''usage: '' @ (if argv = [] then ''(null)'' else argv ! 0) @ '' link|addr'' @ [NL])])
      else case nd_socket k of Some e \<Rightarrow> Some (die strerror ''socket(AF_NETLINK)'' e out)
      | None \<Rightarrow>
        case nd_bind k of Some e \<Rightarrow> Some (die strerror ''bind(AF_NETLINK)'' e out)
        | None \<Rightarrow>
          let cmd = argv ! 1 in
          if cmd \<noteq> ''link'' \<and> cmd \<noteq> ''addr'' then Some (Exit 2, out @ [Stderr (''unknown cmd: '' @ cmd @ [NL])])
          else
            let t = (if cmd = ''link'' then RTM_GETLINK else RTM_GETADDR) in
            case nd_sendto k of Some e \<Rightarrow> Some (die strerror ''sendto(netlink)'' e out)
            | None \<Rightarrow>
              case nl_recv_dump strerror stack 1 (nd_recv k) (out @ [Send (dump_request (nd_pid k) t)]) of
                None \<Rightarrow> None
              | Some (Some e, out) \<Rightarrow> Some (e, out)
              | Some (None, out) \<Rightarrow> Some (Exit 0, out))"

end
