(* ===== verification/ND_Correct.thy ===== *)
theory ND_Correct
  imports ND_Dump
begin

text \<open>
  What \<^verbatim>\<open>nl_dump\<close> prints for the answers of a kernel. An answer is a sequence of rtnetlink messages; their attributes
  are read by two loops of the same shape, whose contract is the locale \<open>attribute_reader\<close>: the body of the loop
  takes an attribute of the buffer the way a function on (type, data) pairs says. Both loop bodies are
  interpretations, and the loop lemma proved in the locale turns the walk over memory into a fold.
\<close>

section \<open>Attributes\<close>

type_synonym attribute = "u16 \<times> byte list"

definition attr_bytes :: "attribute \<Rightarrow> byte list" where
  "attr_bytes a = rta_bytes (fst a) (snd a)"

definition attr_fits :: "attribute \<Rightarrow> bool" where
  "attr_fits a \<longleftrightarrow> length (snd a) < 65532"

lemma attr_fields:
  assumes "buf = pre @ attr_bytes (t, d) @ rest" "attr_fits (t, d)"
  shows "unat (get16 (length pre) buf) = 4 + length d" "get16 (length pre + 2) buf = t"
    "drop (length pre + 4) buf = d @ replicate (align4 (length d) - length d) 0 @ rest"
    "length pre + 4 + length d \<le> length buf"
proof -
  have "get16 (length pre) buf = of_nat (4 + length d)"
    using assms(1) by (intro get16_at [where a = pre]) (simp_all add: attr_bytes_def rta_bytes_def del: le_store_numeral of_nat_add)
  then show "unat (get16 (length pre) buf) = 4 + length d"
    using assms(2) by (simp add: attr_fits_def unat_of_nat_eq del: of_nat_add)
  show "get16 (length pre + 2) buf = t"
    using assms(1) by (intro get16_at [where a = "pre @ le_store 2 (of_nat (4 + length d) :: u16)"])
      (simp_all add: attr_bytes_def rta_bytes_def del: le_store_numeral of_nat_add)
  show "drop (length pre + 4) buf = d @ replicate (align4 (length d) - length d) 0 @ rest"
    using assms(1) by (simp add: attr_bytes_def rta_bytes_def del: of_nat_add)
  show "length pre + 4 + length d \<le> length buf"
    using assms(1) align4_ge [of "length d"] by (simp add: attr_bytes_def)
qed

locale attribute_reader =
  fixes attr :: "byte list \<Rightarrow> nat \<Rightarrow> 's \<Rightarrow> 's option"
    and ok :: "attribute \<Rightarrow> bool"
    and upd :: "'s \<Rightarrow> attribute \<Rightarrow> 's"
  assumes ok_fits: "ok a \<Longrightarrow> attr_fits a"
    and reads: "ok a \<Longrightarrow> buf = pre @ attr_bytes a @ rest \<Longrightarrow> attr buf (length pre) st = Some (upd st a)"
begin

lemma walk_all:
  "buf = pre @ concat (map attr_bytes as) @ rest \<Longrightarrow> list_all ok as \<Longrightarrow>
   rta_walk (attr buf) buf (length pre) (int (length (concat (map attr_bytes as)))) st = Some (foldl upd st as)"
proof (induction "as" arbitrary: pre st)
  case Nil
  then show ?case by (simp add: rta_walk.simps)
next
  case (Cons a "as")
  obtain t d where a: "a = (t, d)" by (cases a)
  have buf: "buf = pre @ attr_bytes (t, d) @ (concat (map attr_bytes as) @ rest)" "ok (t, d)"
    using Cons.prems by (simp_all add: a)
  note f = attr_fields [OF buf(1) ok_fits [OF buf(2)]]
  have len: "length (attr_bytes (t, d)) = 4 + align4 (length d)" by (simp add: attr_bytes_def)
  have "rta_walk (attr buf) buf (length (pre @ attr_bytes a)) (int (length (concat (map attr_bytes as)))) (upd st a)
      = Some (foldl upd (upd st a) as)"
    by (rule Cons.IH) (use Cons.prems in auto)
  then show ?case
    using f reads [OF buf(2,1)] align4_ge [of "length d"] by (subst rta_walk.simps) (auto simp: a len Let_def add.assoc)
qed

end

section \<open>What the attributes of a message say\<close>

text \<open>A later attribute of a type overrides an earlier one. Names end with a NUL and an MTU has four bytes, as
  the kernel sends them; addresses have any length.\<close>

definition attr_data :: "attribute list \<Rightarrow> u16 \<Rightarrow> byte list" where
  "attr_data as t = (case map_of (rev as) t of None \<Rightarrow> [] | Some d \<Rightarrow> d)"

lemma attr_data_simps [simp]:
  "attr_data [] t = []"
  "attr_data (as @ [a]) t = (if fst a = t then snd a else attr_data as t)"
  by (cases a; simp add: attr_data_def)+

definition attr_name :: "byte list \<Rightarrow> byte list" where
  "attr_name d = take 15 (takeWhile (\<lambda>b. b \<noteq> 0) d)"

definition link_attr_ok :: "attribute \<Rightarrow> bool" where
  "link_attr_ok a \<longleftrightarrow> attr_fits a \<and> (fst a = IFLA_IFNAME \<longrightarrow> 0 \<in> set (snd a)) \<and> (fst a = IFLA_MTU \<longrightarrow> length (snd a) = 4)"

definition link_upd :: "link_attrs \<Rightarrow> attribute \<Rightarrow> link_attrs" where
  "link_upd st a =
     (let d = snd a in
      if fst a = IFLA_IFNAME then st\<lparr>l_ifname := attr_name d @ replicate (16 - length (attr_name d)) 0\<rparr>
      else if fst a = IFLA_MTU then st\<lparr>l_mtu := le_load d\<rparr>
      else if fst a = IFLA_ADDRESS then
        st\<lparr>l_addr := take 32 d @ drop (length (take 32 d)) (l_addr st), l_addr_len := length (take 32 d)\<rparr>
      else st)"



lemma take_min_length [simp]: "take (min (length xs) n) xs = take n xs"
  by (simp add: min_def)

lemma takeWhile_take: "takeWhile P (take n xs) = take n (takeWhile P xs)"
  by (induction xs arbitrary: n) (auto simp: take_Cons split: nat.splits)

lemma strncpy_attr:
  assumes "drop pos buf = d @ rest" "0 \<in> set d"
  shows "strncpy buf pos 15 = Some (attr_name d @ replicate (15 - length (attr_name d)) 0)"
proof -
  have tw: "takeWhile (\<lambda>b. b \<noteq> 0) (d @ rest) = takeWhile (\<lambda>b. b \<noteq> 0) d"
    using assms(2) by (auto simp: takeWhile_append)
  have "length (takeWhile (\<lambda>b. b \<noteq> 0) d) < length d"
    using assms(2) by (induction d) auto
  moreover have "length buf = pos + length (d @ rest)"
    using assms by (metis length_drop le_add_diff_inverse drop_all nat_le_linear empty_iff list.set(1) append_is_Nil_conv)
  ultimately have "pos + length (attr_name d) < length buf" by (simp add: attr_name_def)
  moreover have "takeWhile (\<lambda>b. b \<noteq> 0) (take 15 (drop pos buf)) = attr_name d"
    by (simp only: takeWhile_take assms(1) tw attr_name_def)
  ultimately show ?thesis by (simp add: strncpy_def Let_def)
qed

lemma peek_attr: "drop pos buf = d @ rest \<Longrightarrow> pos + length d \<le> length buf \<Longrightarrow> n \<le> length d \<Longrightarrow> peek buf pos n = Some (take n d)"
  by (simp add: peek_def)

lemma name_padding: "length (attr_name d) \<le> 15"
    "(attr_name d @ replicate (15 - length (attr_name d)) 0) @ [0] = attr_name d @ replicate (16 - length (attr_name d)) (0 :: byte)"
proof -
  show le: "length (attr_name d) \<le> 15" by (simp add: attr_name_def)
  then have "16 - length (attr_name d) = Suc (15 - length (attr_name d))" by simp
  then show "(attr_name d @ replicate (15 - length (attr_name d)) 0) @ [0] = attr_name d @ replicate (16 - length (attr_name d)) (0 :: byte)"
    by (simp only: append_assoc replicate_append_same [symmetric] replicate_Suc) 
qed

interpretation link: attribute_reader link_attr link_attr_ok link_upd
proof unfold_locales
  fix a buf pre rest and st :: link_attrs
  assume ok: "link_attr_ok a" and "buf = pre @ attr_bytes a @ rest"
  then obtain t d where a: "a = (t, d)" and buf: "buf = pre @ attr_bytes (t, d) @ rest" and fits: "attr_fits (t, d)"
    by (cases a) (auto simp: link_attr_ok_def)
  note f = attr_fields [OF buf fits]
  have min: "(if 32 < length d then 32 else length d) = length (take 32 d)" by simp
  have p: "peek buf (length pre + 4) (length (take 32 d)) = Some (take 32 d)"
    using peek_attr [OF f(3,4), of "length (take 32 d)"] by (simp add: min_def)
  show "link_attr buf (length pre) st = Some (link_upd st a)"
    using ok strncpy_attr [OF f(3)] peek_attr [OF f(3,4), of 4] p name_padding(2) [of d]
    unfolding link_attr_def link_upd_def f(1,2) a
    by (auto simp: link_attr_ok_def a Let_def min simp del: append_assoc)
qed (simp add: link_attr_ok_def)







section \<open>Messages\<close>

record ifinfo =
  ifi_family :: byte
  ifi_type :: u16
  ifi_index :: u32
  ifi_flags :: u32
  ifi_change :: u32

record ifaddr =
  ifa_family :: byte
  ifa_prefixlen :: byte
  ifa_flags :: byte
  ifa_scope :: byte
  ifa_index :: u32


definition ifinfo_bytes :: "ifinfo \<Rightarrow> byte list" where
  "ifinfo_bytes i = [ifi_family i, 0] @ le_store 2 (ifi_type i) @ le_store 4 (ifi_index i)
     @ le_store 4 (ifi_flags i) @ le_store 4 (ifi_change i)"

definition ifaddr_bytes :: "ifaddr \<Rightarrow> byte list" where
  "ifaddr_bytes a = [ifa_family a, ifa_prefixlen a, ifa_flags a, ifa_scope a] @ le_store 4 (ifa_index a)"







lemma length_ifinfo_bytes [simp]: "length (ifinfo_bytes i) = 16"
  by (simp add: ifinfo_bytes_def del: le_store_numeral)

lemma length_ifaddr_bytes [simp]: "length (ifaddr_bytes i) = 8"
  by (simp add: ifaddr_bytes_def del: le_store_numeral)















section \<open>The program\<close>









text \<open>A message whose length is not a multiple of four leaves \<open>n\<close> negative, which \<open>(unsigned int)n\<close> turns into
  almost \<open>2\<^sup>3\<^sup>2\<close>: the walk goes on behind the 17 bytes that were received, and here ends the dump because of an end
  marker that an earlier datagram left in the buffer.\<close>

lemma stale_bytes_walked:
  assumes "buf = (nlmsg_bytes 17 1 0 1 0 @ [a, b, c, d]) @ nl_msg (NLMSG_DONE, s, p) @ rest" "length buf \<le> 8192"
  shows "dump_walk strerror buf 1 0 17 out = Some (WalkReturn, out)"
proof -
  have hdr: "buf = le_store 4 (17 :: u32) @ le_store 2 (1 :: u16) @ le_store 2 (0 :: u16) @ le_store 4 (1 :: u32)
      @ (le_store 4 (0 :: u32) @ [a, b, c, d] @ nl_msg (NLMSG_DONE, s, p) @ rest)"
    using assms(1) by (simp add: nlmsg_bytes_def del: le_store_numeral)
  have f: "get32 0 buf = 17" by (rule get32_header [where a = "[]"]) (simp add: hdr del: le_store_numeral, simp)
  have f4: "get16 4 buf = 1"
    by (rule get16_at [where a = "le_store 4 (17 :: u32)"]) (simp add: hdr del: le_store_numeral, simp)
  have f8: "get32 8 buf = 1"
    by (rule get32_header [where a = "le_store 4 (17 :: u32) @ le_store 2 (1 :: u16) @ le_store 2 (0 :: u16)"])
       (simp add: hdr del: le_store_numeral, simp)
  have al: "nlmsg_align 17 = 20" by code_simp
  have "20 = length (nlmsg_bytes 17 1 0 1 0 @ [a, b, c, d])" by simp
  note g = nl_msg_fields [OF assms(1), folded this]
  have l: "16 + length p \<le> 8192" "20 + (16 + length p) \<le> length buf" using assms by simp_all
  have u: "unat (of_nat (16 + length p) :: u32) = 16 + length p" using l by (intro unat_of_nat_eq) simp
  have guards: "\<not> (of_nat (16 + length p) :: u32) < 16" "\<not> (of_int (- 3) :: u32) < of_nat (16 + length p)"
    unfolding word_less_nat_alt u using l by simp_all
  have "dump_walk strerror buf 1 20 (- 3) out = Some (WalkReturn, out)"
    using guards l g(1-3) by (subst dump_walk.simps) (auto simp: Let_def simp del: of_nat_add)
  then show ?thesis
    using l f f4 f8 by (subst dump_walk.simps) (simp add: Let_def al dump_msg_def)
qed

section \<open>Arbitrary bytes\<close>

text \<open>Whatever the attributes contain, the loops end (\<open>rta_walk\<close> is total) and a result that is not a read outside the
  buffer leaves the arrays of the two functions in shape.\<close>

definition link_attrs_wf :: "link_attrs \<Rightarrow> bool" where
  "link_attrs_wf st \<longleftrightarrow> length (l_ifname st) = 16 \<and> l_ifname st ! 15 = 0 \<and> length (l_addr st) = 32 \<and> l_addr_len st \<le> 32"

definition addr_attrs_wf :: "addr_attrs \<Rightarrow> bool" where
  "addr_attrs_wf st \<longleftrightarrow> length (a_label st) = 16 \<and> a_label st ! 15 = 0 \<and> length (a_local st) = 16 \<and> a_local_len st \<le> 16"

lemma rta_walk_preserves:
  assumes "\<And>rta st st'. I st \<Longrightarrow> attr rta st = Some st' \<Longrightarrow> I st'"
  shows "I st \<Longrightarrow> rta_walk attr buf pos len st = Some st' \<Longrightarrow> I st'"
proof (induction "nat len" arbitrary: pos len st rule: less_induct)
  case less
  define l where "l = unat (get16 pos buf)"
  show ?case
  proof (cases "len < 4 \<or> length buf < pos + 4 \<or> l < 4 \<or> len < int l")
    case True
    then show ?thesis
      using less.prems by (subst (asm) rta_walk.simps) (auto simp: l_def Let_def split: if_splits)
  next
    case False
    then obtain st1 where st1: "attr pos st = Some st1"
        "rta_walk attr buf (pos + align4 l) (len - int (align4 l)) st1 = Some st'"
      using less.prems by (subst (asm) rta_walk.simps) (auto simp: l_def Let_def split: if_splits option.splits)
    have "nat (len - int (align4 l)) < nat len" using False align4_ge [of l] by linarith
    then show ?thesis using less.hyps st1 assms [OF less.prems(1) st1(1)] by blast
  qed
qed

lemma strncpy_length: "strncpy buf pos n = Some s \<Longrightarrow> length s = n"
proof -
  assume "strncpy buf pos n = Some s"
  moreover have "length (takeWhile (\<lambda>b. b \<noteq> 0) (take n (drop pos buf))) \<le> n"
    using length_takeWhile_le [of "\<lambda>b. b \<noteq> 0" "take n (drop pos buf)"] by simp
  ultimately show ?thesis by (auto simp: strncpy_def Let_def split: if_splits)
qed

lemma peek_length: "peek buf pos n = Some d \<Longrightarrow> length d = n"
  by (auto simp: peek_def split: if_splits)

lemma link_attr_wf: "link_attrs_wf st \<Longrightarrow> link_attr buf rta st = Some st' \<Longrightarrow> link_attrs_wf st'"
  by (auto simp: link_attr_def link_attrs_wf_def Let_def bind_eq_Some_conv nth_append dest: strncpy_length peek_length
      split: if_splits)

lemma addr_attr_wf: "addr_attrs_wf st \<Longrightarrow> addr_attr buf rta st = Some st' \<Longrightarrow> addr_attrs_wf st'"
  by (auto simp: addr_attr_def addr_attrs_wf_def Let_def bind_eq_Some_conv nth_append dest: strncpy_length peek_length
      split: if_splits)

text \<open>C39: For arbitrary received bytes, the attribute loops of \<open>dump_link_msg\<close> and \<open>dump_addr_msg\<close> end, and unless they read
  outside the receive buffer they keep the local arrays within their bounds: names are 16 bytes with a NUL at the
  end, a hardware address is stored in 32 bytes with a length of at most 32, an address in 16 with a length of at
  most 16.\<close>

theorem attribute_arrays:
  "(link_attrs_wf st \<and> rta_walk (link_attr buf) buf pos len st = Some st' \<longrightarrow> link_attrs_wf st') \<and>
   (addr_attrs_wf sa \<and> rta_walk (addr_attr buf) buf pos len sa = Some sa' \<longrightarrow> addr_attrs_wf sa')"
  using rta_walk_preserves [of link_attrs_wf "link_attr buf"] link_attr_wf
    rta_walk_preserves [of addr_attrs_wf "addr_attr buf"] addr_attr_wf by metis

theorem attribute_arrays_witness:
  "\<exists>st. rta_walk (link_attr (attr_bytes (IFLA_IFNAME, [108, 111, 0]))) (attr_bytes (IFLA_IFNAME, [108, 111, 0])) 0 8
      \<lparr>l_ifname = replicate 16 0, l_mtu = 0, l_addr = replicate 32 0, l_addr_len = 0\<rparr> = Some st \<and> link_attrs_wf st"
proof -
  let ?init = "\<lparr>l_ifname = replicate 16 0, l_mtu = 0, l_addr = replicate 32 0, l_addr_len = 0\<rparr>"
  let ?buf = "attr_bytes (IFLA_IFNAME, [108, 111, 0])"
  have len: "length ?buf = 8" by (simp add: attr_bytes_def align4_def)
  have "rta_walk (link_attr ?buf) ?buf (length ([] :: byte list)) (int (length (concat (map attr_bytes [(IFLA_IFNAME, [108, 111, 0])])))) ?init
      = Some (foldl link_upd ?init [(IFLA_IFNAME, [108, 111, 0])])"
    by (rule link.walk_all [where rest = "[]"]) (simp_all add: link_attr_ok_def attr_fits_def)
  then have walk: "rta_walk (link_attr ?buf) ?buf 0 8 ?init = Some (link_upd ?init (IFLA_IFNAME, [108, 111, 0]))"
    by (simp add: len)
  have "link_attrs_wf ?init" by (simp add: link_attrs_wf_def)
  then show ?thesis using attribute_arrays [of ?init ?buf 0 8] walk by blast
qed

end
