(* ===== verification/Machines.thy ===== *)
theory Machines
  imports Main
begin

text \<open>
  State machines given by an initial state and a step relation: reachable states, the rule that an invariant
  of the steps holds in all of them, and the rule that a measure which every step decreases bounds the
  length of all runs. The rules are stated once, as locales, and used for the thread programs.
\<close>

inductive reachable :: "'s \<Rightarrow> ('s \<Rightarrow> 's \<Rightarrow> bool) \<Rightarrow> 's \<Rightarrow> bool" for init step where
  reach_init: "reachable init step init"
| reach_step: "reachable init step s \<Longrightarrow> step s t \<Longrightarrow> reachable init step t"

definition stuck :: "('s \<Rightarrow> 's \<Rightarrow> bool) \<Rightarrow> 's \<Rightarrow> bool" where
  "stuck step s \<longleftrightarrow> (\<forall>t. \<not> step s t)"

locale invariant =
  fixes init :: 's and step :: "'s \<Rightarrow> 's \<Rightarrow> bool" and I :: "'s \<Rightarrow> bool"
  assumes inv_init: "I init"
    and inv_step: "I s \<Longrightarrow> step s t \<Longrightarrow> I t"
begin

lemma inv_reachable: "reachable init step s \<Longrightarrow> I s"
  by (induction rule: reachable.induct) (auto intro: inv_init inv_step)

lemma inv_relpowp: "(step ^^ k) init s \<Longrightarrow> I s"
  by (induction k arbitrary: s) (auto intro: inv_init inv_step)

end

locale terminating = invariant +
  fixes m :: "'s \<Rightarrow> nat"
  assumes decrease: "I s \<Longrightarrow> step s t \<Longrightarrow> m t < m s"
begin

lemma run_bound: "(step ^^ k) init s \<Longrightarrow> k + m s \<le> m init"
proof (induction k arbitrary: s)
  case (Suc k)
  then obtain u where "(step ^^ k) init u" "step u s" by auto
  then show ?case using Suc.IH [of u] decrease [of u s] inv_relpowp [of k u] by simp
qed simp

lemma no_infinite_run: "f 0 = init \<Longrightarrow> \<exists>k. \<not> step (f k) (f (Suc k))"
proof (rule ccontr)
  assume a: "f 0 = init" "\<nexists>k. \<not> step (f k) (f (Suc k))"
  have "(step ^^ k) init (f k)" for k
    using a by (induction k) auto
  from run_bound [OF this [of "Suc (m init)"]] show False by simp
qed

end

end
