(* ===== verification/THR_Pingpong.thy ===== *)
theory THR_Pingpong
  imports Machines
begin

text \<open>
  The futex test \<^verbatim>\<open>src/tools/thread-tests/thr2.c\<close>: two threads that post and await each other's word
  through \<open>FUTEX_WAKE\<close> and \<open>FUTEX_WAIT\<close>. Every atomic access and every system call is one step of a
  machine; the threads interleave in any order. \<open>atomic\<close> says whether the kernel compares the word and
  enqueues the caller in one step, as it must, or in two, the fault the test is written to find; \<open>timeouts\<close>
  whether the 300 ms of a wait may run out.

  The lemmas show that with a correct kernel no wake-up is lost and, unless a wait times out, every run
  ends and reports success; that the faulty kernel can put both threads to sleep; and that a time-out can be
  counted as a lost wake-up although the kernel is correct.
\<close>

section \<open>The machine\<close>

text \<open>\<open>run_main\<close> posts \<open>ping\<close> and awaits \<open>pong\<close>, \<open>child_fn\<close> the other way round.\<close>

datatype role = Main | Child

fun other :: "role \<Rightarrow> role" where
  "other Main = Child"
| "other Child = Main"

text \<open>Where a thread is: in \<open>post\<close> before the store and before the wake; in \<open>wait_for\<close> before the load, at
  the call with the value \<open>cur\<close> it has read, between the comparison and the queue (faulty kernel only), asleep, or
  back with \<open>ETIMEDOUT\<close>; after its loop; after the early exit.\<close>

datatype thr2_pc = Store | Wake | Load | Call int | Enqueue int | Asleep int | Expired | Finished | Aborted

record thr2 =
  word :: "role \<Rightarrow> int"
  iter :: "role \<Rightarrow> int"
  thr2_at :: "role \<Rightarrow> thr2_pc"
  lost_wakeups :: int

definition thr2_init :: "int \<Rightarrow> thr2" where
  "thr2_init N = \<lparr>word = (\<lambda>_. 0), iter = (\<lambda>_. 1),
     thr2_at = (\<lambda>r. if N < 1 then Finished else case r of Main \<Rightarrow> Store | Child \<Rightarrow> Load), lost_wakeups = 0\<rparr>"

definition thr2_goto :: "role \<Rightarrow> thr2_pc \<Rightarrow> thr2 \<Rightarrow> thr2" where
  "thr2_goto r p s = s\<lparr>thr2_at := (thr2_at s)(r := p)\<rparr>"

text \<open>The next iteration of a loop that starts at \<open>p\<close>.\<close>

definition next_iter :: "int \<Rightarrow> role \<Rightarrow> thr2_pc \<Rightarrow> thr2 \<Rightarrow> thr2" where
  "next_iter N r p s =
     (let i = iter s r + 1 in thr2_goto r (if i \<le> N then p else Finished) (s\<lparr>iter := (iter s)(r := i)\<rparr>))"

text \<open>After \<open>wait_for\<close> the child posts; the main thread looks at the counter and goes on.\<close>

definition wait_done :: "int \<Rightarrow> role \<Rightarrow> thr2 \<Rightarrow> thr2" where
  "wait_done N r s =
     (case r of
        Child \<Rightarrow> thr2_goto Child Store s
      | Main \<Rightarrow> if lost_wakeups s > 20 then thr2_goto Main Aborted s else next_iter N Main Store s)"

definition post_done :: "int \<Rightarrow> role \<Rightarrow> thr2 \<Rightarrow> thr2" where
  "post_done N r s = (case r of Main \<Rightarrow> thr2_goto Main Load s | Child \<Rightarrow> next_iter N Child Load s)"

text \<open>\<open>wait_for\<close>: the load at the head of the loop, and the test after a time-out.\<close>

definition wait_for_load :: "int \<Rightarrow> role \<Rightarrow> thr2 \<Rightarrow> thr2" where
  "wait_for_load N r s =
     (let cur = word s (other r) in if cur \<ge> iter s r then wait_done N r s else thr2_goto r (Call cur) s)"

definition wait_for_expired :: "int \<Rightarrow> role \<Rightarrow> thr2 \<Rightarrow> thr2" where
  "wait_for_expired N r s =
     (if word s (other r) \<ge> iter s r then wait_done N r (s\<lparr>lost_wakeups := lost_wakeups s + 1\<rparr>)
      else thr2_goto r Load s)"

definition post_store :: "role \<Rightarrow> thr2 \<Rightarrow> thr2" where
  "post_store r s = thr2_goto r Wake (s\<lparr>word := (word s)(r := iter s r)\<rparr>)"

text \<open>The kernel. A wake finds the other thread only if it is in the queue.\<close>

definition thr2_futex_wait :: "bool \<Rightarrow> role \<Rightarrow> int \<Rightarrow> thr2 \<Rightarrow> thr2" where
  "thr2_futex_wait atomic r cur s =
     (if word s (other r) \<noteq> cur then thr2_goto r Load s
      else if atomic then thr2_goto r (Asleep cur) s else thr2_goto r (Enqueue cur) s)"

definition thr2_futex_wake :: "role \<Rightarrow> thr2 \<Rightarrow> thr2" where
  "thr2_futex_wake r s = (case thr2_at s (other r) of Asleep _ \<Rightarrow> thr2_goto (other r) Load s | _ \<Rightarrow> s)"

inductive thr2_step :: "bool \<Rightarrow> bool \<Rightarrow> int \<Rightarrow> thr2 \<Rightarrow> thr2 \<Rightarrow> bool" for atomic timeouts N where
  store: "thr2_at s r = Store \<Longrightarrow> thr2_step atomic timeouts N s (post_store r s)"
| wake: "thr2_at s r = Wake \<Longrightarrow> thr2_step atomic timeouts N s (post_done N r (thr2_futex_wake r s))"
| load: "thr2_at s r = Load \<Longrightarrow> thr2_step atomic timeouts N s (wait_for_load N r s)"
| wait: "thr2_at s r = Call cur \<Longrightarrow> thr2_step atomic timeouts N s (thr2_futex_wait atomic r cur s)"
| enqueue: "thr2_at s r = Enqueue cur \<Longrightarrow> thr2_step atomic timeouts N s (thr2_goto r (Asleep cur) s)"
| timeout: "timeouts \<Longrightarrow> thr2_at s r = Asleep cur \<Longrightarrow> thr2_step atomic timeouts N s (thr2_goto r Expired s)"
| expired: "thr2_at s r = Expired \<Longrightarrow> thr2_step atomic timeouts N s (wait_for_expired N r s)"

inductive_cases thr2_stepE: "thr2_step atomic timeouts N s t"

lemmas thr2_defs = post_store_def wait_for_load_def wait_for_expired_def thr2_futex_wait_def thr2_futex_wake_def wait_done_def
  post_done_def next_iter_def thr2_goto_def Let_def

section \<open>The invariant of a correct kernel\<close>

fun waiting :: "thr2_pc \<Rightarrow> bool" where
  "waiting Load = True"
| "waiting (Call _) = True"
| "waiting (Asleep _) = True"
| "waiting Expired = True"
| "waiting _ = False"

text \<open>Where the two words stand while the main thread is in iteration \<open>i\<close>, and the child in its.\<close>

definition main_ok :: "int \<Rightarrow> thr2 \<Rightarrow> bool" where
  "main_ok N s \<longleftrightarrow>
     (let i = iter s Main; ping = word s Main; pong = word s Child in
      case thr2_at s Main of
        Store \<Rightarrow> i \<le> N \<and> ping = i - 1 \<and> pong = i - 1
      | Finished \<Rightarrow> ping = i - 1 \<and> pong = i - 1 \<and> (i = N + 1 \<or> N < 1 \<and> i = 1)
      | Aborted \<Rightarrow> ping = i \<and> pong = i \<and> i \<le> N
      | Enqueue _ \<Rightarrow> False
      | _ \<Rightarrow> i \<le> N \<and> ping = i \<and> (pong = i - 1 \<or> pong = i))"

definition child_ok :: "int \<Rightarrow> thr2 \<Rightarrow> bool" where
  "child_ok N s \<longleftrightarrow>
     (let i = iter s Child; ping = word s Main; pong = word s Child in
      case thr2_at s Child of
        Store \<Rightarrow> i \<le> N \<and> ping = i \<and> pong = i - 1
      | Wake \<Rightarrow> i \<le> N \<and> pong = i \<and> (ping = i \<or> ping = i + 1)
      | Finished \<Rightarrow> pong = i - 1 \<and> (i = N + 1 \<or> N < 1 \<and> i = 1)
      | Aborted \<Rightarrow> False
      | Enqueue _ \<Rightarrow> False
      | _ \<Rightarrow> i \<le> N \<and> pong = i - 1 \<and> (ping = i - 1 \<or> ping = i))"

text \<open>A thread at the call or asleep has read the previous value, and a sleeper's word has not changed
  unless the wake for it is about to come.\<close>

definition sleep_ok :: "role \<Rightarrow> thr2 \<Rightarrow> bool" where
  "sleep_ok r s \<longleftrightarrow>
     (case thr2_at s r of
        Call c \<Rightarrow> c = iter s r - 1
      | Asleep c \<Rightarrow> c = iter s r - 1 \<and> (word s (other r) = c \<or> thr2_at s (other r) = Wake)
      | _ \<Rightarrow> True)"

definition thr2_inv :: "int \<Rightarrow> thr2 \<Rightarrow> bool" where
  "thr2_inv N s \<longleftrightarrow> main_ok N s \<and> child_ok N s \<and> sleep_ok Main s \<and> sleep_ok Child s"

lemma thr2_inv_init: "thr2_inv N (thr2_init N)"
  by (auto simp: thr2_inv_def thr2_init_def main_ok_def child_ok_def sleep_ok_def)

lemma thr2_inv_step: "thr2_inv N s \<Longrightarrow> thr2_step True timeouts N s t \<Longrightarrow> thr2_inv N t"
  by (erule thr2_stepE; case_tac r)
     (auto simp: thr2_inv_def main_ok_def child_ok_def sleep_ok_def thr2_defs split: thr2_pc.splits if_splits)

interpretation pp: invariant "thr2_init N" "thr2_step True timeouts N" "thr2_inv N" for timeouts N
  by unfold_locales (auto intro: thr2_inv_init thr2_inv_step)

lemma not_both_asleep:
  assumes "thr2_inv N s" "thr2_at s Main = Asleep a" "thr2_at s Child = Asleep b"
  shows False
  using assms by (auto simp: thr2_inv_def main_ok_def child_ok_def sleep_ok_def Let_def)

section \<open>Progress and termination\<close>

text \<open>A state from which nothing moves: both loops have ended. Without time-outs the counter stays 0.\<close>

lemma pc_moves:
  assumes "stuck (thr2_step True timeouts N) s" "thr2_inv N s"
  shows "thr2_at s r \<in> {Finished, Aborted} \<or> (\<exists>c. thr2_at s r = Asleep c)"
proof (cases "thr2_at s r")
  case Enqueue
  with assms(2) show ?thesis by (cases r) (auto simp: thr2_inv_def main_ok_def child_ok_def)
qed (use assms(1) thr2_step.intros in \<open>fastforce simp: stuck_def\<close>)+

lemma stuck_finished:
  assumes "stuck (thr2_step True timeouts N) s" "thr2_inv N s" "thr2_at s Main \<noteq> Aborted"
  shows "thr2_at s Main = Finished \<and> thr2_at s Child = Finished"
proof -
  have c: "thr2_at s Child \<noteq> Aborted" using assms(2) by (auto simp: thr2_inv_def child_ok_def)
  consider "thr2_at s Main = Finished" "thr2_at s Child = Finished" | x where "thr2_at s Main = Finished" "thr2_at s Child = Asleep x"
    | x where "thr2_at s Main = Asleep x" "thr2_at s Child = Finished" | x y where "thr2_at s Main = Asleep x" "thr2_at s Child = Asleep y"
    using pc_moves [OF assms(1,2), of Main] pc_moves [OF assms(1,2), of Child] assms(3) c by blast
  then show ?thesis
  proof cases
    case 4
    from not_both_asleep [OF assms(2) this] show ?thesis ..
  qed (use assms(2) in \<open>auto simp: thr2_inv_def main_ok_def child_ok_def sleep_ok_def Let_def\<close>)
qed

definition untimed :: "thr2 \<Rightarrow> bool" where
  "untimed s \<longleftrightarrow> lost_wakeups s = 0 \<and> thr2_at s Main \<noteq> Aborted \<and> (\<forall>r. thr2_at s r \<noteq> Expired)"

definition quiet_inv :: "int \<Rightarrow> thr2 \<Rightarrow> bool" where
  "quiet_inv N s \<longleftrightarrow> thr2_inv N s \<and> untimed s"

lemma untimed_step: "thr2_step True False N s t \<Longrightarrow> untimed s \<Longrightarrow> untimed t"
  by (erule thr2_stepE; case_tac r) (auto simp: untimed_def thr2_defs split: thr2_pc.splits)

lemma quiet_step: "quiet_inv N s \<Longrightarrow> thr2_step True False N s t \<Longrightarrow> quiet_inv N t"
  using thr2_inv_step untimed_step unfolding quiet_inv_def by blast

text \<open>How much a thread has left to do in its iteration. \<open>adv\<close>: the value it waits for is there.\<close>

fun rank :: "role \<Rightarrow> bool \<Rightarrow> thr2_pc \<Rightarrow> nat" where
  "rank r adv Store = (case r of Main \<Rightarrow> 13 | Child \<Rightarrow> 2)"
| "rank r adv Wake = (case r of Main \<Rightarrow> 12 | Child \<Rightarrow> 1)"
| "rank r adv Load = (if adv then 3 else 7)"
| "rank r adv (Call c) = (if adv then 4 else 6)"
| "rank r adv (Asleep c) = (if adv then 4 else 5)"
| "rank r adv _ = 0"

definition iter_left :: "int \<Rightarrow> role \<Rightarrow> thr2 \<Rightarrow> nat" where
  "iter_left N r s = 20 * nat (N + 1 - iter s r) + rank r (word s (other r) \<ge> iter s r) (thr2_at s r)"

definition work_left :: "int \<Rightarrow> thr2 \<Rightarrow> nat" where
  "work_left N s = iter_left N Main s + iter_left N Child s"

lemma work_decreases:
  assumes "quiet_inv N s" "thr2_step True False N s t"
  shows "work_left N t < work_left N s"
proof -
  have i: "thr2_inv N s" "lost_wakeups s = 0" "\<forall>r. thr2_at s r \<noteq> Expired" using assms(1) by (auto simp: quiet_inv_def untimed_def)
  have nat20: "20 * nat (N + 1 - (k + 1)) + 20 = 20 * nat (N + 1 - k)" if "k \<le> N" for k using that by simp
  from assms(2) show ?thesis
  proof cases
    case (store r)
    with i show ?thesis
      by (cases r) (auto simp: work_left_def iter_left_def thr2_inv_def main_ok_def child_ok_def thr2_defs split: thr2_pc.splits)
  next
    case (wake r)
    with i nat20 [of "iter s Child"] show ?thesis
      by (cases r) (auto simp: work_left_def iter_left_def thr2_inv_def main_ok_def child_ok_def thr2_defs split: thr2_pc.splits if_splits)
  next
    case (load r)
    with i nat20 [of "iter s Main"] show ?thesis
      by (cases r) (auto simp: work_left_def iter_left_def thr2_inv_def main_ok_def child_ok_def thr2_defs split: thr2_pc.splits if_splits)
  next
    case (wait r cur)
    with i show ?thesis
      by (cases r) (auto simp: work_left_def iter_left_def thr2_inv_def main_ok_def child_ok_def sleep_ok_def thr2_defs split: if_splits)
  next
    case (enqueue r cur)
    with i show ?thesis by (cases r) (auto simp: thr2_inv_def main_ok_def child_ok_def)
  qed (use i in auto)
qed

interpretation pt: terminating "thr2_init N" "thr2_step True False N" "quiet_inv N" "work_left N" for N
proof
  show "quiet_inv N (thr2_init N)"
    using thr2_inv_init [of N] by (auto simp: quiet_inv_def untimed_def thr2_init_def split: role.splits)
qed (auto intro: quiet_step work_decreases)

section \<open>What the test reports\<close>

lemma thr2_reach:
  "reachable (thr2_init N) (thr2_step a b N) s \<Longrightarrow> thr2_step a b N s u \<Longrightarrow> u = t \<Longrightarrow> reachable (thr2_init N) (thr2_step a b N) t"
  using reach_step by metis

definition pair_state :: "int \<Rightarrow> thr2_pc \<Rightarrow> thr2_pc \<Rightarrow> int \<Rightarrow> thr2" where
  "pair_state p m c l = \<lparr>word = (\<lambda>r. case r of Main \<Rightarrow> p | Child \<Rightarrow> 0), iter = (\<lambda>_. 1),
     thr2_at = (\<lambda>r. case r of Main \<Rightarrow> m | Child \<Rightarrow> c), lost_wakeups = l\<rparr>"

lemma pair_state_sel [simp]:
  "thr2_at (pair_state p m c l) Main = m" "thr2_at (pair_state p m c l) Child = c" "word (pair_state p m c l) Main = p" "word (pair_state p m c l) Child = 0"
  "iter (pair_state p m c l) r = 1" "lost_wakeups (pair_state p m c l) = l"
  by (simp_all add: pair_state_def)

lemma pair_state_upd [simp]:
  "thr2_goto Main x (pair_state p m c l) = pair_state p x c l" "thr2_goto Child x (pair_state p m c l) = pair_state p m x l"
  "(pair_state p m c l)\<lparr>word := (word (pair_state p m c l))(Main := q)\<rparr> = pair_state q m c l" "(pair_state p m c l)\<lparr>lost_wakeups := k\<rparr> = pair_state p m c k"
  by (auto simp: pair_state_def thr2_goto_def fun_eq_iff split: role.splits)

lemma pair_state_init: "1 \<le> N \<Longrightarrow> thr2_init N = pair_state 0 Store Load 0"
  by (auto simp: thr2_init_def pair_state_def fun_eq_iff split: role.splits)

lemmas pair_state_defs = post_store_def wait_for_load_def wait_for_expired_def thr2_futex_wait_def thr2_futex_wake_def wait_done_def post_done_def

text \<open>The faulty kernel: the child compares, the main thread stores and wakes nobody, both sleep.\<close>

lemma faulty_kernel_deadlock:
  assumes "1 \<le> N"
  shows "\<exists>s. reachable (thr2_init N) (thr2_step False False N) s \<and> stuck (thr2_step False False N) s \<and>
    thr2_at s Main = Asleep 0 \<and> thr2_at s Child = Asleep 0 \<and> word s Main = 1 \<and> lost_wakeups s = 0"
proof -
  let ?R = "reachable (thr2_init N) (thr2_step False False N)"
  have "?R (pair_state 0 Store Load 0)"
    using reach_init [of "thr2_init N"] assms by (simp add: pair_state_init)
  then have "?R (pair_state 0 Store (Call 0) 0)"
    by (rule thr2_reach [OF _ load [of _ Child]]) (auto simp: pair_state_defs)
  then have "?R (pair_state 0 Store (Enqueue 0) 0)"
    by (rule thr2_reach [OF _ wait [of _ Child]]) (auto simp: pair_state_defs)
  then have "?R (pair_state 1 Wake (Enqueue 0) 0)"
    by (rule thr2_reach [OF _ store [of _ Main]]) (auto simp: pair_state_defs)
  then have "?R (pair_state 1 Load (Enqueue 0) 0)"
    by (rule thr2_reach [OF _ wake [of _ Main]]) (auto simp: pair_state_defs)
  then have "?R (pair_state 1 (Call 0) (Enqueue 0) 0)"
    by (rule thr2_reach [OF _ load [of _ Main]]) (auto simp: pair_state_defs)
  then have "?R (pair_state 1 (Enqueue 0) (Enqueue 0) 0)"
    by (rule thr2_reach [OF _ wait [of _ Main]]) (auto simp: pair_state_defs)
  then have "?R (pair_state 1 (Asleep 0) (Enqueue 0) 0)"
    by (rule thr2_reach [OF _ enqueue [of _ Main]]) (auto simp: pair_state_defs)
  then have r: "?R (pair_state 1 (Asleep 0) (Asleep 0) 0)"
    by (rule thr2_reach [OF _ enqueue [of _ Child]]) (auto simp: pair_state_defs)
  have "stuck (thr2_step False False N) (pair_state 1 (Asleep 0) (Asleep 0) 0)"
    by (auto simp: stuck_def pair_state_def elim!: thr2_stepE split: role.splits)
  with r show ?thesis by (intro exI [of _ "pair_state 1 (Asleep 0) (Asleep 0) 0"]) auto
qed

text \<open>A correct kernel with a slow main thread: the child's wait runs out between the store and the wake.\<close>

lemma false_alarm:
  assumes "1 \<le> N"
  shows "\<exists>s. reachable (thr2_init N) (thr2_step True True N) s \<and> lost_wakeups s = 1"
proof -
  let ?R = "reachable (thr2_init N) (thr2_step True True N)"
  have "?R (pair_state 0 Store Load 0)"
    using reach_init [of "thr2_init N"] assms by (simp add: pair_state_init)
  then have "?R (pair_state 0 Store (Call 0) 0)"
    by (rule thr2_reach [OF _ load [of _ Child]]) (auto simp: pair_state_defs)
  then have "?R (pair_state 0 Store (Asleep 0) 0)"
    by (rule thr2_reach [OF _ wait [of _ Child]]) (auto simp: pair_state_defs)
  then have "?R (pair_state 1 Wake (Asleep 0) 0)"
    by (rule thr2_reach [OF _ store [of _ Main]]) (auto simp: pair_state_defs)
  then have "?R (pair_state 1 Wake Expired 0)"
    by (rule thr2_reach [OF _ timeout [of _ _ Child]]) (auto simp: pair_state_defs)
  then have "?R (pair_state 1 Wake Store 1)"
    by (rule thr2_reach [OF _ expired [of _ Child]]) (auto simp: pair_state_defs)
  then show ?thesis by fastforce
qed

lemma work_left_init: "0 \<le> N \<Longrightarrow> work_left N (thr2_init N) \<le> 40 * nat N + 20"
  by (auto simp: work_left_def iter_left_def thr2_init_def)

text \<open>C37: on a kernel whose \<open>FUTEX_WAIT\<close> compares and enqueues atomically, and as long as no wait times out, the
  ping-pong test of \<open>thr2.c\<close> always ends and reports success: no run of it is longer than a bound linear in the
  number of iterations, no schedule leads to a state in which nothing can move before both threads are done, and then all
  values have been exchanged and no lost wake-up is counted. On a kernel that compares before it enqueues,
  there is a schedule that puts both threads to sleep for ever although the value the child waits for is there.\<close>

theorem pingpong_detects_lost_wakeups:
  assumes "1 \<le> N"
  shows "(\<forall>k s. (thr2_step True False N ^^ k) (thr2_init N) s \<longrightarrow> k \<le> 40 * nat N + 20) \<and>
    (\<forall>s. reachable (thr2_init N) (thr2_step True False N) s \<and> stuck (thr2_step True False N) s \<longrightarrow>
       thr2_at s Main = Finished \<and> thr2_at s Child = Finished \<and> word s Main = N \<and> word s Child = N \<and> lost_wakeups s = 0) \<and>
    (\<exists>s. reachable (thr2_init N) (thr2_step False False N) s \<and> stuck (thr2_step False False N) s \<and>
       thr2_at s Main = Asleep 0 \<and> thr2_at s Child = Asleep 0 \<and> word s Main = 1)"
proof (intro conjI allI impI)
  fix k s assume "(thr2_step True False N ^^ k) (thr2_init N) s"
  then show "k \<le> 40 * nat N + 20"
    using pt.run_bound [where N = N and k = k and s = s] work_left_init [of N] assms by simp
next
  fix s assume s: "reachable (thr2_init N) (thr2_step True False N) s \<and> stuck (thr2_step True False N) s"
  then have q: "thr2_inv N s" "untimed s" using pt.inv_reachable [where N = N and s = s] by (auto simp: quiet_inv_def)
  then have f: "thr2_at s Main = Finished \<and> thr2_at s Child = Finished"
    using stuck_finished [of False N s] s by (auto simp: untimed_def)
  then show "thr2_at s Main = Finished" "thr2_at s Child = Finished" by auto
  show "word s Main = N" "word s Child = N" using q(1) f assms by (auto simp: thr2_inv_def main_ok_def Let_def)
  show "lost_wakeups s = 0" using q(2) by (simp add: untimed_def)
next
  show "\<exists>s. reachable (thr2_init N) (thr2_step False False N) s \<and> stuck (thr2_step False False N) s \<and>
       thr2_at s Main = Asleep 0 \<and> thr2_at s Child = Asleep 0 \<and> word s Main = 1"
    using faulty_kernel_deadlock [OF assms] by blast
qed

theorem pingpong_detects_lost_wakeups_witness:
  "\<exists>s. reachable (thr2_init 20000) (thr2_step False False 20000) s \<and> stuck (thr2_step False False 20000) s \<and>
     thr2_at s Main = Asleep 0 \<and> thr2_at s Child = Asleep 0 \<and> word s Main = 1"
  using pingpong_detects_lost_wakeups [of 20000] by simp

end
