(* ===== verification/THR_Mutex.thy ===== *)
theory THR_Mutex
  imports Machines
begin

text \<open>
  The mutex of \<^verbatim>\<open>src/tools/thread-tests/thr3.c\<close>: \<open>mutex_lock\<close>, \<open>mutex_unlock\<close> and the wait loop
  \<open>wait_w2\<close> with its watchdog, on a kernel with an atomic \<open>FUTEX_WAIT\<close>. Any number of threads take and
  release the mutex for ever; every atomic access and every system call is one step, and the threads
  interleave in any order.

  The lemmas show mutual exclusion, that the counter \<open>waiters\<close> is the number of threads in the wait loop, and that
  a sleeping thread is never forgotten; and that the watchdog can count a lost wake-up although there was none.
\<close>

section \<open>The machine\<close>

text \<open>Where a thread is: outside; in \<open>mutex_lock\<close> before the compare-and-swap and before the swap; in \<open>wait_w2\<close>
  spinning, before the counter is raised, before the test of the loop, at the system call, asleep, at the two tests
  after \<open>ETIMEDOUT\<close>, before the counter is lowered; inside; in \<open>mutex_unlock\<close> before the load of the counter
  and before the wake.\<close>

datatype mutex_pc = Outside | Cas | Swap | Spin nat | Raise | Test | Call | Asleep | Late | Late2 | Lower | Inside
  | Load_waiters | Wake

record mutex =
  lock :: int
  waiters :: int
  mutex_at :: "nat \<Rightarrow> mutex_pc"
  watchdog_hit :: int

definition mutex_init :: mutex where
  "mutex_init = \<lparr>lock = 0, waiters = 0, mutex_at = (\<lambda>_. Outside), watchdog_hit = 0\<rparr>"

definition mutex_goto :: "nat \<Rightarrow> mutex_pc \<Rightarrow> mutex \<Rightarrow> mutex" where
  "mutex_goto t p s = s\<lparr>mutex_at := (mutex_at s)(t := p)\<rparr>"

text \<open>\<open>mutex_lock\<close>.\<close>

definition lock_cas :: "nat \<Rightarrow> mutex \<Rightarrow> mutex" where
  "lock_cas t s = (if lock s = 0 then mutex_goto t Inside (s\<lparr>lock := 1\<rparr>) else mutex_goto t Swap s)"

definition lock_swap :: "nat \<Rightarrow> mutex \<Rightarrow> mutex" where
  "lock_swap t s = mutex_goto t (if lock s \<noteq> 0 then Spin 100 else Inside) (s\<lparr>lock := 2\<rparr>)"

text \<open>\<open>wait_w2(&m->lock, &m->waiters, 2, "mutex")\<close>.\<close>

definition wait_spin :: "nat \<Rightarrow> nat \<Rightarrow> mutex \<Rightarrow> mutex" where
  "wait_spin t k s = mutex_goto t (if k \<noteq> 0 \<and> lock s = 2 then Spin (k - 1) else Raise) s"

definition wait_raise :: "nat \<Rightarrow> mutex \<Rightarrow> mutex" where
  "wait_raise t s = mutex_goto t Test (s\<lparr>waiters := waiters s + 1\<rparr>)"

definition wait_test :: "nat \<Rightarrow> mutex \<Rightarrow> mutex" where
  "wait_test t s = mutex_goto t (if lock s = 2 then Call else Lower) s"

definition wait_late :: "nat \<Rightarrow> mutex \<Rightarrow> mutex" where
  "wait_late t s = mutex_goto t (if lock s = 2 then Test else Late2) s"

definition wait_late2 :: "nat \<Rightarrow> mutex \<Rightarrow> mutex" where
  "wait_late2 t s =
     (if lock s \<noteq> 2 then mutex_goto t Lower (s\<lparr>watchdog_hit := watchdog_hit s + 1\<rparr>) else mutex_goto t Test s)"

definition wait_lower :: "nat \<Rightarrow> mutex \<Rightarrow> mutex" where
  "wait_lower t s = mutex_goto t Swap (s\<lparr>waiters := waiters s - 1\<rparr>)"

text \<open>\<open>mutex_unlock\<close>.\<close>

definition unlock_swap :: "nat \<Rightarrow> mutex \<Rightarrow> mutex" where
  "unlock_swap t s = mutex_goto t (if lock s = 2 then Wake else Load_waiters) (s\<lparr>lock := 0\<rparr>)"

definition unlock_waiters :: "nat \<Rightarrow> mutex \<Rightarrow> mutex" where
  "unlock_waiters t s = mutex_goto t (if waiters s \<noteq> 0 then Wake else Outside) s"

text \<open>The kernel: a wait sleeps only if the word is still 2; a wake ends the sleep of one sleeper, if there
  is one.\<close>

definition mutex_futex_wait :: "nat \<Rightarrow> mutex \<Rightarrow> mutex" where
  "mutex_futex_wait t s = mutex_goto t (if lock s = 2 then Asleep else Test) s"

inductive mutex_step :: "nat \<Rightarrow> mutex \<Rightarrow> mutex \<Rightarrow> bool" for n where
  enter: "t < n \<Longrightarrow> mutex_at s t = Outside \<Longrightarrow> mutex_step n s (mutex_goto t Cas s)"
| cas: "t < n \<Longrightarrow> mutex_at s t = Cas \<Longrightarrow> mutex_step n s (lock_cas t s)"
| swap: "t < n \<Longrightarrow> mutex_at s t = Swap \<Longrightarrow> mutex_step n s (lock_swap t s)"
| spin: "t < n \<Longrightarrow> mutex_at s t = Spin k \<Longrightarrow> mutex_step n s (wait_spin t k s)"
| raise: "t < n \<Longrightarrow> mutex_at s t = Raise \<Longrightarrow> mutex_step n s (wait_raise t s)"
| test: "t < n \<Longrightarrow> mutex_at s t = Test \<Longrightarrow> mutex_step n s (wait_test t s)"
| call: "t < n \<Longrightarrow> mutex_at s t = Call \<Longrightarrow> mutex_step n s (mutex_futex_wait t s)"
| timeout: "t < n \<Longrightarrow> mutex_at s t = Asleep \<Longrightarrow> mutex_step n s (mutex_goto t Late s)"
| late: "t < n \<Longrightarrow> mutex_at s t = Late \<Longrightarrow> mutex_step n s (wait_late t s)"
| late2: "t < n \<Longrightarrow> mutex_at s t = Late2 \<Longrightarrow> mutex_step n s (wait_late2 t s)"
| lower: "t < n \<Longrightarrow> mutex_at s t = Lower \<Longrightarrow> mutex_step n s (wait_lower t s)"
| unlock: "t < n \<Longrightarrow> mutex_at s t = Inside \<Longrightarrow> mutex_step n s (unlock_swap t s)"
| count: "t < n \<Longrightarrow> mutex_at s t = Load_waiters \<Longrightarrow> mutex_step n s (unlock_waiters t s)"
| wake_one: "t < n \<Longrightarrow> mutex_at s t = Wake \<Longrightarrow> mutex_at s u = Asleep \<Longrightarrow> mutex_step n s (mutex_goto t Outside (mutex_goto u Test s))"
| wake_none: "t < n \<Longrightarrow> mutex_at s t = Wake \<Longrightarrow> \<forall>u. mutex_at s u \<noteq> Asleep \<Longrightarrow> mutex_step n s (mutex_goto t Outside s)"

inductive_cases mutex_stepE: "mutex_step n s s'"

lemmas mutex_defs = lock_cas_def lock_swap_def wait_spin_def wait_raise_def wait_test_def wait_late_def wait_late2_def
  wait_lower_def unlock_swap_def unlock_waiters_def mutex_futex_wait_def

lemma mutex_goto_sel [simp]:
  "lock (mutex_goto t p s) = lock s" "waiters (mutex_goto t p s) = waiters s" "watchdog_hit (mutex_goto t p s) = watchdog_hit s"
  "mutex_at (mutex_goto t p s) = (mutex_at s)(t := p)"
  by (simp_all add: mutex_goto_def)

section \<open>Mutual exclusion\<close>

definition holders :: "mutex \<Rightarrow> nat set" where
  "holders s = {t. mutex_at s t = Inside}"

definition excl_inv :: "nat \<Rightarrow> mutex \<Rightarrow> bool" where
  "excl_inv n s \<longleftrightarrow> lock s \<in> {0, 1, 2} \<and> (lock s = 0 \<longleftrightarrow> holders s = {}) \<and> (\<exists>h. holders s \<subseteq> {h}) \<and>
     (\<forall>t \<ge> n. mutex_at s t = Outside)"

lemma holders_upd [simp]:
  "holders (mutex_goto t p s) = (if p = Inside then insert t (holders s) else holders s - {t})"
  "holders (s\<lparr>lock := l\<rparr>) = holders s" "holders (s\<lparr>waiters := k\<rparr>) = holders s" "holders (s\<lparr>watchdog_hit := k\<rparr>) = holders s"
  by (auto simp: holders_def)

lemma not_holder: "mutex_at s t = p \<Longrightarrow> p \<noteq> Inside \<Longrightarrow> t \<notin> holders s"
  by (simp add: holders_def)

lemma excl_inv_step:
  assumes "excl_inv n s" "mutex_step n s s'"
  shows "excl_inv n s'"
  using assms(2)
proof cases
  case (unlock t)
  then have "holders s = {t}" using assms(1) by (auto simp: excl_inv_def holders_def)
  with unlock assms(1) show ?thesis by (auto simp: excl_inv_def mutex_defs)
next
  case (wake_one t u)
  then have "u < n" using assms(1) by (auto simp: excl_inv_def not_less [symmetric])
  with wake_one assms(1) not_holder [of s t] not_holder [of s u] show ?thesis by (auto simp: excl_inv_def)
qed (use assms(1) in \<open>auto simp: excl_inv_def mutex_defs dest: not_holder\<close>)

section \<open>Nobody is forgotten\<close>

text \<open>The threads the counter counts; the threads that will look at the lock again, or wake somebody.\<close>

definition counted :: "mutex_pc \<Rightarrow> bool" where
  "counted p \<longleftrightarrow> p \<in> {Test, Call, Asleep, Late, Late2, Lower}"

definition active :: "mutex_pc \<Rightarrow> bool" where
  "active p \<longleftrightarrow> (case p of Swap \<Rightarrow> True | Spin _ \<Rightarrow> True | Raise \<Rightarrow> True | Test \<Rightarrow> True | Call \<Rightarrow> True | Late \<Rightarrow> True
     | Late2 \<Rightarrow> True | Lower \<Rightarrow> True | Wake \<Rightarrow> True | _ \<Rightarrow> False)"

definition awake_inv :: "mutex \<Rightarrow> bool" where
  "awake_inv s \<longleftrightarrow> (\<exists>t. mutex_at s t = Asleep) \<longrightarrow> lock s = 2 \<or> (\<exists>u. active (mutex_at s u))"

lemma awake_inv_step: "awake_inv s \<Longrightarrow> mutex_step n s s' \<Longrightarrow> awake_inv s'"
  by (erule mutex_stepE) (auto simp: awake_inv_def mutex_defs active_def split: mutex_pc.splits if_splits)

text \<open>The counter.\<close>

definition in_loop :: "nat \<Rightarrow> mutex \<Rightarrow> nat set" where
  "in_loop n s = {t. t < n \<and> counted (mutex_at s t)}"

definition count_inv :: "nat \<Rightarrow> mutex \<Rightarrow> bool" where
  "count_inv n s \<longleftrightarrow> waiters s = int (card (in_loop n s))"

lemma finite_in_loop [simp]: "finite (in_loop n s)"
  by (simp add: in_loop_def)

lemma in_loop_upd [simp]:
  "t < n \<Longrightarrow> in_loop n (mutex_goto t p s) = (if counted p then insert t (in_loop n s) else in_loop n s - {t})"
  "in_loop n (s\<lparr>lock := l\<rparr>) = in_loop n s" "in_loop n (s\<lparr>waiters := k\<rparr>) = in_loop n s"
  "in_loop n (s\<lparr>watchdog_hit := k\<rparr>) = in_loop n s"
  by (auto simp: in_loop_def)

lemma in_loop_iff: "t < n \<Longrightarrow> t \<in> in_loop n s \<longleftrightarrow> counted (mutex_at s t)"
  by (simp add: in_loop_def)

lemma count_inv_step:
  assumes "count_inv n s" "excl_inv n s" "mutex_step n s s'"
  shows "count_inv n s'"
  using assms(3)
proof cases
  case (lower t)
  then have t: "t \<in> in_loop n s" by (simp add: in_loop_iff counted_def)
  with lower assms(1) card_Suc_Diff1 [OF finite_in_loop t] show ?thesis
    by (simp add: count_inv_def mutex_defs counted_def)
next
  case (wake_one t u)
  then have u: "u < n" using assms(2) by (auto simp: excl_inv_def not_less [symmetric])
  then have "u \<in> in_loop n s" "t \<notin> in_loop n s" using wake_one by (simp_all add: in_loop_iff counted_def)
  with u wake_one assms(1) show ?thesis by (simp add: count_inv_def counted_def insert_absorb)
qed (use assms(1) in \<open>auto simp: count_inv_def mutex_defs counted_def in_loop_iff insert_absorb\<close>)

definition mutex_inv :: "nat \<Rightarrow> mutex \<Rightarrow> bool" where
  "mutex_inv n s \<longleftrightarrow> excl_inv n s \<and> awake_inv s \<and> count_inv n s"

interpretation mx: invariant mutex_init "mutex_step n" "mutex_inv n" for n
proof
  show "mutex_inv n mutex_init"
    by (simp add: mutex_inv_def excl_inv_def awake_inv_def count_inv_def in_loop_def mutex_init_def holders_def counted_def)
qed (auto simp: mutex_inv_def intro: excl_inv_step awake_inv_step count_inv_step)

section \<open>The watchdog\<close>

text \<open>Thread 0 holds the mutex, thread 1 sleeps; its wait runs out, and before it looks at the word thread 0
  has released the mutex and is about to wake it.\<close>

definition two_threads :: "int \<Rightarrow> int \<Rightarrow> mutex_pc \<Rightarrow> mutex_pc \<Rightarrow> int \<Rightarrow> mutex" where
  "two_threads l k p q h = \<lparr>lock = l, waiters = k, mutex_at = (\<lambda>_. Outside)(0 := p, 1 := q), watchdog_hit = h\<rparr>"

lemma two_threads_sel [simp]:
  "lock (two_threads l k p q h) = l" "waiters (two_threads l k p q h) = k" "mutex_at (two_threads l k p q h) 0 = p" "mutex_at (two_threads l k p q h) (Suc 0) = q"
  "watchdog_hit (two_threads l k p q h) = h"
  by (simp_all add: two_threads_def)

lemma two_threads_upd [simp]:
  "mutex_goto 0 x (two_threads l k p q h) = two_threads l k x q h" "mutex_goto (Suc 0) x (two_threads l k p q h) = two_threads l k p x h"
  "(two_threads l k p q h)\<lparr>lock := m\<rparr> = two_threads m k p q h" "(two_threads l k p q h)\<lparr>waiters := m\<rparr> = two_threads l m p q h"
  "(two_threads l k p q h)\<lparr>watchdog_hit := m\<rparr> = two_threads l k p q m"
  by (auto simp: two_threads_def mutex_goto_def fun_eq_iff)

lemma mutex_reach:
  "reachable mutex_init (mutex_step n) s \<Longrightarrow> mutex_step n s u \<Longrightarrow> u = v \<Longrightarrow> reachable mutex_init (mutex_step n) v"
  using reach_step by metis

lemma spin_out:
  assumes "reachable mutex_init (mutex_step n) (two_threads 2 0 p (Spin k) 0)" "2 \<le> n"
  shows "reachable mutex_init (mutex_step n) (two_threads 2 0 p Raise 0)"
  using assms(1)
proof (induction k)
  case 0
  then show ?case by (rule mutex_reach [OF _ spin [of 1]]) (use assms(2) in \<open>auto simp: mutex_defs\<close>)
next
  case (Suc k)
  have "reachable mutex_init (mutex_step n) (two_threads 2 0 p (Spin k) 0)"
    by (rule mutex_reach [OF Suc.prems spin [of 1]]) (use assms(2) in \<open>auto simp: mutex_defs\<close>)
  then show ?case by (rule Suc.IH)
qed

lemma false_watchdog:
  assumes "2 \<le> n"
  shows "\<exists>s. reachable mutex_init (mutex_step n) s \<and> watchdog_hit s = 1 \<and> mutex_at s 0 = Wake"
proof -
  let ?R = "\<lambda>l k p q h. reachable mutex_init (mutex_step n) (two_threads l k p q h)"
  have "?R 0 0 Outside Outside 0"
    using reach_init [of mutex_init "mutex_step n"] by (simp add: mutex_init_def two_threads_def fun_upd_idem)
  then have "?R 0 0 Cas Outside 0" by (rule mutex_reach [OF _ enter [of 0]]) (use assms in auto)
  then have "?R 1 0 Inside Outside 0" by (rule mutex_reach [OF _ cas [of 0]]) (use assms in \<open>auto simp: mutex_defs\<close>)
  then have "?R 1 0 Inside Cas 0" by (rule mutex_reach [OF _ enter [of 1]]) (use assms in auto)
  then have "?R 1 0 Inside Swap 0" by (rule mutex_reach [OF _ cas [of 1]]) (use assms in \<open>auto simp: mutex_defs\<close>)
  then have "?R 2 0 Inside (Spin 100) 0" by (rule mutex_reach [OF _ swap [of 1]]) (use assms in \<open>auto simp: mutex_defs\<close>)
  then have "?R 2 0 Inside Raise 0" using spin_out assms by blast
  then have "?R 2 1 Inside Test 0" by (rule mutex_reach [OF _ raise [of 1]]) (use assms in \<open>auto simp: mutex_defs\<close>)
  then have "?R 2 1 Inside Call 0" by (rule mutex_reach [OF _ test [of 1]]) (use assms in \<open>auto simp: mutex_defs\<close>)
  then have "?R 2 1 Inside Asleep 0" by (rule mutex_reach [OF _ call [of 1]]) (use assms in \<open>auto simp: mutex_defs\<close>)
  then have "?R 2 1 Inside Late 0" by (rule mutex_reach [OF _ timeout [of 1]]) (use assms in auto)
  then have "?R 0 1 Wake Late 0" by (rule mutex_reach [OF _ unlock [of 0]]) (use assms in \<open>auto simp: mutex_defs\<close>)
  then have "?R 0 1 Wake Late2 0" by (rule mutex_reach [OF _ late [of 1]]) (use assms in \<open>auto simp: mutex_defs\<close>)
  then have "?R 0 1 Wake Lower 1" by (rule mutex_reach [OF _ late2 [of 1]]) (use assms in \<open>auto simp: mutex_defs\<close>)
  then show ?thesis by fastforce
qed

text \<open>C36: the mutex of \<open>thr3.c\<close>, for any number of threads and any schedule, time-outs included: at most one thread is
  between \<open>mutex_lock\<close> and \<open>mutex_unlock\<close>, and one is exactly when the lock word is not 0; the counter \<open>waiters\<close> is the
  number of threads in the wait loop; while a thread sleeps, the lock word makes the holder's unlock issue a wake, or
  another thread is on its way to look at the lock or to issue one. In particular not all threads that want the mutex
  can be asleep.\<close>

theorem mutex_correct:
  assumes "reachable mutex_init (mutex_step n) s"
  shows "(\<forall>t u. mutex_at s t = Inside \<longrightarrow> mutex_at s u = Inside \<longrightarrow> t = u) \<and> (lock s \<noteq> 0 \<longleftrightarrow> (\<exists>t. mutex_at s t = Inside)) \<and>
    waiters s = int (card {t. t < n \<and> counted (mutex_at s t)}) \<and>
    ((\<exists>t. mutex_at s t = Asleep) \<longrightarrow> lock s = 2 \<and> (\<exists>t. mutex_at s t = Inside) \<or> (\<exists>u. active (mutex_at s u))) \<and>
    ((\<forall>t. mutex_at s t \<in> {Outside, Asleep}) \<longrightarrow> (\<forall>t. mutex_at s t = Outside))"
proof -
  have i: "excl_inv n s" "awake_inv s" "count_inv n s"
    using mx.inv_reachable [OF assms] by (auto simp: mutex_inv_def)
  then have h: "lock s \<noteq> 0 \<longleftrightarrow> (\<exists>t. mutex_at s t = Inside)" by (auto simp: excl_inv_def holders_def)
  have one: "t = u" if "mutex_at s t = Inside" "mutex_at s u = Inside" for t u
    using i(1) that by (auto simp: excl_inv_def holders_def)
  have awake: "(\<exists>t. mutex_at s t = Asleep) \<longrightarrow> lock s = 2 \<and> (\<exists>t. mutex_at s t = Inside) \<or> (\<exists>u. active (mutex_at s u))"
    using i(2) h by (auto simp: awake_inv_def)
  have none: "(\<forall>t. mutex_at s t \<in> {Outside, Asleep}) \<longrightarrow> (\<forall>t. mutex_at s t = Outside)"
  proof
    assume a: "\<forall>t. mutex_at s t \<in> {Outside, Asleep}"
    have "\<not> active (mutex_at s t)" "mutex_at s t \<noteq> Inside" for t using a [rule_format, of t] by (auto simp: active_def)
    then show "\<forall>t. mutex_at s t = Outside" using awake a by blast
  qed
  have count: "waiters s = int (card {t. t < n \<and> counted (mutex_at s t)})" using i(3) by (simp add: count_inv_def in_loop_def)
  show ?thesis using one h count awake none by (intro conjI) blast+
qed

theorem mutex_correct_witness:
  "\<exists>s. reachable mutex_init (mutex_step 2) s \<and> mutex_at s 0 = Inside \<and> mutex_at s 1 \<noteq> Inside \<and> lock s \<noteq> 0"
proof -
  have "reachable mutex_init (mutex_step 2) (mutex_goto 0 Cas mutex_init)"
    by (rule mutex_reach [OF reach_init enter refl]) (simp_all add: mutex_init_def)
  then have r: "reachable mutex_init (mutex_step 2) (lock_cas 0 (mutex_goto 0 Cas mutex_init))"
    by (rule mutex_reach [OF _ cas refl]) simp_all
  have "mutex_at (lock_cas 0 (mutex_goto 0 Cas mutex_init)) 0 = Inside" by (simp add: lock_cas_def mutex_init_def)
  then show ?thesis using mutex_correct [OF r] r by (metis zero_neq_one)
qed

end
