(* ===== verification/BENCH_Chase.thy ===== *)
theory BENCH_Chase
  imports Prelude "HOL-Library.Multiset"
begin

unbundle bit_operations_syntax

text \<open>
  The memory benchmark of \<^verbatim>\<open>src/tools/eclipse-bench/eclipse-bench.c\<close>: \<open>build_chase\<close> shuffles the indices with
  Sattolo's algorithm so that \<open>mem_chase\<close>, which follows them from slot 0, visits every slot before it returns.
  The generator is the 64-bit linear congruence of the source; nothing is assumed of it but that \<open>% i\<close>
  gives an index below \<open>i\<close>.

  The lemmas show that each exchange joins two cycles of the permutation, so that a single cycle is left.
\<close>

section \<open>The source\<close>

text \<open>\<open>r * 6364136223846793005 + 1442695040888963407\<close> on \<open>uint64_t\<close>.\<close>

definition lcg :: "u64 \<Rightarrow> u64" where
  "lcg r = r * 6364136223846793005 + 1442695040888963407"

definition chase_swap :: "u64 \<times> nat list \<Rightarrow> nat \<Rightarrow> u64 \<times> nat list" where
  "chase_swap = (\<lambda>(r, g_chase) i.
     let r = lcg r;
         j = unat (drop_bit 11 r mod of_nat i);
         t = g_chase ! i;
         g_chase = g_chase[i := g_chase ! j]
     in (r, g_chase[j := t]))"

text \<open>The loop runs over \<open>i = n - 1, \<dots>, 1\<close>; for \<open>n = 0\<close> the C loop starts at \<open>SIZE_MAX\<close> and
  writes outside the array, so the model speaks of \<open>0 < n\<close>; \<open>BENCH_Disk.chase_empty\<close> shows when
  \<open>main\<close> passes 0.\<close>

definition build_chase :: "nat \<Rightarrow> nat list" where
  "build_chase n = snd (foldl chase_swap (0x243f6a8885a308d3, [0..<n]) (rev [1..<n]))"

fun mem_chase_loop :: "nat list \<Rightarrow> nat \<Rightarrow> nat \<Rightarrow> nat" where
  "mem_chase_loop g_chase i 0 = i"
| "mem_chase_loop g_chase i (Suc h) = mem_chase_loop g_chase (g_chase ! i) h"

definition mem_chase :: "nat list \<Rightarrow> nat \<Rightarrow> nat" where
  "mem_chase g_chase hops = mem_chase_loop g_chase 0 hops"

section \<open>Orbits\<close>

definition orbit :: "('a \<Rightarrow> 'a) \<Rightarrow> 'a \<Rightarrow> 'a set" where
  "orbit f x = range (\<lambda>a. (f ^^ a) x)"

lemma orbit_self [simp]: "x \<in> orbit f x"
  unfolding orbit_def by (rule range_eqI [of _ _ 0]) simp

lemma orbit_step: "y \<in> orbit f x \<Longrightarrow> f y \<in> orbit f x"
  unfolding orbit_def by (auto intro: range_eqI [of _ _ "Suc _"])

lemma orbit_least: "x \<in> S \<Longrightarrow> (\<And>y. y \<in> S \<Longrightarrow> f y \<in> S) \<Longrightarrow> orbit f x \<subseteq> S"
proof -
  assume a: "x \<in> S" "\<And>y. y \<in> S \<Longrightarrow> f y \<in> S"
  have "(f ^^ k) x \<in> S" for k by (induction k) (auto intro: a)
  then show ?thesis by (auto simp: orbit_def)
qed

lemma orbit_trans: "y \<in> orbit f x \<Longrightarrow> orbit f y \<subseteq> orbit f x"
  by (rule orbit_least) (auto intro: orbit_step)

text \<open>A permutation of a finite set comes back.\<close>

lemma perm_cancel:
  assumes "inj_on f S" "f ` S \<subseteq> S"
  shows "(f ^^ a) y = (f ^^ a) z \<Longrightarrow> y \<in> S \<Longrightarrow> z \<in> S \<Longrightarrow> y = z"
proof (induction a arbitrary: y z)
  case (Suc a)
  have "f y = f z" using Suc.IH [of "f y" "f z"] Suc.prems assms(2) by (auto simp: funpow_swap1)
  then show ?case using assms(1) Suc.prems by (auto dest: inj_onD)
qed simp

lemma perm_stays: "f ` S \<subseteq> S \<Longrightarrow> x \<in> S \<Longrightarrow> (f ^^ k) x \<in> S"
  by (induction k) auto

lemma perm_difference:
  assumes "inj_on f S" "f ` S \<subseteq> S" "x \<in> S" "a < b" "(f ^^ a) x = (f ^^ b) x"
  shows "(f ^^ (b - a)) x = x"
proof -
  have "(f ^^ b) x = (f ^^ a) ((f ^^ (b - a)) x)"
    using assms(4) by (metis comp_apply funpow_add le_add_diff_inverse less_imp_le)
  then show ?thesis
    using perm_cancel [OF assms(1,2), of a x "(f ^^ (b - a)) x"] perm_stays [OF assms(2,3)] assms(3,5) by simp
qed

lemma perm_returns:
  assumes "finite S" "inj_on f S" "f ` S \<subseteq> S" "x \<in> S"
  shows "\<exists>p > 0. (f ^^ p) x = x"
proof -
  have "\<not> inj (\<lambda>k. (f ^^ k) x)"
  proof
    assume "inj (\<lambda>k. (f ^^ k) x)"
    moreover have "finite (range (\<lambda>k. (f ^^ k) x))"
      using perm_stays [OF assms(3,4)] assms(1) by (blast intro: finite_subset)
    ultimately show False using finite_imageD infinite_UNIV_nat by blast
  qed
  then obtain a b where ab: "a < b" "(f ^^ a) x = (f ^^ b) x"
    unfolding inj_def by (metis linorder_neqE_nat)
  then show ?thesis using perm_difference [OF assms(2-4) ab] by (intro exI [of _ "b - a"]) simp
qed

text \<open>Exchanging the successors of two elements on different cycles joins the cycles.\<close>

lemma funpow_agree:
  assumes "\<And>b. b < a \<Longrightarrow> g ((f ^^ b) x) = f ((f ^^ b) x)"
  shows "(g ^^ a) x = (f ^^ a) x"
  using assms by (induction a) auto

lemma exchange_joins:
  assumes "finite S" "inj_on f S" "f ` S \<subseteq> S" "i \<in> S" "j \<notin> orbit f i" "i \<notin> orbit f j"
    and g: "g = f(i := f j, j := f i)"
  shows "orbit g j = orbit f i \<union> orbit f j"
proof (rule antisym)
  show "orbit g j \<subseteq> orbit f i \<union> orbit f j"
    by (rule orbit_least) (auto simp: g intro: orbit_step)
  have "\<exists>p. (f ^^ Suc p) i = i" using perm_returns [OF assms(1-4)] gr0_implies_Suc by metis
  then obtain p where p: "(f ^^ Suc p) i = i" "\<And>q. q < p \<Longrightarrow> (f ^^ Suc q) i \<noteq> i"
    using exists_least_iff [of "\<lambda>p. (f ^^ Suc p) i = i"] by blast
  have off: "(f ^^ q) (f i) \<noteq> j" for q
  proof -
    have "(f ^^ q) (f i) = (f ^^ Suc q) i" by (simp add: funpow_swap1)
    then show ?thesis using assms(5) unfolding orbit_def by (metis rangeI)
  qed
  have "(g ^^ p) (f i) = (f ^^ p) (f i)"
    by (rule funpow_agree) (use p(2) off in \<open>simp add: g funpow_swap1\<close>)
  also have "\<dots> = i" using p(1) by (simp add: funpow_swap1)
  finally have "(g ^^ Suc p) j = i" by (simp add: g funpow_swap1)
  then have i: "i \<in> orbit g j" unfolding orbit_def by (metis rangeI)
  have gi: "f j \<in> orbit g j" using orbit_step [OF i] assms(5) by (auto simp: g split: if_splits)
  have gj: "f i \<in> orbit g j" using orbit_step [OF orbit_self, of g j] by (simp add: g)
  have "orbit f i \<subseteq> orbit f i \<inter> orbit g j"
  proof (rule orbit_least)
    fix y assume y: "y \<in> orbit f i \<inter> orbit g j"
    then have "y \<noteq> i \<Longrightarrow> f y = g y" using assms(5) by (auto simp: g)
    then have "f y \<in> orbit g j" using y gj orbit_step [of y g j] by (cases "y = i") auto
    then show "f y \<in> orbit f i \<inter> orbit g j" using y by (blast intro: orbit_step)
  qed (use i in simp)
  moreover have "orbit f j \<subseteq> orbit f j \<inter> orbit g j"
  proof (rule orbit_least)
    fix y assume y: "y \<in> orbit f j \<inter> orbit g j"
    then have "y \<noteq> j \<Longrightarrow> f y = g y" using assms(6) by (auto simp: g)
    then have "f y \<in> orbit g j" using y gi orbit_step [of y g j] by (cases "y = j") auto
    then show "f y \<in> orbit f j \<inter> orbit g j" using y by (blast intro: orbit_step)
  qed simp
  ultimately show "orbit f i \<union> orbit f j \<subseteq> orbit g j" by blast
qed

lemma exchange_keeps:
  assumes "i \<notin> orbit f k" "j \<notin> orbit f k" "g = f(i := f j, j := f i)"
  shows "orbit g k = orbit f k"
proof -
  have "(g ^^ a) k = (f ^^ a) k" for a
  proof (rule funpow_agree)
    fix b
    have "(f ^^ b) k \<in> orbit f k" by (simp add: orbit_def)
    then show "g ((f ^^ b) k) = f ((f ^^ b) k)" using assms by auto
  qed
  then show ?thesis by (simp add: orbit_def)
qed

section \<open>Sattolo's loop\<close>

text \<open>While the loop is at \<open>i\<close>, the list is a permutation whose cycles are represented by \<open>0, \<dots>, i\<close>.\<close>

definition sattolo_inv :: "nat \<Rightarrow> nat \<Rightarrow> nat list \<Rightarrow> bool" where
  "sattolo_inv n i xs \<longleftrightarrow> length xs = n \<and> distinct xs \<and> set xs = {..<n} \<and> i < n \<and>
     (\<forall>m < n. \<exists>k \<le> i. m \<in> orbit (nth xs) k) \<and>
     (\<forall>k \<le> i. \<forall>l \<le> i. k \<noteq> l \<longrightarrow> k \<notin> orbit (nth xs) l)"

lemma perm_nth:
  assumes "length xs = n" "distinct xs" "set xs = {..<n}"
  shows "inj_on (nth xs) {..<n}" "nth xs ` {..<n} \<subseteq> {..<n}"
  using assms by (auto simp: inj_on_def nth_eq_iff_index_eq dest: nth_mem)

lemma sattolo_init:
  assumes "0 < n"
  shows "sattolo_inv n (n - 1) [0..<n]"
proof -
  have "orbit (nth [0..<n]) k \<subseteq> {k}" if "k \<le> n - 1" for k
    by (rule orbit_least) (use that assms in auto)
  then have eq: "m \<in> orbit (nth [0..<n]) k \<longleftrightarrow> m = k" if "k \<le> n - 1" for m k
    using that orbit_self [of k "nth [0..<n]"] by blast
  have "\<exists>k \<le> n - 1. m \<in> orbit (nth [0..<n]) k" if "m < n" for m
    using that by (intro exI [of _ m]) auto
  moreover have "\<forall>k \<le> n - 1. \<forall>l \<le> n - 1. k \<noteq> l \<longrightarrow> k \<notin> orbit (nth [0..<n]) l" using eq by blast
  ultimately show ?thesis using assms unfolding sattolo_inv_def by (simp add: lessThan_atLeast0)
qed

definition exchange :: "nat \<Rightarrow> nat \<Rightarrow> nat list \<Rightarrow> nat list" where
  "exchange i j xs = xs[i := xs ! j, j := xs ! i]"

lemma exchange_nth:
  "i < length xs \<Longrightarrow> j < length xs \<Longrightarrow> nth (exchange i j xs) = (nth xs)(i := xs ! j, j := xs ! i)"
  by (rule ext) (auto simp: exchange_def nth_list_update)

lemma sattolo_step:
  assumes inv: "sattolo_inv n (Suc i) xs" and j: "j \<le> i"
  shows "sattolo_inv n i (exchange (Suc i) j xs)"
proof -
  define f g where "f = nth xs" and "g = nth (exchange (Suc i) j xs)"
  have xs: "length xs = n" "distinct xs" "set xs = {..<n}" "Suc i < n"
    and cover: "\<And>m. m < n \<Longrightarrow> \<exists>k \<le> Suc i. m \<in> orbit f k"
    and apart: "\<And>k l. k \<le> Suc i \<Longrightarrow> l \<le> Suc i \<Longrightarrow> k \<noteq> l \<Longrightarrow> k \<notin> orbit f l"
    using inv by (auto simp: sattolo_inv_def f_def)
  have g: "g = f(Suc i := f j, j := f (Suc i))"
    using exchange_nth [of "Suc i" xs j] xs j by (simp add: f_def g_def)
  note perm = perm_nth [OF xs(1-3), folded f_def]
  have joined: "orbit g j = orbit f (Suc i) \<union> orbit f j"
    by (rule exchange_joins [OF _ perm _ _ _ g]) (use xs(4) j apart in auto)
  have kept: "orbit g k = orbit f k" if "k \<le> i" "k \<noteq> j" for k
    by (rule exchange_keeps [OF _ _ g]) (use that j apart in auto)
  have "\<exists>k \<le> i. m \<in> orbit g k" if "m < n" for m
  proof -
    obtain k where k: "k \<le> Suc i" "m \<in> orbit f k" using cover \<open>m < n\<close> by blast
    show ?thesis
    proof (cases "k = Suc i \<or> k = j")
      case True then show ?thesis using joined k(2) j by blast
    next
      case False then show ?thesis using kept k by (metis le_SucE)
    qed
  qed
  moreover have "k \<notin> orbit g l" if "k \<le> i" "l \<le> i" "k \<noteq> l" for k l
    using that joined kept [of l] apart [of k "Suc i"] apart [of k l] by (cases "l = j") auto
  moreover have "mset (exchange (Suc i) j xs) = mset xs"
    using xs(1,4) j unfolding exchange_def by (intro mset_swap) auto
  then have "distinct (exchange (Suc i) j xs)" "set (exchange (Suc i) j xs) = {..<n}"
    using xs by (metis mset_eq_imp_distinct_iff, metis mset_eq_setD)
  ultimately show ?thesis using xs by (simp add: sattolo_inv_def g_def exchange_def)
qed

lemma chase_swap_exchange:
  "0 < i \<Longrightarrow> i < length xs \<Longrightarrow> length xs < 2 ^ 64 \<Longrightarrow>
   \<exists>r' j. chase_swap (r, xs) i = (r', exchange i j xs) \<and> j < i"
proof -
  assume i: "0 < i" "i < length xs" "length xs < 2 ^ 64"
  define j where "j = unat (drop_bit 11 (lcg r) mod of_nat i)"
  have "unat (of_nat i :: u64) = i" using i by (simp add: unat_of_nat take_bit_nat_eq_self)
  then have "j < i" using i(1) by (simp add: j_def unat_mod)
  then show ?thesis by (auto simp: chase_swap_def Let_def exchange_def j_def)
qed

lemma sattolo_loop:
  "sattolo_inv n i xs \<Longrightarrow> n < 2 ^ 64 \<Longrightarrow> sattolo_inv n 0 (snd (foldl chase_swap (r, xs) (rev [1..<Suc i])))"
proof (induction i arbitrary: r xs)
  case (Suc i)
  have len: "Suc i < length xs" "length xs < 2 ^ 64" using Suc.prems by (auto simp: sattolo_inv_def)
  obtain r' j where j: "chase_swap (r, xs) (Suc i) = (r', exchange (Suc i) j xs)" "j < Suc i"
    using chase_swap_exchange [OF zero_less_Suc len] by metis
  have "sattolo_inv n i (exchange (Suc i) j xs)" using sattolo_step [OF Suc.prems(1)] j(2) by simp
  then show ?case using Suc.IH [OF _ Suc.prems(2)] j(1) by simp
qed simp

lemma mem_chase_funpow: "mem_chase_loop xs i h = (nth xs ^^ h) i"
  by (induction h arbitrary: i) (simp_all add: funpow_swap1)

lemma single_orbit:
  assumes "inj_on f S" "f ` S \<subseteq> S" "finite S" "x \<in> S" "S \<subseteq> orbit f x"
  shows "distinct (map (\<lambda>a. (f ^^ a) x) [0..<card S])" "(\<lambda>a. (f ^^ a) x) ` {..<card S} = S" "(f ^^ card S) x = x"
proof -
  define P where "P p \<longleftrightarrow> 0 < p \<and> (f ^^ p) x = x" for p
  have "\<exists>p. P p" using perm_returns [OF assms(3,1,2,4)] by (simp add: P_def)
  then obtain p where p: "P p" "\<And>q. q < p \<Longrightarrow> \<not> P q" using exists_least_iff [of P] by blast
  have inj: "inj_on (\<lambda>a. (f ^^ a) x) {..<p}"
  proof (rule linorder_inj_onI)
    fix a b assume "a < b" "a \<in> {..<p}" "b \<in> {..<p}"
    then show "(f ^^ a) x \<noteq> (f ^^ b) x"
      using perm_difference [OF assms(1,2,4), of a b] p(2) [of "b - a"] by (auto simp: P_def)
  qed auto
  have "orbit f x \<subseteq> (\<lambda>a. (f ^^ a) x) ` {..<p}"
  proof (rule orbit_least)
    show "x \<in> (\<lambda>a. (f ^^ a) x) ` {..<p}" using p(1) by (auto simp: P_def intro: image_eqI [of _ _ 0])
    fix y assume "y \<in> (\<lambda>a. (f ^^ a) x) ` {..<p}"
    then obtain a where a: "a < p" "y = (f ^^ a) x" by auto
    show "f y \<in> (\<lambda>a. (f ^^ a) x) ` {..<p}"
    proof (cases "Suc a = p")
      case True
      then have "f y = (f ^^ 0) x" using p(1) a by (auto simp: P_def)
      then show ?thesis using p(1) by (auto simp: P_def intro: image_eqI [of _ _ 0])
    next
      case False
      then show ?thesis using a by (auto intro: image_eqI [of _ _ "Suc a"])
    qed
  qed
  then have eq: "(\<lambda>a. (f ^^ a) x) ` {..<p} = S"
    using assms(5) perm_stays [OF assms(2,4)] by blast
  then have "card S = p" using card_image [OF inj] by simp
  then show "distinct (map (\<lambda>a. (f ^^ a) x) [0..<card S])" "(\<lambda>a. (f ^^ a) x) ` {..<card S} = S" "(f ^^ card S) x = x"
    using eq inj p(1) by (simp_all add: distinct_map lessThan_atLeast0 P_def)
qed

section \<open>The property\<close>

text \<open>C40: \<open>build_chase(n)\<close> leaves a permutation of \<open>0, \<dots>, n - 1\<close> that is one cycle, whatever the generator draws:
  following it from slot 0, \<open>mem_chase\<close> is at a different slot after each of the first \<open>n\<close> numbers of hops,
  these are all the slots, and after exactly \<open>n\<close> hops it is back at slot 0.\<close>

theorem chase_single_cycle:
  assumes "0 < n" "n < 2 ^ 64"
  shows "length (build_chase n) = n \<and> set (build_chase n) = {..<n} \<and>
    distinct (map (mem_chase (build_chase n)) [0..<n]) \<and>
    mem_chase (build_chase n) ` {..<n} = {..<n} \<and> mem_chase (build_chase n) n = 0"
proof -
  have "sattolo_inv n 0 (build_chase n)"
    using sattolo_loop [OF sattolo_init [OF assms(1)] assms(2)] assms(1) by (simp add: build_chase_def)
  then have xs: "length (build_chase n) = n" "distinct (build_chase n)" "set (build_chase n) = {..<n}"
    and all: "{..<n} \<subseteq> orbit (nth (build_chase n)) 0"
    by (auto simp: sattolo_inv_def)
  have chase: "mem_chase (build_chase n) = (\<lambda>a. (nth (build_chase n) ^^ a) 0)"
    by (simp add: fun_eq_iff mem_chase_def mem_chase_funpow)
  show ?thesis
    using single_orbit [OF perm_nth [OF xs] finite_lessThan _ all] assms(1) xs by (simp add: chase)
qed

theorem chase_single_cycle_witness:
  "mem_chase (build_chase 5) 5 = 0 \<and> distinct (map (mem_chase (build_chase 5)) [0..<5])"
  using chase_single_cycle [of 5] by simp

end
