(* ===== verification/BENCH_Disk.thy ===== *)
theory BENCH_Disk
  imports Prelude
begin

unbundle bit_operations_syntax

text \<open>
  The disk section of \<^verbatim>\<open>src/tools/eclipse-bench/eclipse-bench.c\<close>: how \<open>main\<close> caps the size of the tests to the free space,
  and what \<open>disk_seq_write\<close>, \<open>disk_rand_read\<close>, \<open>disk_fsync_ms\<close> and \<open>disk_metadata\<close> do to the file system. A file is its
  size. The kernel is a parameter: what each \<open>open\<close>, \<open>write\<close>, \<open>unlink\<close> and reading of the clock returns may
  depend on the number of calls made before. The rates printed, which are doubles, are not modelled, nor are the
  readings of the clock that only serve to compute them; a function whose result is negative in the code returns
  \<open>False\<close> here. \<open>disk_seq_read\<close> and the \<open>stat\<close> loop change nothing and are left out.

  The lemmas show that the streaming test stays within a third of the free space, that random reads stay in the
  file, and that the section leaves no file behind when the kernel deletes and writes what it is asked to.
\<close>

section \<open>The kernel\<close>

record bench_kernel =
  k_open :: "nat \<Rightarrow> string \<Rightarrow> bool"
  k_write :: "nat \<Rightarrow> nat \<Rightarrow> int"
  k_unlink :: "nat \<Rightarrow> bool"
  k_clock :: "nat \<Rightarrow> u64"

record bench_world =
  files :: "string \<rightharpoonup> nat"
  calls :: nat

text \<open>\<open>open(path, O_WRONLY | O_CREAT | O_TRUNC, 0644)\<close>, \<open>write\<close> at the end of the open file, \<open>unlink\<close>, \<open>now_ns\<close>.\<close>

definition b_open :: "bench_kernel \<Rightarrow> string \<Rightarrow> bench_world \<Rightarrow> bool \<times> bench_world" where
  "b_open k path w =
     (let ok = k_open k (calls w) path
      in (ok, w\<lparr>files := (if ok then (files w)(path \<mapsto> 0) else files w), calls := Suc (calls w)\<rparr>))"

definition b_write :: "bench_kernel \<Rightarrow> string \<Rightarrow> nat \<Rightarrow> bench_world \<Rightarrow> int \<times> bench_world" where
  "b_write k path n w =
     (let r = k_write k (calls w) n
      in (r, w\<lparr>files := (files w)(path := map_option (\<lambda>s. s + nat r) (files w path)), calls := Suc (calls w)\<rparr>))"

definition b_unlink :: "bench_kernel \<Rightarrow> string \<Rightarrow> bench_world \<Rightarrow> bool \<times> bench_world" where
  "b_unlink k path w =
     (let ok = k_unlink k (calls w)
      in (ok, w\<lparr>files := (if ok then (files w)(path := None) else files w), calls := Suc (calls w)\<rparr>))"

definition now_ns :: "bench_kernel \<Rightarrow> bench_world \<Rightarrow> u64 \<times> bench_world" where
  "now_ns k w = (k_clock k (calls w), w\<lparr>calls := Suc (calls w)\<rparr>)"

section \<open>Sizes\<close>

record statvfs =
  f_bavail :: u64
  f_frsize :: u64
  f_bsize :: u64

definition mib :: "u64 \<Rightarrow> u64" where
  "mib n = n * 1024 * 1024"

definition vfs_free :: "statvfs \<Rightarrow> u64" where
  "vfs_free vfs = f_bavail vfs * (if f_frsize vfs \<noteq> 0 then f_frsize vfs else f_bsize vfs)"

text \<open>\<open>dbytes\<close> and \<open>meta_max\<close> after the block that caps them.\<close>

definition disk_caps :: "statvfs option \<Rightarrow> u64 \<Rightarrow> u64 \<times> nat" where
  "disk_caps statvfs disk_mb =
     (let dbytes = mib disk_mb; meta_max = 4000 in
      case statvfs of
        Some vfs \<Rightarrow>
          if 0 < f_bavail vfs then
            let usable = vfs_free vfs div 3; mm = usable div (8 * 1024)
            in (if dbytes > usable then usable else dbytes,
                if mm < of_nat meta_max then unat mm else meta_max)
          else (if dbytes > 4 * 1024 * 1024 then 4 * 1024 * 1024 else dbytes, if meta_max > 500 then 500 else meta_max)
      | None \<Rightarrow> (if dbytes > 4 * 1024 * 1024 then 4 * 1024 * 1024 else dbytes, if meta_max > 500 then 500 else meta_max))"

definition chase_slots :: "u64 \<Rightarrow> u64" where
  "chase_slots mem_mb = mib mem_mb div 8"

section \<open>The tests\<close>

function seq_write_loop :: "bench_kernel \<Rightarrow> string \<Rightarrow> nat \<Rightarrow> nat \<Rightarrow> nat \<Rightarrow> bench_world \<Rightarrow> bool \<times> bench_world" where
  "seq_write_loop k path bytes chunk done w =
     (if done < bytes then
        let want = (if bytes - done < chunk then bytes - done else chunk);
            (r, w') = b_write k path want w
        in if r \<le> 0 then (False, w') else seq_write_loop k path bytes chunk (done + nat r) w'
      else (True, w))"
  by pat_completeness auto
termination
  by (relation "measure (\<lambda>(k, path, bytes, chunk, done, w). bytes - done)") auto

declare seq_write_loop.simps [simp del]

definition disk_seq_write :: "bench_kernel \<Rightarrow> string \<Rightarrow> nat \<Rightarrow> nat \<Rightarrow> bench_world \<Rightarrow> bool \<times> bench_world" where
  "disk_seq_write k path bytes chunk w =
     (let (ok, w) = b_open k path w in
      if \<not> ok then (False, w)
      else seq_write_loop k path bytes chunk 0 w)"

text \<open>The offsets of the random reads: the generator and the block chosen.\<close>

definition rand_read_step :: "nat \<Rightarrow> u64 \<Rightarrow> u64 \<times> nat" where
  "rand_read_step nblk r =
     (let r = r * 6364136223846793005 + 1442695040888963407
      in (r, unat (drop_bit 12 r mod of_nat nblk) * 4096))"

fun rand_read_offsets :: "nat \<Rightarrow> u64 \<Rightarrow> nat \<Rightarrow> nat list" where
  "rand_read_offsets nblk r 0 = []"
| "rand_read_offsets nblk r (Suc n) =
     (let (r, off) = rand_read_step nblk r in off # rand_read_offsets nblk r n)"

text \<open>The offsets of the first \<open>n\<close> calls of \<open>pread\<close>; \<open>None\<close> when the file has no whole block.\<close>

definition disk_rand_read :: "nat \<Rightarrow> nat \<Rightarrow> nat list option" where
  "disk_rand_read bytes n =
     (let nblk = bytes div 4096 in if nblk = 0 then None else Some (rand_read_offsets nblk 0x1234567890abcdef n))"

fun fsync_loop :: "bench_kernel \<Rightarrow> string \<Rightarrow> nat \<Rightarrow> bench_world \<Rightarrow> bool \<times> bench_world" where
  "fsync_loop k path 0 w = (True, w)"
| "fsync_loop k path (Suc i) w =
     (let (r, w) = b_write k path 4096 w in
      if r \<noteq> 4096 then (False, w) else fsync_loop k path i w)"

definition disk_fsync_ms :: "bench_kernel \<Rightarrow> string \<Rightarrow> bench_world \<Rightarrow> bool \<times> bench_world" where
  "disk_fsync_ms k path w =
     (let (ok, w) = b_open k path w in if \<not> ok then (False, w) else fsync_loop k path 8 w)"

text \<open>\<open>snprintf(path, sizeof path, "%s/eb_%06d", dir, i)\<close> into 512 bytes.\<close>

definition pad6 :: "nat \<Rightarrow> string" where
  "pad6 i = (let s = show_nat i in replicate (6 - length s) CHR ''0'' @ s)"

definition eb_path :: "string \<Rightarrow> nat \<Rightarrow> string" where
  "eb_path dir i = take 511 (dir @ ''/eb_'' @ pad6 i)"

function create_loop :: "bench_kernel \<Rightarrow> string \<Rightarrow> u64 \<Rightarrow> nat \<Rightarrow> u64 \<Rightarrow> nat \<Rightarrow> bench_world \<Rightarrow> nat \<times> bench_world" where
  "create_loop k dir budget_ns max_files t0 made w =
     (if \<not> made < max_files then (made, w)
      else
        let (t, w) = now_ns k w in
        if \<not> t - t0 < budget_ns then (made, w)
        else
          let (ok, w) = b_open k (eb_path dir made) w in
          if \<not> ok then (made, w)
          else
            let (r, w) = b_write k (eb_path dir made) 1 w in
            if r \<noteq> 1 then (made, w) else create_loop k dir budget_ns max_files t0 (Suc made) w)"
  by pat_completeness auto
termination
  by (relation "measure (\<lambda>(k, dir, budget_ns, max_files, t0, made, w). max_files - made)") auto

declare create_loop.simps [simp del]

fun unlink_loop :: "bench_kernel \<Rightarrow> string \<Rightarrow> nat list \<Rightarrow> bench_world \<Rightarrow> bench_world" where
  "unlink_loop k dir [] w = w"
| "unlink_loop k dir (i # is) w = unlink_loop k dir is (snd (b_unlink k (eb_path dir i) w))"

definition disk_metadata :: "bench_kernel \<Rightarrow> string \<Rightarrow> u64 \<Rightarrow> nat \<Rightarrow> bench_world \<Rightarrow> nat \<times> bench_world" where
  "disk_metadata k dir budget_ns max_files w =
     (let (t0, w) = now_ns k w;
          (made, w) = create_loop k dir budget_ns max_files t0 0 w
      in (made, unlink_loop k dir [0..<made] w))"

definition BUDGET_NS :: u64 where "BUDGET_NS = 400000000"

text \<open>The disk section of \<open>main\<close>, after the sizes are capped. \<open>io\<close> says whether the buffer was allocated.\<close>

definition bench_disk :: "bench_kernel \<Rightarrow> bool \<Rightarrow> string \<Rightarrow> u64 \<times> nat \<Rightarrow> bench_world \<Rightarrow> bench_world" where
  "bench_disk k io dir = (\<lambda>(dbytes, meta_max) w.
     if \<not> io then w
     else
       let fpath = take 511 (dir @ ''/eclipse-bench.dat'');
           w = (if dbytes \<ge> 1024 * 1024 then
                  let (_, w) = disk_seq_write k fpath (unat dbytes) (256 * 1024) w;
                      (_, w) = disk_fsync_ms k fpath w;
                      (_, w) = b_unlink k fpath w
                  in w
                else w)
       in if meta_max \<ge> 20 then snd (disk_metadata k dir BUDGET_NS meta_max w) else w)"

section \<open>Sizes stay within the free space\<close>

lemma disk_caps_bounds:
  assumes "disk_caps (Some vfs) disk_mb = (dbytes, meta_max)" "0 < f_bavail vfs"
  shows "3 * unat dbytes \<le> unat (vfs_free vfs)" "3 * (8192 * meta_max) \<le> unat (vfs_free vfs)"
proof -
  have third: "3 * (n div 3) \<le> n" for n :: nat by simp
  have "dbytes \<le> vfs_free vfs div 3" using assms by (auto simp: disk_caps_def Let_def split: if_splits)
  then have "unat dbytes \<le> unat (vfs_free vfs) div 3" by (simp add: word_le_nat_alt unat_div)
  then show "3 * unat dbytes \<le> unat (vfs_free vfs)" using third [of "unat (vfs_free vfs)"] by linarith
  have "meta_max \<le> unat (vfs_free vfs div 3 div 8192)"
    using assms by (auto simp: disk_caps_def Let_def word_less_nat_alt split: if_splits)
  then have "8192 * meta_max \<le> unat (vfs_free vfs) div 3" by (simp add: unat_div) 
  then show "3 * (8192 * meta_max) \<le> unat (vfs_free vfs)" using third [of "unat (vfs_free vfs)"] by linarith
qed

lemma seq_write_loop_size:
  assumes "\<And>t n. k_write k t n \<le> int n"
  shows "seq_write_loop k path bytes chunk done w = (ok, w') \<Longrightarrow> files w path = Some done \<Longrightarrow> done \<le> bytes \<Longrightarrow>
    (\<exists>size \<le> bytes. files w' path = Some size \<and> (ok \<longrightarrow> size = bytes)) \<and> (\<forall>p. p \<noteq> path \<longrightarrow> files w' p = files w p)"
proof (induction "bytes - done" arbitrary: "done" w rule: less_induct)
  case less
  show ?case
  proof (cases "done < bytes")
    case False
    then show ?thesis using less.prems by (subst (asm) seq_write_loop.simps) auto
  next
    case True
    define want where "want = (if bytes - done < chunk then bytes - done else chunk)"
    obtain r v where v: "b_write k path want w = (r, v)" by (cases "b_write k path want w")
    have fv: "files v = (files w)(path := Some (done + nat r))" and r: "r \<le> int want" and want: "want \<le> bytes - done"
      using v less.prems(2) assms by (auto simp: b_write_def Let_def want_def)
    have loop: "(if r \<le> 0 then (False, v) else seq_write_loop k path bytes chunk (done + nat r) v) = (ok, w')"
      using less.prems(1) True v by (subst (asm) seq_write_loop.simps) (simp add: want_def Let_def)
    show ?thesis
    proof (cases "r \<le> 0")
      case True
      then show ?thesis using loop fv less.prems(3) by auto
    next
      case False
      then have "done + nat r \<le> bytes" "bytes - (done + nat r) < bytes - done" using r want True by linarith+
      then show ?thesis using less.hyps [of "done + nat r" v] loop fv False by auto
    qed
  qed
qed

lemma disk_seq_write_size:
  assumes "\<And>t n. k_write k t n \<le> int n" "disk_seq_write k path bytes chunk w = (ok, w')"
  shows "(ok \<longrightarrow> files w' path = Some bytes) \<and> (\<forall>p. p \<noteq> path \<longrightarrow> files w' p = files w p) \<and>
    (files w' path = files w path \<or> (\<exists>size \<le> bytes. files w' path = Some size))"
proof -
  obtain op v where v: "b_open k path w = (op, v)" by (cases "b_open k path w")
  show ?thesis
  proof (cases op)
    case True
    then have "files v = (files w)(path \<mapsto> 0)" "seq_write_loop k path bytes chunk 0 v = (ok, w')"
      using v assms(2) by (auto simp: b_open_def disk_seq_write_def Let_def)
    then show ?thesis using seq_write_loop_size [OF assms(1), of path bytes chunk 0 v ok w'] by fastforce
  next
    case False
    then show ?thesis using v assms(2) by (auto simp: b_open_def disk_seq_write_def Let_def)
  qed
qed

section \<open>Random reads stay in the file\<close>

lemma rand_read_step_in_file:
  assumes "0 < nblk" "nblk < 2 ^ 64"
  shows "snd (rand_read_step nblk r) + 4096 \<le> nblk * 4096" "snd (rand_read_step nblk r) mod 4096 = 0"
proof -
  define x where "x = drop_bit 12 (r * 6364136223846793005 + 1442695040888963407) mod (of_nat nblk :: u64)"
  have "unat (of_nat nblk :: u64) = nblk" using assms(2) by (intro unat_of_nat_eq) simp
  then have "unat x < nblk" using assms(1) by (simp add: x_def unat_mod)
  then show "snd (rand_read_step nblk r) + 4096 \<le> nblk * 4096" "snd (rand_read_step nblk r) mod 4096 = 0"
    by (simp_all add: rand_read_step_def Let_def flip: x_def)
qed

lemma rand_read_offsets_in_file:
  "0 < nblk \<Longrightarrow> nblk < 2 ^ 64 \<Longrightarrow> off \<in> set (rand_read_offsets nblk r n) \<Longrightarrow> off + 4096 \<le> nblk * 4096 \<and> off mod 4096 = 0"
proof (induction n arbitrary: r)
  case (Suc n)
  obtain r' x where "rand_read_step nblk r = (r', x)" by (cases "rand_read_step nblk r")
  then show ?case using Suc rand_read_step_in_file [of nblk r] by auto
qed simp

section \<open>Nothing is left behind\<close>

lemma create_loop_files:
  assumes "\<And>t. k_write k t 1 = 1"
  shows "create_loop k dir b m t0 made w = (made', w') \<Longrightarrow>
    made \<le> made' \<and> made' \<le> max m made \<and>
    (\<forall>p. files w' p = files w p \<or> (\<exists>i. made \<le> i \<and> i < made' \<and> p = eb_path dir i))"
proof (induction "m - made" arbitrary: made w rule: less_induct)
  case less
  obtain t w1 where w1: "now_ns k w = (t, w1)" by (cases "now_ns k w")
  obtain op w2 where w2: "b_open k (eb_path dir made) w1 = (op, w2)" by (cases "b_open k (eb_path dir made) w1")
  obtain r w3 where w3: "b_write k (eb_path dir made) 1 w2 = (r, w3)" by (cases "b_write k (eb_path dir made) 1 w2")
  have f1: "files w1 = files w" using w1 by (auto simp: now_ns_def)
  have f2: "\<not> op \<Longrightarrow> files w2 = files w" using w2 f1 by (auto simp: b_open_def Let_def)
  have f3: "p \<noteq> eb_path dir made \<Longrightarrow> files w3 p = files w p" for p
    using w2 w3 f1 by (auto simp: b_open_def b_write_def Let_def split: if_splits)
  have r: "r = 1" using w3 assms by (auto simp: b_write_def Let_def)
  show ?case
  proof (cases "made < m \<and> t - t0 < b \<and> op")
    case True
    then have "create_loop k dir b m t0 (Suc made) w3 = (made', w')"
      using less.prems w1 w2 w3 r by (subst (asm) create_loop.simps) (simp add: Let_def)
    moreover have "m - Suc made < m - made" using True by (intro diff_less_mono2) auto
    ultimately have IH: "Suc made \<le> made' \<and> made' \<le> max m (Suc made) \<and>
      (\<forall>p. files w' p = files w3 p \<or> (\<exists>i. Suc made \<le> i \<and> i < made' \<and> p = eb_path dir i))"
      using less.hyps by blast
    then have "made' \<le> max m made" "made \<le> made'" using True by auto
    moreover have "files w' p = files w p \<or> (\<exists>i. made \<le> i \<and> i < made' \<and> p = eb_path dir i)" for p
      using IH f3 [of p] by (metis Suc_leD le_refl Suc_le_lessD)
    ultimately show ?thesis by blast
  next
    case False
    then have "made' = made \<and> files w' = files w"
      using less.prems w1 w2 f1 f2 by (subst (asm) create_loop.simps) (auto simp: Let_def split: if_splits)
    then show ?thesis by simp
  qed
qed

lemma unlink_loop_files:
  assumes "\<And>t. k_unlink k t"
  shows "files (unlink_loop k dir is w) p = (if \<exists>i \<in> set is. p = eb_path dir i then None else files w p)"
  by (induction "is" arbitrary: w) (auto simp: b_unlink_def Let_def assms)

lemma disk_metadata_files:
  assumes "\<And>t. k_write k t 1 = 1" "\<And>t. k_unlink k t" "disk_metadata k dir b m w = (made, w')"
  shows "made \<le> m" "files w' p = (if \<exists>i < made. p = eb_path dir i then None else files w p)"
proof -
  obtain t w1 where w1: "now_ns k w = (t, w1)" by (cases "now_ns k w")
  obtain made' w2 where w2: "create_loop k dir b m t 0 w1 = (made', w2)" by (cases "create_loop k dir b m t 0 w1")
  have "files w1 = files w" using w1 by (auto simp: now_ns_def)
  moreover have "made' = made" "w' = unlink_loop k dir [0..<made] w2"
    using assms(3) w1 w2 by (auto simp: disk_metadata_def Let_def)
  ultimately show "made \<le> m" "files w' p = (if \<exists>i < made. p = eb_path dir i then None else files w p)"
    using create_loop_files [OF assms(1) w2] unlink_loop_files [of k dir "[0..<made]" w2 p, OF assms(2)] by fastforce+
qed

lemma fsync_loop_files: "p \<noteq> path \<Longrightarrow> files (snd (fsync_loop k path n w)) p = files w p"
  by (induction n arbitrary: w) (auto simp: b_write_def Let_def)

lemma disk_fsync_files: "p \<noteq> path \<Longrightarrow> files (snd (disk_fsync_ms k path w)) p = files w p"
  by (auto simp: disk_fsync_ms_def b_open_def Let_def fsync_loop_files)

text \<open>\<open>main\<close> takes any \<open>MEM_MB\<close>; a huge one makes the multiplication wrap and passes 0 slots to \<open>build_chase\<close>,
  whose loop then starts at \<open>SIZE_MAX\<close>.\<close>

lemma chase_empty: "chase_slots (2 ^ 44) = 0"
  by (simp add: chase_slots_def mib_def)


section \<open>The properties\<close>

text \<open>The streaming test writes at most a third of the space that was free, to the one file, and reports success only
  when the file has the size asked for.\<close>

theorem disk_stream_bounded:
  assumes "\<And>t n. k_write k t n \<le> int n" "0 < f_bavail vfs" "disk_caps (Some vfs) disk_mb = (dbytes, meta_max)"
    and "disk_seq_write k path (unat dbytes) chunk w = (ok, w')"
  shows "(ok \<longrightarrow> files w' path = Some (unat dbytes)) \<and> (\<forall>p. p \<noteq> path \<longrightarrow> files w' p = files w p) \<and>
    (files w' path = files w path \<or> (\<exists>size. files w' path = Some size \<and> 3 * size \<le> unat (vfs_free vfs)))"
proof -
  have "size \<le> unat dbytes \<Longrightarrow> 3 * size \<le> unat (vfs_free vfs)" for size
    using disk_caps_bounds(1) [OF assms(3,2)] by linarith
  then show ?thesis using disk_seq_write_size [OF assms(1,4)] by blast
qed

text \<open>Whatever the sizes asked for and whatever the kernel answers to \<open>open\<close> and to long writes, the disk section
  leaves no test file behind as long as the kernel deletes the files it is asked to delete and writes the single
  byte of each small file: every path is as it was or gone, and only \<open>eclipse-bench.dat\<close> and the files
  \<open>eb_000000\<close>, \<dots>, \<open>eb_003999\<close> of the directory can be touched at all.\<close>

theorem bench_disk_leaves_nothing:
  assumes "\<And>t n. k_write k t n \<le> int n" "\<And>t. k_write k t 1 = 1" "\<And>t. k_unlink k t"
  shows "(files (bench_disk k io dir (disk_caps vfs disk_mb) w) p = files w p \<or>
      files (bench_disk k io dir (disk_caps vfs disk_mb) w) p = None) \<and>
    (p \<noteq> take 511 (dir @ ''/eclipse-bench.dat'') \<and> (\<forall>i < 4000. p \<noteq> eb_path dir i) \<longrightarrow>
      files (bench_disk k io dir (disk_caps vfs disk_mb) w) p = files w p)"
proof -
  obtain dbytes m where caps: "disk_caps vfs disk_mb = (dbytes, m)" by (cases "disk_caps vfs disk_mb")
  have m: "m \<le> 4000"
    using caps by (auto simp: disk_caps_def Let_def word_less_nat_alt split: option.splits if_splits)
  let ?f = "take 511 (dir @ ''/eclipse-bench.dat'')"
  define v where "v = (if dbytes \<ge> 1024 * 1024 then snd (b_unlink k ?f (snd (disk_fsync_ms k ?f
      (snd (disk_seq_write k ?f (unat dbytes) (256 * 1024) w))))) else w)"
  have stream: "files v p = (if p = ?f \<and> dbytes \<ge> 1024 * 1024 then None else files w p)" for p
  proof -
    obtain ok u where "disk_seq_write k ?f (unat dbytes) (256 * 1024) w = (ok, u)"
      by (cases "disk_seq_write k ?f (unat dbytes) (256 * 1024) w")
    then show ?thesis
      using disk_seq_write_size [OF assms(1), of ?f "unat dbytes" "256 * 1024" w ok u]
      by (auto simp: v_def b_unlink_def Let_def assms(3) disk_fsync_files)
  qed
  obtain made u where u: "disk_metadata k dir BUDGET_NS m v = (made, u)" by (cases "disk_metadata k dir BUDGET_NS m v")
  have "bench_disk k io dir (dbytes, m) w = (if \<not> io then w else if m \<ge> 20 then snd (disk_metadata k dir BUDGET_NS m v) else v)"
    by (simp add: bench_disk_def Let_def case_prod_beta v_def)
  then have "bench_disk k io dir (dbytes, m) w = (if \<not> io then w else if m \<ge> 20 then u else v)" by (simp add: u)
  moreover have "made \<le> 4000" using disk_metadata_files(1) [OF assms(2,3) u] m by linarith
  then have "\<exists>i < made. p = eb_path dir i \<Longrightarrow> \<exists>i < 4000. p = eb_path dir i" using less_le_trans by blast
  ultimately show ?thesis
    unfolding caps using disk_metadata_files(2) [OF assms(2,3) u, of p] stream [of p]
    by (cases "\<exists>i < made. p = eb_path dir i") (simp; blast)+
qed

definition obedient_kernel :: bench_kernel where
  "obedient_kernel = \<lparr>k_open = (\<lambda>_ _. True), k_write = (\<lambda>_ n. int n), k_unlink = (\<lambda>_. True), k_clock = (\<lambda>_. 0)\<rparr>"

theorem bench_disk_leaves_nothing_witness:
  "files (bench_disk obedient_kernel True ''/d'' (disk_caps None 1) \<lparr>files = [''/etc'' \<mapsto> 5], calls = 0\<rparr>) ''/etc'' = Some 5"
proof -
  have "''/etc'' \<noteq> take 511 (''/d'' @ ''/eclipse-bench.dat'')" "\<forall>i < 4000. ''/etc'' \<noteq> eb_path ''/d'' i"
    by (simp_all add: eb_path_def)
  then show ?thesis
    using bench_disk_leaves_nothing [of obedient_kernel True "''/d''" None 1 "\<lparr>files = [''/etc'' \<mapsto> 5], calls = 0\<rparr>" "''/etc''"]
    by (simp add: obedient_kernel_def)
qed

text \<open>The write law is needed: a small file whose byte cannot be written, on a full disk say, is created, not counted,
  and so never deleted.\<close>

lemma full_disk_leaves_file:
  assumes "\<And>t p. k_open k t p" "\<And>t. k_write k t 1 = - 1" "\<And>t. k_clock k t = 0" "0 < budget" "0 < m"
  shows "\<exists>w'. disk_metadata k dir budget m w = (0, w') \<and> files w' (eb_path dir 0) = Some 0"
  using assms by (simp add: disk_metadata_def now_ns_def create_loop.simps b_open_def b_write_def Let_def)

end
