(* ===== verification/Spec2Isabelle.thy ===== *)
theory Spec2Isabelle
  imports UA_Properties UA_Locking DHCP_Properties INST_Install ND_Correct THR_Pingpong THR_Mutex BENCH_Chase BENCH_Disk
begin

text \<open>
  Verification of the C programs of Eclipse OS.

  \<^bold>\<open>The system.\<close> Eclipse OS is a kernel written in Rust with a userland around it. The C code that is the
  project's own lies below \<^verbatim>\<open>src/tools\<close>. Three programs configure a system and are modelled completely:

  \<^item> \<^verbatim>\<open>eclipse-useradd/eclipse-useradd.c\<close> manages accounts: three text databases (users, shadow entries, groups)
    that are rewritten as a whole under file locks, and password hashes by its own BLAKE2b and Argon2id;
  \<^item> \<^verbatim>\<open>edhcpc/edhcpc.c\<close> is the DHCP client: it builds and parses DHCP messages on a packet socket and a UDP
    socket, then configures address and route through netlink and writes \<^verbatim>\<open>resolv.conf\<close>;
  \<^item> \<^verbatim>\<open>install-eclipse/install-eclipse.c\<close> is the installer: it plans and writes a partition table, writes
    compressed images to the partitions, patches \<^verbatim>\<open>/etc/fstab\<close> and \<^verbatim>\<open>rboot.conf\<close> inside them, or upgrades
    an existing installation.

  Tools that inspect, test or measure the kernel are modelled where their code has logic of its own:

  \<^item> \<^verbatim>\<open>nl_dump/nl_dump.c\<close> asks the kernel for its links or addresses and prints them;
  \<^item> \<^verbatim>\<open>thread-tests/thr2.c\<close> and \<^verbatim>\<open>thread-tests/thr3.c\<close> look for lost wake-ups with a futex ping-pong and with copies of
    musl's mutex, condition variable and barrier;
  \<^item> \<^verbatim>\<open>eclipse-bench/eclipse-bench.c\<close> measures CPU, memory, disk and process creation.

  The programs do not call each other; they meet in the installed system only. Within a program the theories
  follow the order of its functions.

  \<^bold>\<open>Prelude.\<close> \<open>Prelude\<close> has the machine types (\<open>byte\<close> to \<open>u64\<close>), the functions of the C library the
  programs use (\<open>fgets\<close>, \<open>strtok_r\<close>, \<open>strtoul\<close>, number printing), little-endian stores and loads, and the
  locale \<open>streaming\<close>: a hash that is fed in pieces gives the same state as one fed at once. It is interpreted
  for BLAKE2b (\<open>b2b\<close>) and SHA-256 (\<open>sha\<close>).

  \<^bold>\<open>eclipse-useradd.\<close>

  \<^item> \<open>UA_Strings\<close>: trimming, bounded copies, validators, comma-separated lists in 512-byte buffers. The locale
    \<open>bounded_set\<close> is their contract.
  \<^item> \<open>UA_System\<close>: the operating system as a record \<open>os\<close> (files with modes and owners, directories, home trees,
    locks, terminal, clock, an oracle \<open>sched\<close> that decides every fallible call), \<open>write_atomic_text_file\<close>,
    \<open>lock_db_files\<close>, \<open>recursive_delete_path\<close>, \<open>create_home_directory\<close>, console input.
  \<^item> \<open>UA_Database\<close>: the record types, \<open>split_fields_preserve_empty\<close>, loaders and savers, look-ups, user ids,
    group members. The locales \<open>line_codec\<close> (a line printed is parsed back) and \<open>keyed_table\<close> (look-up by a
    key) are interpreted for the three databases; \<open>UA_Memberships\<close> shows what the recomputed group members are.
  \<^item> \<open>UA_Base64\<close>, \<open>UA_Blake2b\<close>, \<open>UA_Argon2\<close>: bit-exact on machine words, with reference definitions.
  \<^item> \<open>UA_Commands\<close>: options, the commands \<open>init\<close>, \<open>useradd\<close>, \<open>userdel\<close>, \<open>usermod\<close>, \<open>passwd\<close> and the listings,
    the menu and \<open>main\<close>, with every early return. A write past the end of an array is the outcome \<open>Corrupt\<close>.
  \<^item> \<open>UA_Correct\<close>, \<open>UA_Effects\<close>, \<open>UA_Examples\<close>: the abstraction of the files to databases and
    its invariant, what each command does to it, concrete runs. \<open>UA_Locking\<close>: several processes as a step relation, with the
    lock protocol's invariant by rule induction.
  \<^item> \<open>UA_Properties\<close>: the stated properties. They say what a successful command does to the databases, that the
    invariant is kept, that locks are released on every path, that files are replaced atomically, that
    stored passwords are accepted and others are not, and that the codecs and hashes equal their references.

  \<^bold>\<open>edhcpc.\<close>

  \<^item> \<open>DHCP_Checksum\<close>, \<open>DHCP_Message\<close>, \<open>DHCP_Frame\<close>, \<open>DHCP_Netlink\<close>: checksums and masks, messages and options as byte
    images of the packed structures, frames, netlink requests and answers.
  \<^item> \<open>DHCP_Client\<close>: the record \<open>net\<close> (incoming traffic, clock and results of the calls as functions of the number
    of calls made so far, a log of what was sent) and the client from the options to the exit status. The
    waiting loops are partial functions whose value \<open>None\<close> means that they never return.
  \<^item> \<open>DHCP_Correct\<close>, \<open>DHCP_Examples\<close>, \<open>DHCP_Properties\<close>: that the client returns if the clock passes its
    deadlines and the kernel answers, that it configures nothing without an OFFER and an ACK of its own
    transaction, what it accepts and sends, round trips of messages and requests.

  \<^bold>\<open>install-eclipse.\<close>

  \<^item> \<open>INST_SHA256\<close> (with FIPS 180-4 as reference), \<open>INST_Plan\<close> (the planner on 64-bit sectors), \<open>INST_Disk\<close> (the
    record \<open>inst\<close>, sizes, \<open>disk_pread_all\<close>, \<open>disk_pwrite_all\<close>, commands), \<open>INST_Table\<close> (GPT and MBR written
    and read as byte images), \<open>INST_Fstab\<close> (placeholders), \<open>INST_Image\<close> (checksum test, decompression,
    read-back, copying), \<open>INST_Dialogue\<close> (options, disks, prompts), \<open>INST_Main\<close> (both modes and \<open>main\<close>).
  \<^item> \<open>INST_Table_Correct\<close>, \<open>INST_Correct\<close>, \<open>INST_Fstab_Correct\<close>, \<open>INST_Image_Correct\<close>, \<open>INST_Main_Correct\<close>: the lemmas. A
    frame is a relation between the state before and after (\<open>same_but_outs\<close>, \<open>only_dev\<close>, \<open>untouched\<close>);
    the locale \<open>frame\<close> carries one through loops.
  \<^item> \<open>INST_Properties\<close>, \<open>INST_Main_Properties\<close>: plans are sound and refused exactly when the disk is too small, writes are exact
    and end, both GPT copies are valid and found again, images and fstab lines are where they should be,
    a dry run touches nothing, and nothing is touched before images, plan and user agree. \<open>INST_Install\<close> composes the
    stages: what is on the disk and on both partitions after a successful new installation.

  \<^bold>\<open>nl_dump.\<close> \<open>ND_Dump\<close> is the program on a receive buffer of 8192 bytes that keeps old contents. It shares the netlink layout
  of \<open>DHCP_Netlink\<close>. In \<open>ND_Correct\<close> the locale \<open>attribute_reader\<close> is the contract of a loop body that reads one
  attribute; it is interpreted for the bodies of \<open>dump_link_msg\<close> and \<open>dump_addr_msg\<close> (\<open>link\<close>, \<open>addr\<close>). The properties
  give the exact output for well-formed answers, in terms of messages rather than bytes, and the shape of the local
  arrays for arbitrary bytes.

  \<^bold>\<open>Thread tests.\<close> \<open>Machines\<close> has reachability and the locales \<open>invariant\<close> and \<open>terminating\<close>. \<open>THR_Pingpong\<close> (\<open>thr2\<close>) and
  \<open>THR_Mutex\<close> (the mutex and wait loop of \<open>thr3\<close>) are step relations in which every atomic access and every system
  call is a step and threads interleave freely; the interpretations \<open>pp\<close>, \<open>pt\<close>, \<open>mx\<close> discharge the laws. The futex calls
  follow their documentation: a wait sleeps only if the word still has the given value, a wake ends the sleep of one
  sleeper. The properties are mutual exclusion, an exact waiter counter and the absence of lost wake-ups for any
  number of threads, and that the ping-pong ends with success on a correct kernel and can hang on a faulty one.

  \<^bold>\<open>eclipse-bench.\<close> \<open>BENCH_Chase\<close>: Sattolo's shuffle joins the cycles of a permutation until one is left, so that the pointer
  chase visits every slot. \<open>BENCH_Disk\<close>: the disk tests as functions on a map from paths to sizes; they stay within
  a third of the free space, read inside the file and leave nothing behind unless the kernel refuses a small write.

  \<^bold>\<open>Bounds, oracles and termination.\<close> Buffers have the sizes of the C arrays and \<open>snprintf\<close> cuts where the code's
  buffer ends. No definition takes fuel. In \<open>inst\<close> every fallible call takes the next answer of a finite list and
  all calls fail when it is used up; the loops that retry on \<open>EINTR\<close> terminate on its length, so that the only
  behaviour left out is a kernel that interrupts one call forever. \<open>pwrite_all_terminates\<close> shows that such loops
  also succeed. In \<open>os\<close> and \<open>net\<close> the answers are functions of a counter, hence infinite schedules.

  \<^bold>\<open>Arguments of the model.\<close> zlib (vendored) is the function \<open>gz\<close> from a compressed file to its contents and whether the
  stream ends properly; the effect of a shell command is \<open>sh\<close>; the uninitialised name array of the GPT writer is
  \<open>stk\<close>; the entries of \<^verbatim>\<open>/sys/class/block\<close> are \<open>ents\<close>; \<open>calloc\<close> and \<^verbatim>\<open>/dev/urandom\<close> are fields of \<open>os\<close>.
  The properties hold for all values of these, and for \<^verbatim>\<open>nl_dump\<close> for all texts of \<open>strerror\<close> and initial contents
  of its buffer.

  \<^bold>\<open>Not modelled.\<close> Console text, progress displays and the installer's log file \<^verbatim>\<open>/tmp/eclipse-install.log\<close>;
  \<open>format_size\<close> (floating point, only printed); \<open>secure_bzero\<close> and terminal echo; \<open>sync\<close>, \<open>ioctl\<close> for caches and
  partition rescans beyond their return value; \<open>run_command_capture_token\<close> (never called) and
  \<open>prepare_gpt_or_fallback\<close> (empty). The device of a disk and those of its partitions are separate in \<open>inst\<close>; a
  sound plan keeps the table outside every partition, so that the writes to one do not meet those to the other. Files below a
  mount point are not connected to the device mounted there. Of \<open>thr3\<close>, the condition variable, whose waiters sit on a list of
  stack nodes linked through several futex words and \<open>FUTEX_REQUEUE\<close>, and the barrier above it; of \<open>eclipse-bench\<close>, the loops that only burn time and
  the floating-point rates; \<open>thr\<close> and the X11 client \<open>xtest\<close>, which are straight sequences of system calls and
  requests. The vendored libraries (zlib, Mbed TLS, apk-tools, the NVIDIA resource manager) and the Rust crates are
  outside the development.
\<close>

end
